(* ===== verification/HS_Prelude.thy ===== *)
theory HS_Prelude
  imports Main "HOL-Library.Word" "HOL-Library.Multiset" "HOL-Library.AList"
begin

text \<open>
  Shared vocabulary of the Hindsight development: the machine integers of the C code, its
  compile-time limits, the ways the process can stop, and the C library functions on strings
  that the sources call (\<open>isdigit\<close>, \<open>isspace\<close>, \<open>strtoull\<close>, the \<open>%llu\<close> conversion of
  \<open>printf\<close>, \<open>strchr\<close>, \<open>strstr\<close>), with the facts about them the components share.
  A C string is a list of bytes without its terminating zero.
\<close>

named_theorems hs_defs \<open>definitions of the operations, unfolded together\<close>
named_theorems hs_len \<open>lengths of printed paths and numbers\<close>

section \<open>Machine integers\<close>

type_synonym u8 = "8 word"
type_synonym u32 = "32 word"
type_synonym u64 = "64 word"  \<comment> \<open>\<open>unsigned long long\<close> and \<open>size_t\<close> on the 64-bit targets\<close>

abbreviation ULLONG_MAX :: u64 where "ULLONG_MAX \<equiv> - 1"
abbreviation UINT_MAX :: u32 where "UINT_MAX \<equiv> - 1"
abbreviation UINT8_MAX :: u8 where "UINT8_MAX \<equiv> - 1"

lemma unat_ULLONG_MAX [simp]: "unat ULLONG_MAX = 2 ^ 64 - 1"
  by (simp add: unsigned_minus_1_eq_mask mask_eq_exp_minus_1)

lemma u64_le_max [simp]: "(x :: u64) \<le> ULLONG_MAX"
  by (rule word_n1_ge)

lemma u64_less_max_iff [simp]: "(x :: u64) < ULLONG_MAX \<longleftrightarrow> x \<noteq> ULLONG_MAX"
  by (simp add: order_less_le)

lemma unat_u64_less: "unat (x :: u64) < 2 ^ 64"
  using unsigned_less [of x, where 'a = nat] by simp

lemma unat_u32_less: "unat (x :: u32) < 2 ^ 32"
  using unsigned_less [of x, where 'a = nat] by simp

lemma unat_of_nat_u64: "n < 2 ^ 64 \<Longrightarrow> unat (word_of_nat n :: u64) = n"
  by (simp add: unat_of_nat take_bit_nat_eq_self)

lemma int_less_pow: "int n < 2 ^ k \<longleftrightarrow> n < 2 ^ k"
  by (metis of_nat_less_iff of_nat_numeral of_nat_power)

lemma unat_plus_u64:
  "unat a + unat b < 2 ^ 64 \<Longrightarrow> unat (a + b :: u64) = unat a + unat b"
  by (simp add: unat_word_ariths)

lemma unat_neg_u64:
  assumes "(x :: u64) \<noteq> 0"
  shows "int (unat (- x)) = 2 ^ 64 - int (unat x)"
proof -
  have "(unat (- x) + unat x) mod 2 ^ 64 = unat (- x + x)"
    by (simp only: unat_word_ariths) simp
  then have "(unat (- x) + unat x) mod 2 ^ 64 = 0" by simp
  then obtain k where k: "unat (- x) + unat x = 2 ^ 64 * k" by (auto simp: mod_eq_0_iff_dvd elim: dvdE)
  have "0 < unat x" using assms by (simp add: unat_gt_0)
  then have "k \<noteq> 0" using k by (cases "k = 0") auto
  moreover have "2 ^ 64 * k < 2 ^ 64 * 2"
    unfolding k [symmetric] using unat_u64_less [of x] unat_u64_less [of "- x"] by linarith
  then have "k < 2" by simp
  ultimately have "k = 1" by simp
  with k have "int (unat (- x) + unat x) = int (2 ^ 64)" by (simp only: mult_1_right)
  then show ?thesis by (simp only: of_nat_add of_nat_power of_nat_numeral)
qed

lemma unat_minus_u64: "b \<le> a \<Longrightarrow> unat (a - b :: u64) = unat a - unat b"
  by (rule unat_sub)

section \<open>How the process stops\<close>

text \<open>
  \<open>exit(EXIT_FAILURE)\<close> ends the process from many places. A step that can end it returns a sum:
  \<open>Inl\<close> with the reason, or \<open>Inr\<close> with the new state. \<open>Lua_panic\<close> is an error raised in a Lua
  state outside a protected call, which aborts. \<open>Undefined_behaviour\<close> marks a call
  the C standard gives no meaning to (a null pointer passed to \<open>strstr\<close>, a read past the end
  of an allocation).
\<close>

datatype hs_exit =
    Path_too_long
  | No_such_directory
  | Open_failed
  | Write_failed
  | Flush_failed
  | Realloc_failed
  | Load_failed
  | Lua_panic
  | Forced_stop          \<comment> \<open>the second signal, in the command line variant\<close>
  | Undefined_behaviour

section \<open>Characters and numbers in C strings\<close>

definition isdigit :: "char \<Rightarrow> bool" where
  "isdigit c \<longleftrightarrow> 48 \<le> (of_char c :: nat) \<and> (of_char c :: nat) \<le> 57"

definition isspace :: "char \<Rightarrow> bool" where
  "isspace c \<longleftrightarrow> c = CHR '' '' \<or> 9 \<le> (of_char c :: nat) \<and> (of_char c :: nat) \<le> 13"

definition digit_char :: "nat \<Rightarrow> char" where
  "digit_char d = char_of (48 + d)"

definition digit_val :: "char \<Rightarrow> nat" where
  "digit_val c = of_char c - 48"

text \<open>The \<open>%llu\<close> and \<open>%d\<close> (of a non-negative number) conversions of \<open>printf\<close>.\<close>

fun dec :: "nat \<Rightarrow> string" where
  "dec n = (if n < 10 then [digit_char n] else dec (n div 10) @ [digit_char (n mod 10)])"

declare dec.simps [simp del]

definition show_int :: "int \<Rightarrow> string" where
  "show_int n = (if n < 0 then CHR ''-'' # dec (nat (- n)) else dec (nat n))"

text \<open>The value of the digits at the front of a string, above an accumulator.\<close>

fun digits_value :: "nat \<Rightarrow> string \<Rightarrow> nat" where
  "digits_value acc [] = acc"
| "digits_value acc (c # cs) =
     (if isdigit c then digits_value (acc * 10 + digit_val c) cs else acc)"

text \<open>
  \<open>strtoull(s, NULL, 10)\<close>: white space, an optional sign, digits; an overflow gives
  \<open>ULLONG_MAX\<close>, a minus sign negates in the unsigned type, no digits give 0.
\<close>

definition strtoull :: "string \<Rightarrow> u64" where
  "strtoull s =
     (let t = dropWhile isspace s;
          neg = (t \<noteq> [] \<and> hd t = CHR ''-'');
          u = (if t \<noteq> [] \<and> (hd t = CHR ''-'' \<or> hd t = CHR ''+'') then tl t else t);
          n = digits_value 0 u
      in if int n \<ge> 2 ^ 64 then ULLONG_MAX
         else if neg then - word_of_nat n else word_of_nat n)"

text \<open>\<open>strchr(s, c)\<close>: the suffix from the first \<open>c\<close>; \<open>strstr(s, t)\<close>: from the first \<open>t\<close>.\<close>

fun strchr :: "string \<Rightarrow> char \<Rightarrow> string option" where
  "strchr [] c = None"
| "strchr (x # xs) c = (if x = c then Some (x # xs) else strchr xs c)"

fun strstr :: "string \<Rightarrow> string \<Rightarrow> string option" where
  "strstr [] t = (if t = [] then Some [] else None)"
| "strstr (x # xs) t =
     (if take (length t) (x # xs) = t then Some (x # xs) else strstr xs t)"

text \<open>A buffer read as a C string ends at its first zero byte.\<close>

definition c_str :: "string \<Rightarrow> string" where
  "c_str s = takeWhile (\<lambda>c. c \<noteq> CHR 0x00) s"

definition no_nul :: "string \<Rightarrow> bool" where
  "no_nul s \<longleftrightarrow> CHR 0x00 \<notin> set s"

lemma c_str_no_nul [simp]: "no_nul s \<Longrightarrow> c_str s = s"
  by (auto simp: c_str_def no_nul_def takeWhile_eq_all_conv)

lemma no_nul_c_str [simp]: "no_nul (c_str s)"
  by (auto simp: c_str_def no_nul_def dest: set_takeWhileD)

lemma c_str_snoc_nul: "no_nul s \<Longrightarrow> c_str (s @ [CHR 0x00]) = s"
  by (auto simp: c_str_def no_nul_def takeWhile_append)

subsection \<open>Printing and reading numbers\<close>

lemma of_char_digit_char: "d < 10 \<Longrightarrow> (of_char (digit_char d) :: nat) = 48 + d"
  by (simp add: digit_char_def of_char_of)

lemma isdigit_digit_char [simp]: "d < 10 \<Longrightarrow> isdigit (digit_char d)"
  by (simp add: isdigit_def of_char_digit_char)

lemma digit_val_digit_char [simp]: "d < 10 \<Longrightarrow> digit_val (digit_char d) = d"
  by (simp add: digit_val_def of_char_digit_char)

lemma dec_nonempty [simp]: "dec n \<noteq> []"
  by (subst dec.simps) simp

lemma dec_digits: "c \<in> set (dec n) \<Longrightarrow> isdigit c"
proof (induction n rule: dec.induct)
  case (1 n)
  show ?case
  proof (cases "n < 10")
    case True
    with "1.prems" show ?thesis by (simp add: dec.simps [of n])
  next
    case False
    with 1 show ?thesis by (auto simp: dec.simps [of n])
  qed
qed

lemma isdigit_hd_dec [simp]: "isdigit (hd (dec n))"
  by (rule dec_digits [OF hd_in_set]) simp

lemma digits_value_append:
  "\<forall>c \<in> set xs. isdigit c \<Longrightarrow> digits_value acc (xs @ ys) = digits_value (digits_value acc xs) ys"
  by (induction xs arbitrary: acc) auto

lemma digits_value_dec: "digits_value acc (dec n) = acc * 10 ^ length (dec n) + n"
proof (induction n arbitrary: acc rule: dec.induct)
  case (1 n)
  show ?case
  proof (cases "n < 10")
    case True
    then show ?thesis by (simp add: dec.simps [of n])
  next
    case False
    have "digits_value acc (dec n)
        = digits_value (digits_value acc (dec (n div 10))) [digit_char (n mod 10)]"
      using False by (simp add: dec.simps [of n] digits_value_append dec_digits)
    also have "\<dots> = (acc * 10 ^ length (dec (n div 10)) + n div 10) * 10 + n mod 10"
      using "1.IH" [OF False] by simp
    finally show ?thesis
      using False by (simp add: dec.simps [of n] algebra_simps)
  qed
qed

lemma digits_value_stop:
  "rest = [] \<or> \<not> isdigit (hd rest) \<Longrightarrow> digits_value acc rest = acc"
  by (cases rest) auto

lemma digits_value_dec_rest:
  "rest = [] \<or> \<not> isdigit (hd rest) \<Longrightarrow> digits_value 0 (dec n @ rest) = n"
  by (simp add: digits_value_append dec_digits digits_value_dec digits_value_stop)

lemma digit_not_space: "isdigit c \<Longrightarrow> \<not> isspace c \<and> c \<noteq> CHR ''-'' \<and> c \<noteq> CHR ''+''"
  by (auto simp: isdigit_def isspace_def)

lemma dropWhile_hd: "xs \<noteq> [] \<Longrightarrow> \<not> P (hd xs) \<Longrightarrow> dropWhile P (xs @ ys) = xs @ ys"
  by (cases xs) auto

lemma strtoull_dec:
  assumes "n < 2 ^ 64" and "rest = [] \<or> \<not> isdigit (hd rest)"
  shows "strtoull (dec n @ rest) = word_of_nat n"
proof -
  note d = digit_not_space [OF isdigit_hd_dec, of n]
  have "dropWhile isspace (dec n @ rest) = dec n @ rest"
    using d by (intro dropWhile_hd) auto
  then show ?thesis
    using d assms by (simp add: strtoull_def digits_value_dec_rest del: of_nat_numeral)
qed

lemma dec_inj: "dec m = dec n \<Longrightarrow> m = n"
  by (metis digits_value_dec_rest append_Nil2)

lemma strchr_skip: "c \<notin> set xs \<Longrightarrow> strchr (xs @ c # ys) c = Some (c # ys)"
  by (induction xs) auto

lemma strchr_None: "strchr xs c = None \<longleftrightarrow> c \<notin> set xs"
  by (induction xs) auto

lemma dec_no_colon: "\<not> isdigit c \<Longrightarrow> c \<notin> set (dec n)"
  using dec_digits by blast

lemma length_dec_le: "n < 10 ^ k \<Longrightarrow> 0 < k \<Longrightarrow> length (dec n) \<le> k"
proof (induction n arbitrary: k rule: dec.induct)
  case (1 n)
  show ?case
  proof (cases "n < 10")
    case True
    with "1.prems" show ?thesis by (simp add: dec.simps [of n])
  next
    case False
    with "1.prems" obtain j where k: "k = Suc j"
      by (cases k) auto
    with False "1.prems"(1) have "0 < j" by (cases j) auto
    from k "1.prems"(1) have "n div 10 < 10 ^ j" by (simp add: less_mult_imp_div_less mult.commute)
    from "1.IH" [OF False this \<open>0 < j\<close>] k False show ?thesis
      by (simp add: dec.simps [of n])
  qed
qed

lemma length_dec_u64 [hs_len]: "length (dec (unat (x :: u64))) \<le> 20"
proof (rule length_dec_le)
  have "unat x < 2 ^ 64" by (rule unat_u64_less)
  also have "(2 :: nat) ^ 64 < 10 ^ 20" by simp
  finally show "unat x < 10 ^ 20" .
qed simp

lemma digits_no_slash: "CHR ''/'' \<notin> set (dec n)"
  by (rule dec_no_colon) (simp add: isdigit_def)

lemma last_slash_inj:
  "CHR ''/'' \<notin> set a \<Longrightarrow> CHR ''/'' \<notin> set b \<Longrightarrow>
   p @ CHR ''/'' # a = q @ CHR ''/'' # b \<longleftrightarrow> p = q \<and> a = b"
  by (auto simp: append_eq_append_conv2 append_eq_Cons_conv Cons_eq_append_conv)

section \<open>Loops whose body can end the process\<close>

fun fold_exit :: "('a \<Rightarrow> 's \<Rightarrow> hs_exit + 's) \<Rightarrow> 'a list \<Rightarrow> 's \<Rightarrow> hs_exit + 's" where
  "fold_exit f [] s = Inr s"
| "fold_exit f (x # xs) s = (case f x s of Inl e \<Rightarrow> Inl e | Inr s' \<Rightarrow> fold_exit f xs s')"

lemma fold_exit_append:
  "fold_exit f (xs @ ys) s = (case fold_exit f xs s of Inl e \<Rightarrow> Inl e | Inr s' \<Rightarrow> fold_exit f ys s')"
  by (induction f xs s rule: fold_exit.induct) (auto split: sum.split)

lemma fold_exit_invariant:
  assumes "fold_exit f xs s = Inr s'" and "P s"
    and "\<And>x t t'. x \<in> set xs \<Longrightarrow> P t \<Longrightarrow> f x t = Inr t' \<Longrightarrow> P t'"
  shows "P s'"
  using assms by (induction f xs s rule: fold_exit.induct) (auto split: sum.splits)

text \<open>The step of one element in the middle of a loop.\<close>

lemma fold_exit_split:
  assumes "fold_exit f (xs @ y # ys) s = Inr s'"
  obtains t u where "fold_exit f xs s = Inr t" and "f y t = Inr u" and "fold_exit f ys u = Inr s'"
  using assms by (auto simp: fold_exit_append split: sum.splits)

end
