(* ===== verification/HS_Store.thy ===== *)
theory HS_Store
  imports HS_Prelude
begin

text \<open>
  The interface of a key-value store: what the file system and the checkpoint table promise
  their clients. A lookup after a write sees the write, every other key is framed, and the
  operations keep the store's invariant. The laws are discharged for the file table in
  HS_Filesystem and for the checkpoint table in HS_Checkpoint_Reader; the client lemmas below
  (last write wins, writes to different keys commute, a batch of writes) are proved once here.
\<close>

locale kv_store =
  fixes get :: "'s \<Rightarrow> 'k \<Rightarrow> 'v option"
    and put :: "'s \<Rightarrow> 'k \<Rightarrow> 'v \<Rightarrow> 's"
    and del :: "'s \<Rightarrow> 'k \<Rightarrow> 's"
    and inv :: "'s \<Rightarrow> bool"
  assumes get_put: "inv s \<Longrightarrow> get (put s k v) = (get s)(k \<mapsto> v)"
    and get_del: "inv s \<Longrightarrow> get (del s k) = (get s)(k := None)"
    and inv_put: "inv s \<Longrightarrow> inv (put s k v)"
    and inv_del: "inv s \<Longrightarrow> inv (del s k)"
begin

lemmas store_laws = get_put get_del inv_put inv_del

fun put_all :: "'s \<Rightarrow> ('k \<times> 'v) list \<Rightarrow> 's" where
  "put_all s [] = s"
| "put_all s ((k, v) # kvs) = put_all (put s k v) kvs"

lemma put_put_same: "inv s \<Longrightarrow> get (put (put s k v) k w) = get (put s k w)"
  by (simp add: store_laws)

lemma put_commutes: "inv s \<Longrightarrow> k \<noteq> l \<Longrightarrow> get (put (put s k v) l w) = get (put (put s l w) k v)"
  by (simp add: store_laws fun_upd_twist)

lemma del_put: "inv s \<Longrightarrow> get (del (put s k v) k) = get (del s k)"
  by (simp add: store_laws)

lemma put_all_inv: "inv s \<Longrightarrow> inv (put_all s kvs)"
  by (induction s kvs rule: put_all.induct) (auto simp: store_laws)

lemma put_all_get: "inv s \<Longrightarrow> get (put_all s kvs) = get s ++ map_of (rev kvs)"
proof (induction s kvs rule: put_all.induct)
  case (2 s k v kvs)
  then show ?case by (auto simp: store_laws map_add_def fun_eq_iff split: option.split)
qed simp

lemma put_all_frame: "inv s \<Longrightarrow> k \<notin> fst ` set kvs \<Longrightarrow> get (put_all s kvs) k = get s k"
  by (simp add: put_all_get map_add_def map_of_eq_None_iff [THEN iffD2] image_def split: option.split)

lemma put_all_distinct:
  "inv s \<Longrightarrow> distinct (map fst kvs) \<Longrightarrow> (k, v) \<in> set kvs \<Longrightarrow> get (put_all s kvs) k = Some v"
proof (induction s kvs rule: put_all.induct)
  case (2 s k' v' kvs)
  then show ?case
    by (cases "(k, v) = (k', v')") (auto simp: store_laws put_all_frame)
qed simp

end

text \<open>The association-list facts both providers use.\<close>

lemma map_of_alist_update [simp]: "map_of (AList.update k v xs) = (map_of xs)(k \<mapsto> v)"
  by (rule update_conv')

lemma map_of_alist_delete [simp]: "map_of (AList.delete k xs) = (map_of xs)(k := None)"
  by (rule delete_conv')

lemma distinct_alist_update [intro]:
  "distinct (map fst xs) \<Longrightarrow> distinct (map fst (AList.update k v xs))"
  by (rule distinct_update)

lemma distinct_alist_delete [intro]:
  "distinct (map fst xs) \<Longrightarrow> distinct (map fst (AList.delete k xs))"
  by (rule distinct_delete)

end
