(* ===== verification/HS_Filesystem.thy ===== *)
theory HS_Filesystem
  imports HS_Store
begin

text \<open>
  The POSIX and stdio calls the sources make on files, over an explicit file system: regular
  files by path with their contents in directory order, the directories that exist, and the
  paths whose directory entry the system refuses to open, create, replace or remove. A path is
  a string as the program built it; links and path normalisation are not modelled. Every call
  that can fail reports failure as the C call does.
\<close>

record fsys =
  fs_files :: "(string \<times> string) list"
  fs_dirs :: "string list"
  fs_denied :: "string list"

definition fs_get :: "fsys \<Rightarrow> string \<Rightarrow> string option" where
  "fs_get fs p = map_of (fs_files fs) p"

definition fs_put :: "fsys \<Rightarrow> string \<Rightarrow> string \<Rightarrow> fsys" where
  "fs_put fs p c = fs\<lparr>fs_files := AList.update p c (fs_files fs)\<rparr>"

definition fs_del :: "fsys \<Rightarrow> string \<Rightarrow> fsys" where
  "fs_del fs p = fs\<lparr>fs_files := AList.delete p (fs_files fs)\<rparr>"

definition fs_ok :: "fsys \<Rightarrow> bool" where
  "fs_ok fs \<longleftrightarrow> distinct (map fst (fs_files fs))"

interpretation fstab: kv_store fs_get fs_put fs_del fs_ok
  by unfold_locales (auto simp: fs_get_def fs_put_def fs_del_def fs_ok_def fun_eq_iff)

lemma fs_get_put [simp]: "fs_get (fs_put fs p c) = (fs_get fs)(p \<mapsto> c)"
  by (simp add: fs_get_def fs_put_def fun_eq_iff)

lemma fs_get_del [simp]: "fs_get (fs_del fs p) = (fs_get fs)(p := None)"
  by (simp add: fs_get_def fs_del_def fun_eq_iff)

lemma fs_put_frame [simp]:
  "fs_dirs (fs_put fs p c) = fs_dirs fs" "fs_denied (fs_put fs p c) = fs_denied fs"
  by (simp_all add: fs_put_def)

lemma fs_del_frame [simp]:
  "fs_dirs (fs_del fs p) = fs_dirs fs" "fs_denied (fs_del fs p) = fs_denied fs"
  by (simp_all add: fs_del_def)

section \<open>Directories\<close>

text \<open>The entry name of a path below a directory: what follows \<open>dir/\<close>, when it has no slash.\<close>

definition entry_of :: "string \<Rightarrow> string \<Rightarrow> string option" where
  "entry_of dir p =
     (let d = dir @ ''/''; n = drop (length d) p
      in if take (length d) p = d \<and> CHR ''/'' \<notin> set n then Some n else None)"

text \<open>\<open>opendir\<close> and the sequence of names \<open>readdir\<close> yields; \<open>None\<close> when the directory is missing.\<close>

definition readdir :: "fsys \<Rightarrow> string \<Rightarrow> string list option" where
  "readdir fs dir =
     (if dir \<in> set (fs_dirs fs)
      then Some (List.map_filter (entry_of dir) (map fst (fs_files fs)))
      else None)"

definition mkdir :: "fsys \<Rightarrow> string \<Rightarrow> fsys option" where
  "mkdir fs dir =
     (if dir \<in> set (fs_dirs fs) then Some fs  \<comment> \<open>\<open>EEXIST\<close>, which the callers accept\<close>
      else if dir \<in> set (fs_denied fs) then None
      else Some (fs\<lparr>fs_dirs := fs_dirs fs @ [dir]\<rparr>))"

lemma entry_of_child:
  "CHR ''/'' \<notin> set n \<Longrightarrow> entry_of dir (dir @ ''/'' @ n) = Some n"
  by (simp add: entry_of_def)

lemma entry_of_Some: "entry_of dir p = Some n \<Longrightarrow> p = dir @ ''/'' @ n"
  by (auto simp: entry_of_def Let_def split: if_splits) (metis append_take_drop_id append_Cons append_Nil append_assoc length_append_singleton)

lemma readdir_mem:
  "readdir fs dir = Some es \<Longrightarrow> CHR ''/'' \<notin> set n \<Longrightarrow>
   n \<in> set es \<longleftrightarrow> fs_get fs (dir @ ''/'' @ n) \<noteq> None"
  by (auto simp: readdir_def map_filter_def fs_get_def map_of_eq_None_iff entry_of_child image_iff
      dest: entry_of_Some split: if_splits)
    (metis entry_of_Some entry_of_child fst_conv option.sel option.discI append_Cons append_Nil)+

section \<open>Files\<close>

definition fopen_re :: "fsys \<Rightarrow> string \<Rightarrow> string option" where
  "fopen_re fs p = (if p \<in> set (fs_denied fs) then None else fs_get fs p)"

definition fopen_we :: "fsys \<Rightarrow> string \<Rightarrow> fsys option" where
  "fopen_we fs p = (if p \<in> set (fs_denied fs) then None else Some (fs_put fs p []))"

definition fopen_ae :: "fsys \<Rightarrow> string \<Rightarrow> fsys option" where
  "fopen_ae fs p =
     (if p \<in> set (fs_denied fs) then None
      else Some (case fs_get fs p of None \<Rightarrow> fs_put fs p [] | Some _ \<Rightarrow> fs))"

definition fs_append :: "fsys \<Rightarrow> string \<Rightarrow> string \<Rightarrow> fsys" where
  "fs_append fs p c =
     (case fs_get fs p of None \<Rightarrow> fs_put fs p c | Some old \<Rightarrow> fs_put fs p (old @ c))"

text \<open>\<open>unlink\<close> and \<open>rename\<close>: the flag is true when the C call returns 0.\<close>

definition unlink :: "fsys \<Rightarrow> string \<Rightarrow> bool \<times> fsys" where
  "unlink fs p =
     (if p \<in> set (fs_denied fs) \<or> fs_get fs p = None then (False, fs) else (True, fs_del fs p))"

definition rename :: "fsys \<Rightarrow> string \<Rightarrow> string \<Rightarrow> bool \<times> fsys" where
  "rename fs old new =
     (case fs_get fs old of
        None \<Rightarrow> (False, fs)
      | Some c \<Rightarrow>
          if old \<in> set (fs_denied fs) \<or> new \<in> set (fs_denied fs) then (False, fs)
          else if old = new then (True, fs)
          else (True, fs_put (fs_del fs old) new c))"

lemma unlink_get:
  "unlink fs p = (True, fs') \<Longrightarrow> fs_get fs' = (fs_get fs)(p := None)"
  by (auto simp: unlink_def split: if_splits)

lemma unlink_fail: "unlink fs p = (False, fs') \<Longrightarrow> fs' = fs"
  by (auto simp: unlink_def split: if_splits)

lemma rename_get:
  "rename fs old new = (True, fs') \<Longrightarrow> old \<noteq> new \<Longrightarrow>
   \<exists>c. fs_get fs old = Some c \<and> fs_get fs' = (fs_get fs)(old := None, new \<mapsto> c)"
  by (auto simp: rename_def split: if_splits option.splits)

lemma rename_fail: "rename fs old new = (False, fs') \<Longrightarrow> fs' = fs"
  by (auto simp: rename_def split: if_splits option.splits)

lemma rename_denied: "snd (unlink fs p) = fs' \<Longrightarrow> fs_denied fs' = fs_denied fs"
  by (auto simp: unlink_def)

lemma fs_append_get:
  "fs_get (fs_append fs p c) =
   (fs_get fs)(p \<mapsto> (case fs_get fs p of None \<Rightarrow> c | Some old \<Rightarrow> old @ c))"
  by (auto simp: fs_append_def split: option.split)

lemma fs_append_denied [simp]: "fs_denied (fs_append fs p c) = fs_denied fs"
  by (auto simp: fs_append_def split: option.split)

lemma fopen_ae_get:
  "fopen_ae fs p = Some fs' \<Longrightarrow>
   fs_get fs' = (fs_get fs)(p \<mapsto> (case fs_get fs p of None \<Rightarrow> [] | Some c \<Rightarrow> c))"
  by (auto simp: fopen_ae_def split: if_splits option.splits)

lemma fopen_ae_denied: "fopen_ae fs p = Some fs' \<Longrightarrow> fs_denied fs' = fs_denied fs"
  by (auto simp: fopen_ae_def split: if_splits option.splits)

section \<open>Writing through a stream\<close>

text \<open>
  A stream being written, with the number of bytes the device still accepts (\<open>None\<close>: no
  limit). \<open>fwrite(p, n, 1, fh)\<close> returns 1 when all \<open>n\<close> bytes were accepted and 0 otherwise,
  after accepting what fits; with \<open>n = 0\<close> it returns 0.
\<close>

record ofile =
  of_data :: string
  of_room :: "nat option"

definition fwrite :: "string \<Rightarrow> ofile \<Rightarrow> bool \<times> ofile" where
  "fwrite s fh =
     (case of_room fh of
        None \<Rightarrow> (s \<noteq> [], fh\<lparr>of_data := of_data fh @ s\<rparr>)
      | Some r \<Rightarrow>
          (s \<noteq> [] \<and> length s \<le> r,
           fh\<lparr>of_data := of_data fh @ take r s, of_room := Some (r - length s)\<rparr>))"

lemma fwrite_unlimited [simp]:
  "of_room fh = None \<Longrightarrow> s \<noteq> [] \<Longrightarrow> fwrite s fh = (True, fh\<lparr>of_data := of_data fh @ s\<rparr>)"
  by (simp add: fwrite_def)

lemma fwrite_ok_data: "fwrite s fh = (True, fh') \<Longrightarrow> of_data fh' = of_data fh @ s"
  by (auto simp: fwrite_def split: option.splits)

end
