(* ===== verification/HS_Config_Types.thy ===== *)
theory HS_Config_Types
  imports HS_Filesystem
begin

text \<open>
  The configuration data of \<open>src/hs_config.h\<close> with the defaults \<open>src/hs_config.c\<close> gives it:
  directory names, file extensions, limits, the sandbox configuration and the main
  configuration. A \<open>char *\<close> that may be null is an optional string.
\<close>

definition HS_EXT_LEN :: nat where [simp]: "HS_EXT_LEN = 4"
definition HS_MAX_PATH :: nat where [simp]: "HS_MAX_PATH = 260"
definition HS_MAX_ANALYSIS_THREADS :: u8 where [simp]: "HS_MAX_ANALYSIS_THREADS = 64"

definition hs_input_dir :: string where [simp]: "hs_input_dir = ''input''"
definition hs_analysis_dir :: string where [simp]: "hs_analysis_dir = ''analysis''"
definition hs_output_dir :: string where [simp]: "hs_output_dir = ''output''"
definition hs_lua_ext :: string where [simp]: "hs_lua_ext = ''.lua''"
definition hs_cfg_ext :: string where [simp]: "hs_cfg_ext = ''.cfg''"
definition hs_off_ext :: string where [simp]: "hs_off_ext = ''.off''"
definition hs_err_ext :: string where [simp]: "hs_err_ext = ''.err''"
definition hs_rtc_ext :: string where [simp]: "hs_rtc_ext = ''.rtc''"

record hs_sandbox_config =
  sbc_dir :: "string option"
  sbc_filename :: "string option"
  sbc_cfg_name :: "string option"
  sbc_cfg_lua :: "string option"
  sbc_message_matcher :: "string option"
  sbc_thread :: u32
  sbc_async_buffer_size :: u32
  sbc_output_limit :: u32
  sbc_memory_limit :: u32
  sbc_instruction_limit :: u32
  sbc_ticker_interval :: u32
  sbc_preserve_data :: bool
  sbc_restricted_headers :: bool
  sbc_shutdown_terminate :: bool
  sbc_rm_cp_terminate :: bool
  sbc_read_queue :: char
  sbc_pm_im_limit :: u32
  sbc_te_im_limit :: u32

record hs_config =
  cfg_run_path :: "string option"
  cfg_run_path_input :: "string option"
  cfg_run_path_analysis :: "string option"
  cfg_run_path_output :: "string option"
  cfg_load_path :: "string option"
  cfg_load_path_input :: "string option"
  cfg_load_path_analysis :: "string option"
  cfg_load_path_output :: "string option"
  cfg_output_path :: "string option"
  cfg_install_path :: "string option"
  cfg_io_lua_path :: "string option"
  cfg_io_lua_cpath :: "string option"
  cfg_analysis_lua_path :: "string option"
  cfg_analysis_lua_cpath :: "string option"
  cfg_hostname :: "string option"
  cfg_max_message_size :: u32
  cfg_output_size :: u32
  cfg_backpressure :: u32
  cfg_backpressure_df :: u32
  cfg_pid :: int
  cfg_analysis_threads :: u8
  cfg_analysis_utilization_limit :: u8
  cfg_ipd :: hs_sandbox_config
  cfg_apd :: hs_sandbox_config
  cfg_opd :: hs_sandbox_config

definition init_sandbox_config :: hs_sandbox_config where
  "init_sandbox_config =
     \<lparr>sbc_dir = None, sbc_filename = None, sbc_cfg_name = None, sbc_cfg_lua = None,
      sbc_message_matcher = None,
      sbc_thread = UINT_MAX, sbc_async_buffer_size = 0,
      sbc_output_limit = 1024 * 64, sbc_memory_limit = 1024 * 1024 * 8,
      sbc_instruction_limit = 1000000, sbc_ticker_interval = 0,
      sbc_preserve_data = False, sbc_restricted_headers = True,
      sbc_shutdown_terminate = False, sbc_rm_cp_terminate = False,
      sbc_read_queue = CHR ''b'', sbc_pm_im_limit = 0, sbc_te_im_limit = 10\<rparr>"

definition init_config :: "int \<Rightarrow> hs_config" where
  "init_config pid =
     \<lparr>cfg_run_path = None, cfg_run_path_input = None, cfg_run_path_analysis = None,
      cfg_run_path_output = None, cfg_load_path = None, cfg_load_path_input = None,
      cfg_load_path_analysis = None, cfg_load_path_output = None, cfg_output_path = None,
      cfg_install_path = None, cfg_io_lua_path = None, cfg_io_lua_cpath = None,
      cfg_analysis_lua_path = None, cfg_analysis_lua_cpath = None, cfg_hostname = None,
      cfg_max_message_size = 1024 * 64, cfg_output_size = 1024 * 1024 * 64,
      cfg_backpressure = 0, cfg_backpressure_df = 4, cfg_pid = pid,
      cfg_analysis_threads = 1, cfg_analysis_utilization_limit = 95,
      cfg_ipd = init_sandbox_config\<lparr>sbc_restricted_headers := False\<rparr>,
      cfg_apd = init_sandbox_config,
      cfg_opd = init_sandbox_config\<lparr>sbc_restricted_headers := False\<rparr>\<rparr>"

definition hs_free_sandbox_config :: "hs_sandbox_config \<Rightarrow> hs_sandbox_config" where
  "hs_free_sandbox_config c =
     c\<lparr>sbc_dir := None, sbc_filename := None, sbc_cfg_name := None, sbc_cfg_lua := None,
       sbc_message_matcher := None\<rparr>"

definition hs_free_config :: "hs_config \<Rightarrow> hs_config" where
  "hs_free_config c =
     c\<lparr>cfg_run_path := None, cfg_run_path_input := None, cfg_run_path_analysis := None, cfg_run_path_output := None,
       cfg_load_path := None, cfg_load_path_input := None, cfg_load_path_analysis := None, cfg_load_path_output := None,
       cfg_output_path := None, cfg_install_path := None, cfg_io_lua_path := None, cfg_io_lua_cpath := None,
       cfg_analysis_lua_path := None, cfg_analysis_lua_cpath := None, cfg_hostname := None,
       cfg_ipd := hs_free_sandbox_config (cfg_ipd c), cfg_apd := hs_free_sandbox_config (cfg_apd c),
       cfg_opd := hs_free_sandbox_config (cfg_opd c)\<rparr>"

text \<open>A configuration string where the code uses it; the paths are set before any plugin runs.\<close>

definition str_of :: "string option \<Rightarrow> string" where
  "str_of s = (case s of None \<Rightarrow> [] | Some t \<Rightarrow> t)"

lemma str_of_Some [simp]: "str_of (Some t) = t"
  by (simp add: str_of_def)

end
