(* ===== verification/HS_Util.thy ===== *)
theory HS_Util
  imports HS_Config_Types
begin

text \<open>
  \<open>src/hs_util.c\<close>: path building, extension tests, the search for a plugin's Lua file, the
  escaping of strings written to the checkpoint file, the free-space estimate behind disk
  backpressure, and the termination-error files. Paths that do not fit the buffer are
  \<open>None\<close>, as the callers use the buffer only on success.
\<close>

section \<open>Paths and extensions\<close>

definition hs_file_exists :: "fsys \<Rightarrow> string \<Rightarrow> bool" where
  "hs_file_exists fs fn = (fopen_re fs fn \<noteq> None)"

definition hs_get_fqfn :: "string \<Rightarrow> string \<Rightarrow> nat \<Rightarrow> string option" where
  "hs_get_fqfn path name fqfn_len =
     (let s = path @ ''/'' @ name in if length s > fqfn_len - 1 then None else Some s)"

definition hs_find_lua ::
    "fsys \<Rightarrow> string \<Rightarrow> string \<Rightarrow> string \<Rightarrow> string \<Rightarrow> nat \<Rightarrow> string option" where
  "hs_find_lua fs install_path dir filename ptype fqfn_len =
     (let run = dir @ ''/'' @ filename in
      if length run > fqfn_len - 1 then None
      else if hs_file_exists fs run then Some run
      else
        let inst = install_path @ ''/'' @ ptype @ ''/'' @ filename in
        if length inst > fqfn_len - 1 then None
        else if hs_file_exists fs inst then Some inst
        else None)"

definition hs_has_ext :: "string \<Rightarrow> string \<Rightarrow> bool" where
  "hs_has_ext fn ext =
     (if length fn \<le> length ext then False
      else drop (length fn - length ext) fn = ext)"

definition hs_remove_file :: "fsys \<Rightarrow> string \<Rightarrow> string \<Rightarrow> bool \<times> fsys" where
  "hs_remove_file fs path file =
     (case hs_get_fqfn path file HS_MAX_PATH of
        None \<Rightarrow> (False, fs)
      | Some fqfn \<Rightarrow> unlink fs fqfn)"

fun prune_entries :: "fsys \<Rightarrow> string \<Rightarrow> string list \<Rightarrow> fsys" where
  "prune_entries fs dir [] = fs"
| "prune_entries fs dir (e # es) =
     (if hs_has_ext e hs_err_ext
      then prune_entries (snd (hs_remove_file fs dir e)) dir es
      else prune_entries fs dir es)"

definition hs_prune_err :: "fsys \<Rightarrow> string \<Rightarrow> fsys" where
  "hs_prune_err fs dir =
     (case readdir fs dir of None \<Rightarrow> fs | Some es \<Rightarrow> prune_entries fs dir es)"

lemma hs_has_ext_iff: "hs_has_ext fn ext \<longleftrightarrow> (\<exists>stem. stem \<noteq> [] \<and> fn = stem @ ext)"
proof
  assume h: "hs_has_ext fn ext"
  then have "fn = take (length fn - length ext) fn @ ext" and "length ext < length fn"
    by (auto simp: hs_has_ext_def split: if_splits) (metis append_take_drop_id)
  then show "\<exists>stem. stem \<noteq> [] \<and> fn = stem @ ext"
    by (intro exI [of _ "take (length fn - length ext) fn"]) auto
qed (auto simp: hs_has_ext_def)

lemma hs_get_fqfn_Some [hs_defs]:
  "0 < cap \<Longrightarrow> hs_get_fqfn path name cap = Some s \<longleftrightarrow>
   s = path @ ''/'' @ name \<and> length s < cap"
  by (auto simp: hs_get_fqfn_def Let_def)

lemma hs_get_fqfn_None: "hs_get_fqfn path name cap = None \<longleftrightarrow> cap - 1 \<le> length path + length name"
  by (auto simp: hs_get_fqfn_def Let_def)

lemma hs_find_lua_found:
  "hs_find_lua fs ip dir fn ty cap = Some p \<Longrightarrow>
   hs_file_exists fs p \<and> (p = dir @ ''/'' @ fn \<or> p = ip @ ''/'' @ ty @ ''/'' @ fn)"
  by (auto simp: hs_find_lua_def Let_def split: if_splits)

lemma hs_find_lua_prefers_run_path:
  "hs_file_exists fs (dir @ ''/'' @ fn) \<Longrightarrow> length dir + length fn + 1 < cap \<Longrightarrow>
   hs_find_lua fs ip dir fn ty cap = Some (dir @ ''/'' @ fn)"
  by (simp add: hs_find_lua_def Let_def)

subsection \<open>Pruning the error files\<close>

lemma hs_remove_file_denied [simp]: "fs_denied (snd (hs_remove_file fs d e)) = fs_denied fs"
  by (auto simp: hs_remove_file_def unlink_def split: option.split)

lemma hs_remove_file_get:
  "fs_get (snd (hs_remove_file fs d e)) p =
   (if p = d @ ''/'' @ e \<and> length p < HS_MAX_PATH \<and> p \<notin> set (fs_denied fs)
    then None else fs_get fs p)"
  by (auto simp: hs_remove_file_def hs_get_fqfn_def unlink_def Let_def)

lemma prune_entries_get:
  "fs_get (prune_entries fs d es) p =
   (if (\<exists>e \<in> set es. hs_has_ext e hs_err_ext \<and> p = d @ ''/'' @ e)
       \<and> length p < HS_MAX_PATH \<and> p \<notin> set (fs_denied fs)
    then None else fs_get fs p)"
  by (induction fs d es rule: prune_entries.induct) (auto simp: hs_remove_file_get)

section \<open>Escaping strings for the checkpoint file\<close>

definition lua_put_char :: "char \<Rightarrow> ofile \<Rightarrow> bool \<times> ofile" where
  "lua_put_char c fh =
     (if c = CHR 0x0A then fwrite [CHR 0x5C, CHR ''n''] fh
      else if c = CHR 0x0D then fwrite [CHR 0x5C, CHR ''r''] fh
      else if c = CHR 0x22 then fwrite [CHR 0x5C, CHR 0x22] fh
      else if c = CHR 0x5C then (True, snd (fwrite [CHR 0x5C, CHR 0x5C] fh))
        \<comment> \<open>this branch of the switch does not assign \<open>rv\<close>\<close>
      else fwrite [c] fh)"

fun lua_put_chars :: "string \<Rightarrow> ofile \<Rightarrow> bool \<times> ofile" where
  "lua_put_chars [] fh = (True, fh)"
| "lua_put_chars (c # cs) fh =
     (case lua_put_char c fh of
        (True, fh') \<Rightarrow> lua_put_chars cs fh'
      | (False, fh') \<Rightarrow> (False, fh'))"

text \<open>The flag is true when the C function returns 0, that is, when no write failed.\<close>

definition hs_output_lua_string :: "ofile \<Rightarrow> string \<Rightarrow> bool \<times> ofile" where
  "hs_output_lua_string fh s = lua_put_chars (c_str s) fh"

text \<open>The text a string is written as, and a reader of Lua's single-quoted literals that knows
  the four escapes the writer uses: it returns the contents and what follows the closing quote.\<close>

fun lua_escape :: "string \<Rightarrow> string" where
  "lua_escape [] = []"
| "lua_escape (c # cs) =
     (if c = CHR 0x0A then [CHR 0x5C, CHR ''n'']
      else if c = CHR 0x0D then [CHR 0x5C, CHR ''r'']
      else if c = CHR 0x22 then [CHR 0x5C, CHR 0x22]
      else if c = CHR 0x5C then [CHR 0x5C, CHR 0x5C]
      else [c]) @ lua_escape cs"

fun read_quoted :: "string \<Rightarrow> (string \<times> string) option" where
  "read_quoted [] = None"
| "read_quoted (c # cs) =
     (if c = CHR 0x27 then Some ([], cs)
      else if c = CHR 0x0A \<or> c = CHR 0x0D then None
      else if c = CHR 0x5C then
        (case cs of
           [] \<Rightarrow> None
         | e # ds \<Rightarrow>
             map_option (\<lambda>(s, rest).
               ((if e = CHR ''n'' then CHR 0x0A
                 else if e = CHR ''r'' then CHR 0x0D else e) # s, rest)) (read_quoted ds))
      else map_option (\<lambda>(s, rest). (c # s, rest)) (read_quoted cs))"

lemma lua_put_char_unlimited:
  "of_room fh = None \<Longrightarrow>
   lua_put_char c fh = (True, fh\<lparr>of_data := of_data fh @ lua_escape [c]\<rparr>)"
  by (simp add: lua_put_char_def)

lemma lua_escape_Cons: "lua_escape (c # cs) = lua_escape [c] @ lua_escape cs"
  by simp

lemma lua_put_chars_unlimited:
  "of_room fh = None \<Longrightarrow>
   lua_put_chars s fh = (True, fh\<lparr>of_data := of_data fh @ lua_escape s\<rparr>)"
proof (induction s arbitrary: fh)
  case (Cons c s)
  then show ?case
    by (simp add: lua_put_char_unlimited lua_escape_Cons [of c s] del: lua_escape.simps(2))
qed simp

lemma read_quoted_escape:
  "CHR 0x27 \<notin> set s \<Longrightarrow> read_quoted (lua_escape s @ CHR 0x27 # rest) = Some (s, rest)"
  by (induction s) auto

lemma read_quoted_stops_at_quote:
  "CHR 0x27 \<notin> set s \<Longrightarrow>
   read_quoted (lua_escape (s @ CHR 0x27 # t) @ rest) = Some (s, lua_escape t @ rest)"
  by (induction s) auto

section \<open>Free disk space in output buffers\<close>

text \<open>
  \<open>statfs\<close> reports the block size and the blocks available, or fails. The product is taken in
  64 bits and the quotient returned as \<open>unsigned\<close>.
\<close>

definition hs_disk_free_ob :: "(u64 \<times> u64) option \<Rightarrow> u32 \<Rightarrow> u32" where
  "hs_disk_free_ob st ob_size =
     (if ob_size = 0 then 0
      else case st of
        None \<Rightarrow> 0
      | Some (bsize, bavail) \<Rightarrow> ucast ((bsize * bavail) div ucast ob_size))"

lemma unat_ucast_up_u32: "unat (ucast (x :: u32) :: u64) = unat x"
proof -
  have "unat x < 2 ^ 64" using unat_u32_less [of x] by simp
  then show ?thesis by (simp add: unsigned_ucast_eq take_bit_nat_eq_self)
qed

lemma hs_disk_free_ob_exact:
  assumes "unat bs * unat av < 2 ^ 64" and "0 < ob"
    and "unat bs * unat av div unat ob < 2 ^ 32"
  shows "unat (hs_disk_free_ob (Some (bs, av)) ob) = unat bs * unat av div unat ob"
proof -
  have m: "unat (bs * av) = unat bs * unat av"
    using assms(1) by (simp add: unat_word_ariths)
  have "unat ((bs * av) div ucast ob :: u64) = unat bs * unat av div unat ob"
    by (simp add: unat_div m unat_ucast_up_u32)
  then show ?thesis
    using assms by (auto simp: hs_disk_free_ob_def unsigned_ucast_eq take_bit_nat_eq_self)
qed

section \<open>Termination-error files\<close>

definition get_termination_fn :: "string option \<Rightarrow> string option \<Rightarrow> string option" where
  "get_termination_fn path name =
     (case (path, name) of
        (Some p, Some n) \<Rightarrow>
          (case strchr n (CHR ''.'') of
             None \<Rightarrow> None
           | Some pos \<Rightarrow>
               let fn = p @ ''/'' @ take (length n - length pos) n @ ''/'' @ tl pos @ hs_err_ext
               in if length fn > HS_MAX_PATH - 1 then None else Some fn)
      | _ \<Rightarrow> None)"

text \<open>
  \<open>hs_is_bad_state\<close>; \<open>lsb_read_file\<close> is the Lua sandbox's file reader, a parameter: it returns
  the contents as a C string, or null. A null result goes to \<open>strstr\<close> unchecked.
\<close>

definition hs_is_bad_state ::
    "(fsys \<Rightarrow> string \<Rightarrow> string option) \<Rightarrow> fsys \<Rightarrow> string option \<Rightarrow> string option \<Rightarrow>
     string option \<Rightarrow> hs_exit + (bool \<times> fsys)" where
  "hs_is_bad_state lsb_read_file fs path name state =
     (case get_termination_fn path name of
        None \<Rightarrow> Inr (False, fs)
      | Some fn \<Rightarrow>
          (case lsb_read_file fs fn of
             None \<Rightarrow> Inl Undefined_behaviour
           | Some em \<Rightarrow>
               (case strstr (c_str em) ''restore_global_data'' of
                  None \<Rightarrow> Inr (False, fs)
                | Some _ \<Rightarrow>
                    let fs1 = snd (unlink fs fn);
                        fs2 = (case state of None \<Rightarrow> fs1 | Some st \<Rightarrow> snd (unlink fs1 st))
                    in Inr (True, fs2))))"

text \<open>The file's first field is the time in UTC (\<open>stamp\<close>, empty when \<open>gmtime_r\<close> fails).\<close>

definition common_termination_err ::
    "fsys \<Rightarrow> string \<Rightarrow> string option \<Rightarrow> string option \<Rightarrow> (string \<times> fsys) option" where
  "common_termination_err fs stamp path name =
     (case get_termination_fn path name of
        None \<Rightarrow> None
      | Some fn \<Rightarrow>
          (case fopen_we fs fn of
             None \<Rightarrow> None
           | Some fs' \<Rightarrow> Some (fn, fs_append fs' fn stamp)))"

definition hs_save_termination_err ::
    "fsys \<Rightarrow> string \<Rightarrow> string option \<Rightarrow> string option \<Rightarrow> string option \<Rightarrow> fsys" where
  "hs_save_termination_err fs stamp path name err =
     (case err of
        None \<Rightarrow> fs
      | Some e \<Rightarrow>
          (case common_termination_err fs stamp path name of
             None \<Rightarrow> fs
           | Some (fn, fs') \<Rightarrow> fs_append fs' fn (e @ [CHR 0x0A])))"

lemma strchr_split:
  "strchr n c = Some pos \<Longrightarrow> n = take (length n - length pos) n @ pos \<and> hd pos = c \<and> pos \<noteq> []"
proof (induction n)
  case (Cons x xs)
  show ?case
  proof (cases "x = c")
    case True
    with Cons.prems show ?thesis by auto
  next
    case False
    with Cons.prems have eq: "strchr xs c = Some pos" by simp
    note ih = Cons.IH [OF eq]
    then have "length pos \<le> length xs"
      by (metis length_append le_add2)
    then show ?thesis using ih by (simp add: Suc_diff_le)
  qed
qed simp

lemma strstr_Some: "strstr s t = Some u \<Longrightarrow> \<exists>pre. s = pre @ u \<and> take (length t) u = t"
proof (induction s t rule: strstr.induct)
  case (2 x xs t)
  show ?case
  proof (cases "take (length t) (x # xs) = t")
    case True
    with "2.prems" show ?thesis by auto
  next
    case False
    with "2.prems" have "strstr xs t = Some u" by simp
    with "2.IH" [OF False] obtain pre where "xs = pre @ u" "take (length t) u = t" by blast
    then show ?thesis by (intro exI [of _ "x # pre"]) simp
  qed
qed (auto split: if_splits)

lemma strstr_None: "strstr s t = None \<longleftrightarrow> (\<forall>pre suf. s \<noteq> pre @ t @ suf)"
proof (induction s t rule: strstr.induct)
  case (2 x xs t)
  show ?case
  proof (cases "take (length t) (x # xs) = t")
    case True
    then have "x # xs = [] @ t @ drop (length t) (x # xs)"
      by (metis append_Nil append_take_drop_id)
    with True show ?thesis by (auto simp del: append_Nil)
  next
    case False
    have "(\<exists>pre suf. x # xs = pre @ t @ suf) \<longleftrightarrow> (\<exists>pre suf. xs = pre @ t @ suf)"
    proof
      assume "\<exists>pre suf. x # xs = pre @ t @ suf"
      then obtain pre suf where e: "x # xs = pre @ t @ suf" by blast
      with False show "\<exists>pre suf. xs = pre @ t @ suf"
        by (cases pre) (auto simp: take_append)
    qed (metis append_Cons)
    with 2 False show ?thesis by auto
  qed
qed auto

text \<open>A termination error that is saved is found again under the name that reads it back.\<close>

lemma hs_save_termination_err_get:
  assumes "get_termination_fn path name = Some fn" and "fn \<notin> set (fs_denied fs)"
  shows "fs_get (hs_save_termination_err fs stamp path name (Some e)) =
         (fs_get fs)(fn \<mapsto> stamp @ e @ [CHR 0x0A])"
  using assms
  by (simp add: hs_save_termination_err_def common_termination_err_def fopen_we_def fs_append_get)

end
