(* ===== verification/HS_Load_Cfg.thy ===== *)
theory HS_Load_Cfg
  imports HS_Util
begin

text \<open>
  How a plugin's files move between the load and the run directory: \<open>hs_process_load_cfg\<close> of
  \<open>src/hs_config.c\<close>, and the part the three \<open>process_lua\<close> functions share, which installs new Lua
  code and sends the configurations of the plugins running it back to the load directory.
\<close>

section \<open>Configuration files\<close>

text \<open>\<open>strcpy(path + strlen(path) - HS_EXT_LEN, ext)\<close>.\<close>

definition swap_ext :: "string \<Rightarrow> string \<Rightarrow> string" where
  "swap_ext path ext = take (length path - HS_EXT_LEN) path @ ext"

text \<open>Removing a flag file if it exists; \<open>None\<close> when the removal fails.\<close>

definition clear_flag :: "fsys \<Rightarrow> string \<Rightarrow> fsys option" where
  "clear_flag fs path =
     (if hs_file_exists fs path
      then (case unlink fs path of (True, fs') \<Rightarrow> Some fs' | (False, _) \<Rightarrow> None)
      else Some fs)"

definition process_cfg :: "fsys \<Rightarrow> string \<Rightarrow> string \<Rightarrow> string \<Rightarrow> hs_exit + (int \<times> fsys)" where
  "process_cfg fs lpath rpath name =
     (case hs_get_fqfn lpath name HS_MAX_PATH of
        None \<Rightarrow> Inl Path_too_long
      | Some cfg_lpath \<Rightarrow>
          (case hs_get_fqfn rpath name HS_MAX_PATH of
             None \<Rightarrow> Inl Path_too_long
           | Some cfg_rpath \<Rightarrow>
               (case clear_flag fs (swap_ext cfg_rpath hs_off_ext) of
                  None \<Rightarrow> Inr (-1, fs)
                | Some fs1 \<Rightarrow>
                    (case clear_flag fs1 (swap_ext cfg_rpath hs_err_ext) of
                       None \<Rightarrow> Inr (-1, fs1)
                     | Some fs2 \<Rightarrow>
                         (case rename fs2 cfg_lpath cfg_rpath of
                            (True, fs3) \<Rightarrow> Inr (1, fs3)
                          | (False, fs3) \<Rightarrow> Inr (-1, fs3))))))"

definition process_off :: "fsys \<Rightarrow> string \<Rightarrow> string \<Rightarrow> string \<Rightarrow> hs_exit + (int \<times> fsys)" where
  "process_off fs lpath rpath name =
     (case hs_get_fqfn lpath name HS_MAX_PATH of
        None \<Rightarrow> Inl Path_too_long
      | Some off_lpath \<Rightarrow>
          (case unlink fs off_lpath of
             (False, fs1) \<Rightarrow> Inr (-1, fs1)
           | (True, fs1) \<Rightarrow>
               (case hs_get_fqfn rpath name HS_MAX_PATH of
                  None \<Rightarrow> Inl Path_too_long
                | Some off_rpath \<Rightarrow>
                    (case rename fs1 (swap_ext off_rpath hs_cfg_ext) off_rpath of
                       (True, fs2) \<Rightarrow> Inr (0, fs2)
                     | (False, fs2) \<Rightarrow> Inr (-1, fs2)))))"

definition hs_process_load_cfg :: "fsys \<Rightarrow> string \<Rightarrow> string \<Rightarrow> string \<Rightarrow> hs_exit + (int \<times> fsys)" where
  "hs_process_load_cfg fs lpath rpath name =
     (if hs_has_ext name hs_cfg_ext then process_cfg fs lpath rpath name
      else if hs_has_ext name hs_off_ext then process_off fs lpath rpath name
      else Inr (-1, fs))"

section \<open>Lua files\<close>

text \<open>Moving the Lua file; \<open>None\<close> in the result when the move fails and nothing else is done.\<close>

definition install_lua :: "fsys \<Rightarrow> string \<Rightarrow> string \<Rightarrow> string \<Rightarrow> hs_exit + (string \<times> fsys) option" where
  "install_lua fs lpath rpath name =
     (case hs_get_fqfn lpath name HS_MAX_PATH of
        None \<Rightarrow> Inl Path_too_long
      | Some lua_lpath \<Rightarrow>
          (case hs_get_fqfn rpath name HS_MAX_PATH of
             None \<Rightarrow> Inl Path_too_long
           | Some lua_rpath \<Rightarrow>
               (case rename fs lua_lpath lua_rpath of
                  (True, fs') \<Rightarrow> Inr (Some (lua_rpath, fs'))
                | (False, _) \<Rightarrow> Inr None)))"

text \<open>One plugin of the list: \<open>stem\<close> is its name without the type prefix.\<close>

definition restart_plugin ::
    "fsys \<Rightarrow> string \<Rightarrow> string \<Rightarrow> string \<Rightarrow> string \<Rightarrow> string \<Rightarrow> hs_exit + fsys" where
  "restart_plugin fs lpath rpath lua_rpath lua_file stem =
     (if lua_rpath = lua_file then
        let cfg_lpath = lpath @ ''/'' @ stem @ hs_cfg_ext;
            cfg_rpath = rpath @ ''/'' @ stem @ hs_cfg_ext
        in if length cfg_lpath > HS_MAX_PATH - 1 \<or> length cfg_rpath > HS_MAX_PATH - 1
           then Inl Path_too_long
           else if hs_file_exists fs cfg_lpath then Inr fs
           else Inr (snd (rename fs cfg_rpath cfg_lpath))
      else Inr fs)"

fun restart_plugins ::
    "fsys \<Rightarrow> string \<Rightarrow> string \<Rightarrow> string \<Rightarrow> (string \<times> string) list \<Rightarrow> hs_exit + fsys" where
  "restart_plugins fs lpath rpath lua_rpath [] = Inr fs"
| "restart_plugins fs lpath rpath lua_rpath ((lua_file, stem) # ps) =
     (case restart_plugin fs lpath rpath lua_rpath lua_file stem of
        Inl e \<Rightarrow> Inl e
      | Inr fs' \<Rightarrow> restart_plugins fs' lpath rpath lua_rpath ps)"

text \<open>The whole function, for the running plugins in list order as (Lua file, stem).\<close>

definition process_lua_files ::
    "fsys \<Rightarrow> string \<Rightarrow> string \<Rightarrow> string \<Rightarrow> (string \<times> string) list \<Rightarrow> hs_exit + fsys" where
  "process_lua_files fs lpath rpath name ps =
     (case install_lua fs lpath rpath name of
        Inl e \<Rightarrow> Inl e
      | Inr None \<Rightarrow> Inr fs
      | Inr (Some (lua_rpath, fs')) \<Rightarrow> restart_plugins fs' lpath rpath lua_rpath ps)"

section \<open>What the moves do\<close>

lemma swap_ext_child:
  "hs_has_ext name ext \<Longrightarrow> length ext = 4 \<Longrightarrow>
   swap_ext (d @ ''/'' @ name) e = d @ ''/'' @ swap_ext name e"
  by (auto simp: hs_has_ext_iff swap_ext_def)

lemma swap_ext_stem: "length e = 4 \<Longrightarrow> swap_ext (stem @ e) ext = stem @ ext"
  by (simp add: swap_ext_def)

lemma clear_flag_get:
  "clear_flag fs p = Some fs' \<Longrightarrow> p \<notin> set (fs_denied fs) \<Longrightarrow>
   fs_get fs' = (fs_get fs)(p := None) \<and> fs_denied fs' = fs_denied fs"
  by (auto simp: clear_flag_def hs_file_exists_def fopen_re_def unlink_def fun_eq_iff split: if_splits prod.splits bool.splits)

lemma clear_flag_denied: "clear_flag fs p = Some fs' \<Longrightarrow> fs_denied fs' = fs_denied fs"
  by (auto simp: clear_flag_def unlink_def split: if_splits prod.splits bool.splits)

lemma clear_flag_Some: "p \<notin> set (fs_denied fs) \<Longrightarrow> \<exists>fs'. clear_flag fs p = Some fs'"
  by (auto simp: clear_flag_def hs_file_exists_def fopen_re_def unlink_def split: prod.split bool.split)

lemma path_eq: "CHR ''/'' \<notin> set a \<Longrightarrow> CHR ''/'' \<notin> set b \<Longrightarrow>
   p @ ''/'' @ a @ ''.cfg'' = q @ ''/'' @ b @ ''.cfg'' \<longleftrightarrow> p = q \<and> a = b"
  using last_slash_inj [of "a @ ''.cfg''" "b @ ''.cfg''" p q] by simp

lemma restart_plugin_get:
  assumes "restart_plugin fs lpath rpath lua lf stem = Inr fs'" and "fs_denied fs = []" and "lpath \<noteq> rpath"
  shows "fs_denied fs' = [] \<and> fs_get fs' =
    (if lua = lf \<and> fs_get fs (lpath @ ''/'' @ stem @ ''.cfg'') = None
        \<and> fs_get fs (rpath @ ''/'' @ stem @ ''.cfg'') \<noteq> None
     then (fs_get fs)(rpath @ ''/'' @ stem @ ''.cfg'' := None,
            lpath @ ''/'' @ stem @ ''.cfg'' := fs_get fs (rpath @ ''/'' @ stem @ ''.cfg''))
     else fs_get fs)"
  using assms
  by (auto simp: restart_plugin_def Let_def hs_file_exists_def fopen_re_def rename_def
      split: if_splits option.splits)

text \<open>A plugin of the list is sent back exactly once, whatever its place.\<close>

lemma restart_plugins_get:
  assumes "restart_plugins fs lpath rpath lua ps = Inr fs'" and "fs_denied fs = []" and "lpath \<noteq> rpath"
    and "distinct (map snd ps)" and "\<forall>(lf, stem) \<in> set ps. CHR ''/'' \<notin> set stem"
    and "CHR ''/'' \<notin> set stem"
  shows "fs_get fs' (lpath @ ''/'' @ stem @ ''.cfg'') =
      (if (lua, stem) \<in> set ps \<and> fs_get fs (lpath @ ''/'' @ stem @ ''.cfg'') = None
       then fs_get fs (rpath @ ''/'' @ stem @ ''.cfg'') else fs_get fs (lpath @ ''/'' @ stem @ ''.cfg'')) \<and>
    fs_get fs' (rpath @ ''/'' @ stem @ ''.cfg'') =
      (if (lua, stem) \<in> set ps \<and> fs_get fs (lpath @ ''/'' @ stem @ ''.cfg'') = None
       then None else fs_get fs (rpath @ ''/'' @ stem @ ''.cfg''))"
  using assms
proof (induction fs lpath rpath lua ps rule: restart_plugins.induct)
  case (2 fs lpath rpath lua lf st ps)
  obtain fs1 where r: "restart_plugin fs lpath rpath lua lf st = Inr fs1"
    and rest: "restart_plugins fs1 lpath rpath lua ps = Inr fs'"
    using "2.prems"(1) by (auto split: sum.splits)
  note g = restart_plugin_get [OF r "2.prems"(2,3)]
  have d: "fs_denied fs1 = []" using g by blast
  have st: "CHR ''/'' \<notin> set st" and ps: "distinct (map snd ps)" "\<forall>(lf, stem) \<in> set ps. CHR ''/'' \<notin> set stem"
    "st \<notin> snd ` set ps" using "2.prems"(4,5) by auto
  note ih = "2.IH" [OF r rest d "2.prems"(3) ps(1,2) "2.prems"(6)]
  have e: "\<And>p q. p @ ''/'' @ stem @ ''.cfg'' = q @ ''/'' @ st @ ''.cfg'' \<longleftrightarrow> p = q \<and> stem = st"
    by (rule path_eq [OF "2.prems"(6) st])
  show ?case
  proof (cases "stem = st")
    case True
    then have "(lua, stem) \<notin> set ps" using ps(3) by force
    with ih g True "2.prems"(3) e show ?thesis by (auto split: if_splits)
  next
    case False
    then have "fs_get fs1 (lpath @ ''/'' @ stem @ ''.cfg'') = fs_get fs (lpath @ ''/'' @ stem @ ''.cfg'')"
      "fs_get fs1 (rpath @ ''/'' @ stem @ ''.cfg'') = fs_get fs (rpath @ ''/'' @ stem @ ''.cfg'')"
      using g e by simp_all
    with ih False show ?thesis by simp
  qed
qed simp

lemma restart_plugins_frame:
  "restart_plugins fs lpath rpath lua ps = Inr fs' \<Longrightarrow> fs_denied fs = [] \<Longrightarrow> lpath \<noteq> rpath \<Longrightarrow>
   \<forall>stem. p \<noteq> lpath @ ''/'' @ stem @ ''.cfg'' \<and> p \<noteq> rpath @ ''/'' @ stem @ ''.cfg'' \<Longrightarrow>
   fs_get fs' p = fs_get fs p"
proof (induction fs lpath rpath lua ps rule: restart_plugins.induct)
  case (2 fs lpath rpath lua lf st ps)
  obtain fs1 where r: "restart_plugin fs lpath rpath lua lf st = Inr fs1"
    and rest: "restart_plugins fs1 lpath rpath lua ps = Inr fs'"
    using "2.prems"(1) by (auto split: sum.splits)
  note g = restart_plugin_get [OF r "2.prems"(2,3)]
  have "fs_get fs1 p = fs_get fs p" using g "2.prems"(4) by (auto split: if_splits)
  with "2.IH" [OF r rest _ "2.prems"(3,4)] g show ?case by auto
qed simp

section \<open>Properties\<close>

text \<open>Loading a configuration moves it whole into the run directory in place of the old one and
  clears the off and error flags of the plugin; nothing else changes. It returns 1 exactly when
  the new configuration was there to move.\<close>

theorem load_cfg_moves:
  assumes "hs_process_load_cfg fs lpath rpath (stem @ ''.cfg'') = Inr (r, fs')"
    and "fs_denied fs = []" and "stem \<noteq> []" and "lpath \<noteq> rpath"
  shows "(r = 1 \<longleftrightarrow> fs_get fs (lpath @ ''/'' @ stem @ ''.cfg'') \<noteq> None) \<and>
    (r = 1 \<longrightarrow> fs_get fs' = (fs_get fs)
       (rpath @ ''/'' @ stem @ ''.off'' := None, rpath @ ''/'' @ stem @ ''.err'' := None,
        lpath @ ''/'' @ stem @ ''.cfg'' := None,
        rpath @ ''/'' @ stem @ ''.cfg'' := fs_get fs (lpath @ ''/'' @ stem @ ''.cfg''))) \<and>
    (r \<noteq> 1 \<longrightarrow> r = -1 \<and> fs_get fs' (rpath @ ''/'' @ stem @ ''.cfg'') = fs_get fs (rpath @ ''/'' @ stem @ ''.cfg''))"
proof -
  let ?l = "lpath @ ''/'' @ stem @ ''.cfg''" and ?r = "rpath @ ''/'' @ stem @ ''.cfg''"
  let ?off = "rpath @ ''/'' @ stem @ ''.off''" and ?err = "rpath @ ''/'' @ stem @ ''.err''"
  have ext: "hs_has_ext (stem @ ''.cfg'') hs_cfg_ext" using assms(3) by (auto simp: hs_has_ext_iff)
  have sw: "swap_ext ?r ''.off'' = ?off" "swap_ext ?r ''.err'' = ?err"
    by (simp_all add: swap_ext_def)
  obtain fs1 where f1: "clear_flag fs ?off = Some fs1" using clear_flag_Some [of ?off fs] assms(2) by auto
  have g1: "fs_get fs1 = (fs_get fs)(?off := None)" "fs_denied fs1 = []"
    using clear_flag_get [OF f1] assms(2) by auto
  obtain fs2 where f2: "clear_flag fs1 ?err = Some fs2" using clear_flag_Some [of ?err fs1] g1(2) by auto
  have g2: "fs_get fs2 = (fs_get fs)(?off := None, ?err := None)" "fs_denied fs2 = []"
    using clear_flag_get [OF f2] g1 by auto
  have pr: "hs_process_load_cfg fs lpath rpath (stem @ ''.cfg'') = Inr
      (case rename fs2 ?l ?r of (True, fs3) \<Rightarrow> (1, fs3) | (False, fs3) \<Rightarrow> (-1, fs3))"
    using assms(1) ext f1 f2
    by (auto simp: hs_process_load_cfg_def process_cfg_def sw [simplified] hs_get_fqfn_def Let_def split: if_splits prod.splits bool.splits)
  have lne: "?l \<noteq> ?off" "?l \<noteq> ?err" "?r \<noteq> ?off" "?r \<noteq> ?err"
    by (auto dest: arg_cong [where f = rev])
  have lr: "?l \<noteq> ?r" using assms(4) by simp
  have gl: "fs_get fs2 ?l = fs_get fs ?l" "fs_get fs2 ?r = fs_get fs ?r" using g2(1) lne by auto
  show ?thesis
  proof (cases "fs_get fs ?l")
    case None
    then have "rename fs2 ?l ?r = (False, fs2)" using gl by (simp add: rename_def)
    with pr assms(1) None gl show ?thesis by auto
  next
    case (Some c)
    then have "rename fs2 ?l ?r = (True, fs_put (fs_del fs2 ?l) ?r c)"
      using gl g2(2) lr by (simp add: rename_def)
    with pr assms(1) Some g2(1) show ?thesis by (auto simp: fun_eq_iff)
  qed
qed

theorem load_cfg_moves_witness:
  "let fs = \<lparr>fs_files = [(''l/a.cfg'', ''new''), (''r/a.cfg'', ''old''), (''r/a.err'', ''e'')], fs_dirs = [], fs_denied = []\<rparr>
   in \<exists>fs'. hs_process_load_cfg fs ''l'' ''r'' ''a.cfg'' = Inr (1, fs') \<and> fs_get fs' ''r/a.cfg'' = Some ''new'' \<and>
        fs_get fs' ''r/a.err'' = None"
proof -
  let ?fs = "\<lparr>fs_files = [(''l/a.cfg'', ''new''), (''r/a.cfg'', ''old''), (''r/a.err'', ''e'')], fs_dirs = [], fs_denied = []\<rparr> :: fsys"
  let ?fs' = "\<lparr>fs_files = [(''r/a.cfg'', ''new'')], fs_dirs = [], fs_denied = []\<rparr> :: fsys"
  have run: "hs_process_load_cfg ?fs ''l'' ''r'' (''a'' @ ''.cfg'') = Inr (1, ?fs')" by code_simp
  have "fs_denied ?fs = []" "''a'' \<noteq> []" "''l'' \<noteq> (''r'' :: string)" by simp_all
  note q = load_cfg_moves [OF run this, THEN conjunct2, THEN conjunct1, THEN mp, OF refl]
  have "fs_get ?fs' ''r/a.cfg'' = Some ''new''" "fs_get ?fs' ''r/a.err'' = None"
    using q by (simp_all add: fs_get_def)
  with run show ?thesis unfolding Let_def by auto
qed

text \<open>An off flag in the load directory takes the plugin's running configuration out of service:
  it is renamed to the off name and the flag is consumed; without a running configuration the
  flag is consumed all the same and -1 returned.\<close>

theorem off_flag_stops_plugin:
  assumes "hs_process_load_cfg fs lpath rpath (stem @ ''.off'') = Inr (r, fs')"
    and "fs_denied fs = []" and "stem \<noteq> []" and "lpath \<noteq> rpath"
    and "fs_get fs (lpath @ ''/'' @ stem @ ''.off'') \<noteq> None" and "CHR ''/'' \<notin> set stem"
  shows "fs_get fs' = (case fs_get fs (rpath @ ''/'' @ stem @ ''.cfg'') of
       None \<Rightarrow> (fs_get fs)(lpath @ ''/'' @ stem @ ''.off'' := None)
     | Some c \<Rightarrow> (fs_get fs)(lpath @ ''/'' @ stem @ ''.off'' := None,
          rpath @ ''/'' @ stem @ ''.cfg'' := None, rpath @ ''/'' @ stem @ ''.off'' \<mapsto> c)) \<and>
    r = (if fs_get fs (rpath @ ''/'' @ stem @ ''.cfg'') = None then -1 else 0)"
proof -
  let ?lo = "lpath @ ''/'' @ stem @ ''.off''" and ?ro = "rpath @ ''/'' @ stem @ ''.off''"
  let ?rc = "rpath @ ''/'' @ stem @ ''.cfg''"
  have ext: "\<not> hs_has_ext (stem @ ''.off'') hs_cfg_ext" "hs_has_ext (stem @ ''.off'') hs_off_ext"
    using assms(3) by (auto simp: hs_has_ext_iff)
  have sw: "swap_ext ?ro ''.cfg'' = ?rc" by (simp add: swap_ext_def)
  have u: "unlink fs ?lo = (True, fs_del fs ?lo)" using assms(2,5) by (simp add: unlink_def)
  have ne: "?lo \<noteq> ?rc" using last_slash_inj [of "stem @ ''.off''" "stem @ ''.cfg''" lpath rpath] assms(6)
    by auto
  have ne2: "?rc \<noteq> ?ro" by (auto dest: arg_cong [where f = rev])
  have pr: "(r, fs') = (case rename (fs_del fs ?lo) ?rc ?ro of (True, f) \<Rightarrow> (0, f) | (False, f) \<Rightarrow> (-1, f))"
    using assms(1) ext u
    by (auto simp: hs_process_load_cfg_def process_off_def sw [simplified] hs_get_fqfn_def Let_def
        split: if_splits prod.splits bool.splits)
  show ?thesis
  proof (cases "fs_get fs ?rc")
    case None
    then have "rename (fs_del fs ?lo) ?rc ?ro = (False, fs_del fs ?lo)" by (simp add: rename_def)
    with pr None show ?thesis by simp
  next
    case (Some c)
    then have "rename (fs_del fs ?lo) ?rc ?ro = (True, fs_put (fs_del (fs_del fs ?lo) ?rc) ?ro c)"
      using ne ne2 assms(2) by (simp add: rename_def)
    with pr Some show ?thesis by simp
  qed
qed

theorem off_flag_stops_plugin_witness:
  "let fs = \<lparr>fs_files = [(''l/a.off'', []), (''r/a.cfg'', ''c'')], fs_dirs = [], fs_denied = []\<rparr>
   in \<exists>fs'. hs_process_load_cfg fs ''l'' ''r'' ''a.off'' = Inr (0, fs') \<and> fs_get fs' ''r/a.off'' = Some ''c''"
proof -
  let ?fs = "\<lparr>fs_files = [(''l/a.off'', []), (''r/a.cfg'', ''c'')], fs_dirs = [], fs_denied = []\<rparr> :: fsys"
  let ?fs' = "\<lparr>fs_files = [(''r/a.off'', ''c'')], fs_dirs = [], fs_denied = []\<rparr> :: fsys"
  have run: "hs_process_load_cfg ?fs ''l'' ''r'' (''a'' @ ''.off'') = Inr (0, ?fs')" by code_simp
  have "fs_denied ?fs = []" "''a'' \<noteq> []" "''l'' \<noteq> (''r'' :: string)"
    "fs_get ?fs (''l'' @ ''/'' @ ''a'' @ ''.off'') \<noteq> None" "CHR ''/'' \<notin> set ''a''"
    by (simp_all add: fs_get_def)
  note q = off_flag_stops_plugin [OF run this, THEN conjunct1]
  have "fs_get ?fs' ''r/a.off'' = Some ''c''" using q by (simp add: fs_get_def)
  with run show ?thesis unfolding Let_def by auto
qed

text \<open>New Lua code restarts exactly the plugins that run it: after the file is moved into the run
  directory, the configuration of each of them is back in the load directory, unless a new one
  is waiting there, and no other plugin's configuration moves.\<close>

theorem process_lua_restarts_users:
  assumes "process_lua_files fs lpath rpath (base @ ''.lua'') ps = Inr fs'"
    and "fs_denied fs = []" and "lpath \<noteq> rpath" and "distinct (map snd ps)"
    and "\<forall>(lf, stem) \<in> set ps. CHR ''/'' \<notin> set stem"
    and "fs_get fs (lpath @ ''/'' @ base @ ''.lua'') = Some code"
  shows "fs_get fs' (rpath @ ''/'' @ base @ ''.lua'') = Some code \<and>
    (\<forall>stem. CHR ''/'' \<notin> set stem \<longrightarrow>
      (let sent_back = ((rpath @ ''/'' @ base @ ''.lua'', stem) \<in> set ps \<and>
                        fs_get fs (lpath @ ''/'' @ stem @ ''.cfg'') = None)
       in fs_get fs' (lpath @ ''/'' @ stem @ ''.cfg'') =
            fs_get fs ((if sent_back then rpath else lpath) @ ''/'' @ stem @ ''.cfg'') \<and>
          fs_get fs' (rpath @ ''/'' @ stem @ ''.cfg'') =
            (if sent_back then None else fs_get fs (rpath @ ''/'' @ stem @ ''.cfg''))))"
proof -
  let ?ll = "lpath @ ''/'' @ base @ ''.lua''" and ?rl = "rpath @ ''/'' @ base @ ''.lua''"
  obtain fs1 where i: "install_lua fs lpath rpath (base @ ''.lua'') = Inr (Some (?rl, fs1))"
    and r: "restart_plugins fs1 lpath rpath ?rl ps = Inr fs'"
    and g: "fs_get fs1 = (fs_get fs)(?ll := None, ?rl \<mapsto> code)" "fs_denied fs1 = []"
    using assms(1,2,3,6)
    by (auto simp: process_lua_files_def install_lua_def hs_get_fqfn_def rename_def Let_def
        split: if_splits option.splits sum.splits)
  have lua: "q @ ''/'' @ st @ ''.cfg'' \<noteq> p' @ ''/'' @ base @ ''.lua''" for q st p'
    by (auto dest: arg_cong [where f = rev])
  have "fs_get fs' ?rl = fs_get fs1 ?rl"
    by (rule restart_plugins_frame [OF r g(2) assms(3)]) (metis lua)
  moreover have "fs_get fs1 (q @ ''/'' @ st @ ''.cfg'') = fs_get fs (q @ ''/'' @ st @ ''.cfg'')" for q st
    using lua [of q st lpath] lua [of q st rpath] by (simp only: g(1) fun_upd_apply if_False)
  ultimately show ?thesis
    using restart_plugins_get [OF r g(2) assms(3-5)] g(1) by (simp add: Let_def)
qed

theorem process_lua_restarts_users_witness:
  "let fs = \<lparr>fs_files = [(''l/x.lua'', ''v2''), (''r/x.lua'', ''v1''), (''r/a.cfg'', ''ca''), (''r/b.cfg'', ''cb'')], fs_dirs = [], fs_denied = []\<rparr>
   in \<exists>fs'. process_lua_files fs ''l'' ''r'' ''x.lua'' [(''r/x.lua'', ''a''), (''r/y.lua'', ''b'')] = Inr fs' \<and>
        fs_get fs' ''l/a.cfg'' = Some ''ca'' \<and> fs_get fs' ''r/b.cfg'' = Some ''cb''"
proof -
  let ?fs = "\<lparr>fs_files = [(''l/x.lua'', ''v2''), (''r/x.lua'', ''v1''), (''r/a.cfg'', ''ca''), (''r/b.cfg'', ''cb'')], fs_dirs = [], fs_denied = []\<rparr> :: fsys"
  let ?fs' = "\<lparr>fs_files = [(''r/x.lua'', ''v2''), (''r/b.cfg'', ''cb''), (''l/a.cfg'', ''ca'')], fs_dirs = [], fs_denied = []\<rparr> :: fsys"
  let ?ps = "[(''r/x.lua'', ''a''), (''r/y.lua'', ''b'')]"
  have run: "process_lua_files ?fs ''l'' ''r'' (''x'' @ ''.lua'') ?ps = Inr ?fs'" by code_simp
  have "fs_denied ?fs = []" "''l'' \<noteq> (''r'' :: string)" "distinct (map snd ?ps)"
    "\<forall>(lf, stem) \<in> set ?ps. CHR ''/'' \<notin> set stem"
    "fs_get ?fs (''l'' @ ''/'' @ ''x'' @ ''.lua'') = Some ''v2''"
    by (simp_all add: fs_get_def)
  note q = process_lua_restarts_users [OF run this, THEN conjunct2, rule_format]
  have "fs_get ?fs' ''l/a.cfg'' = Some ''ca''" "fs_get ?fs' ''r/b.cfg'' = Some ''cb''"
    using q [of "''a''"] q [of "''b''"] by (simp_all add: fs_get_def Let_def)
  with run show ?thesis unfolding Let_def by auto
qed

end
