(* ===== verification/HS_Lua.thy ===== *)
theory HS_Lua
  imports HS_Util Complex_Main
begin

text \<open>
  The values the C code reads out of Lua states. A Lua number is a C double: not-a-number, an
  infinity, or a finite value (an exact rational here; the sign of zero is not observed).
  Tables are references, compared and passed by address.
\<close>

datatype lua_number = NaN | PInf | NInf | Fin rat

datatype lua_value =
    LNil
  | LBool bool
  | LNumber lua_number
  | LString string
  | LTable nat
  | LOther  \<comment> \<open>functions, userdata and threads\<close>

definition isnan :: "lua_number \<Rightarrow> bool" where
  "isnan d \<longleftrightarrow> d = NaN"

end
