(* ===== verification/HS_Config.thy ===== *)
theory HS_Config
  imports HS_Lua
begin

text \<open>
  The configuration parser of \<open>src/hs_config.c\<close>: each option is read from the Lua state the
  configuration file ran in and removed from it, so that what is left at the end is unknown.

  A Lua state is its stack (bottom first), its global table and its other tables; a table is its
  entries in traversal order. Running Lua code is a parameter: \<open>lua_run\<close> gives the state a chunk
  leaves behind, or its error message. \<open>num_str\<close> is Lua's conversion of a number to a string.
\<close>

section \<open>Lua states\<close>

type_synonym lua_table = "(lua_value \<times> lua_value) list"

record lua_state =
  ls_stack :: "lua_value list"
  ls_globals :: lua_table
  ls_tables :: "(nat \<times> lua_table) list"

datatype lua_index = Globals | Stack_index nat

definition lua_push :: "lua_value \<Rightarrow> lua_state \<Rightarrow> lua_state" where
  "lua_push v L = L\<lparr>ls_stack := ls_stack L @ [v]\<rparr>"

definition lua_pop1 :: "lua_state \<Rightarrow> lua_state" where
  "lua_pop1 L = L\<lparr>ls_stack := butlast (ls_stack L)\<rparr>"

definition lua_top :: "lua_state \<Rightarrow> lua_value" where
  "lua_top L = (if ls_stack L = [] then LNil else last (ls_stack L))"

definition lua_value_at :: "lua_state \<Rightarrow> nat \<Rightarrow> lua_value" where
  "lua_value_at L i = (if 1 \<le> i \<and> i \<le> length (ls_stack L) then ls_stack L ! (i - 1) else LNil)"

text \<open>The table at an index; anything but a table cannot be indexed, as no library is open.\<close>

definition lua_table_at :: "lua_state \<Rightarrow> lua_index \<Rightarrow> lua_table option" where
  "lua_table_at L idx =
     (case idx of
        Globals \<Rightarrow> Some (ls_globals L)
      | Stack_index i \<Rightarrow>
          (case lua_value_at L i of
             LTable n \<Rightarrow> Some (case map_of (ls_tables L) n of None \<Rightarrow> [] | Some t \<Rightarrow> t)
           | _ \<Rightarrow> None))"

definition lua_getfield :: "lua_index \<Rightarrow> string \<Rightarrow> lua_state \<Rightarrow> hs_exit + lua_state" where
  "lua_getfield idx name L =
     (case lua_table_at L idx of
        None \<Rightarrow> Inl Lua_panic
      | Some t \<Rightarrow> Inr (lua_push (case map_of t (LString name) of None \<Rightarrow> LNil | Some v \<Rightarrow> v) L))"

text \<open>\<open>lua_setfield\<close> of nil.\<close>

definition lua_delfield :: "lua_index \<Rightarrow> string \<Rightarrow> lua_state \<Rightarrow> hs_exit + lua_state" where
  "lua_delfield idx name L =
     (case idx of
        Globals \<Rightarrow> Inr (L\<lparr>ls_globals := AList.delete (LString name) (ls_globals L)\<rparr>)
      | Stack_index i \<Rightarrow>
          (case lua_value_at L i of
             LTable n \<Rightarrow>
               Inr (L\<lparr>ls_tables := AList.update n
                  (AList.delete (LString name) (the (lua_table_at L idx))) (ls_tables L)\<rparr>)
           | _ \<Rightarrow> Inl Lua_panic))"

definition lua_error :: "string \<Rightarrow> lua_state \<Rightarrow> lua_state" where
  "lua_error msg L = lua_push (LString msg) L"

section \<open>Reading one option\<close>

definition remove_item :: "lua_index \<Rightarrow> string \<Rightarrow> lua_state \<Rightarrow> hs_exit + lua_state" where
  "remove_item idx name L = lua_delfield idx name (lua_pop1 L)"

text \<open>
  A reader returns whether it failed, the value it stored, if any, and the state. On success the
  option is gone from the table.
\<close>

definition finish_item ::
    "lua_index \<Rightarrow> string \<Rightarrow> 'v option \<Rightarrow> lua_state \<Rightarrow> hs_exit + (bool \<times> 'v option \<times> lua_state)" where
  "finish_item idx name v L =
     (case remove_item idx name L of Inl e \<Rightarrow> Inl e | Inr L' \<Rightarrow> Inr (False, v, L'))"

definition get_string_item ::
    "(lua_number \<Rightarrow> string) \<Rightarrow> lua_index \<Rightarrow> string \<Rightarrow> string option \<Rightarrow> lua_state \<Rightarrow>
     hs_exit + (bool \<times> string option \<times> lua_state)" where
  "get_string_item num_str idx name dflt L0 =
     (case lua_getfield idx name L0 of
        Inl e \<Rightarrow> Inl e
      | Inr L \<Rightarrow>
          let tmp = (case lua_top L of LString s \<Rightarrow> Some s | LNumber d \<Rightarrow> Some (num_str d) | _ \<Rightarrow> None) in
          (case (tmp, dflt) of
             (None, None) \<Rightarrow> Inr (True, None, lua_error (name @ '' must be set to a string'') L)
           | (None, Some d) \<Rightarrow> finish_item idx name (Some d) L
           | (Some s, _) \<Rightarrow> finish_item idx name (Some (c_str s)) L))"

text \<open>\<open>d < 0 || d > max\<close>, then the conversion to the unsigned type; not-a-number passes the test.\<close>

definition number_in :: "int \<Rightarrow> lua_number \<Rightarrow> bool" where
  "number_in limit d =
     (case d of Fin r \<Rightarrow> \<not> (r < 0 \<or> r > of_int limit) | NaN \<Rightarrow> True | _ \<Rightarrow> False)"

definition get_bounded ::
    "int \<Rightarrow> string \<Rightarrow> lua_index \<Rightarrow> string \<Rightarrow> lua_state \<Rightarrow> hs_exit + (bool \<times> int option \<times> lua_state)" where
  "get_bounded limit what idx name L0 =
     (case lua_getfield idx name L0 of
        Inl e \<Rightarrow> Inl e
      | Inr L \<Rightarrow>
          (case lua_top L of
             LNumber d \<Rightarrow>
               if number_in limit d then
                 (case d of
                    Fin r \<Rightarrow> finish_item idx name (Some \<lfloor>r\<rfloor>) L
                  | _ \<Rightarrow> Inl Undefined_behaviour)
               else Inr (True, None, lua_error (name @ what) L)
           | LNil \<Rightarrow> finish_item idx name None L
           | _ \<Rightarrow> Inr (True, None, lua_error (name @ '' must be set to a number'') L)))"

definition get_unsigned_int ::
    "lua_index \<Rightarrow> string \<Rightarrow> lua_state \<Rightarrow> hs_exit + (bool \<times> int option \<times> lua_state)" where
  "get_unsigned_int idx name L = get_bounded 4294967295 '' must be an unsigned int'' idx name L"

definition get_uint8 ::
    "lua_index \<Rightarrow> string \<Rightarrow> lua_state \<Rightarrow> hs_exit + (bool \<times> int option \<times> lua_state)" where
  "get_uint8 idx name L = get_bounded 255 '' must be a uint8_t'' idx name L"

definition get_option_char ::
    "string list \<Rightarrow> lua_index \<Rightarrow> string \<Rightarrow> lua_state \<Rightarrow> hs_exit + (bool \<times> char option \<times> lua_state)" where
  "get_option_char options idx name L0 =
     (case lua_getfield idx name L0 of
        Inl e \<Rightarrow> Inl e
      | Inr L \<Rightarrow>
          (case lua_top L of
             LString s \<Rightarrow>
               if c_str s \<in> set options then finish_item idx name (Some (hd (c_str s))) L
               else Inr (True, None, lua_error (name @ '' invalid option '' @ c_str s) L)
           | LNil \<Rightarrow> finish_item idx name None L
           | _ \<Rightarrow> Inr (True, None, lua_error (name @ '' must be set to a string'') L)))"

text \<open>The message names \<open>preserve_data\<close> whatever the option is.\<close>

definition get_bool_item ::
    "lua_index \<Rightarrow> string \<Rightarrow> lua_state \<Rightarrow> hs_exit + (bool \<times> bool option \<times> lua_state)" where
  "get_bool_item idx name L0 =
     (case lua_getfield idx name L0 of
        Inl e \<Rightarrow> Inl e
      | Inr L \<Rightarrow>
          (case lua_top L of
             LBool b \<Rightarrow> finish_item idx name (Some b) L
           | LNil \<Rightarrow> finish_item idx name None L
           | _ \<Rightarrow> Inr (True, None, lua_error (''preserve_data must be set to a bool'') L)))"

definition check_for_unknown_options ::
    "lua_index \<Rightarrow> string option \<Rightarrow> lua_state \<Rightarrow> hs_exit + (bool \<times> lua_state)" where
  "check_for_unknown_options idx parent L =
     (case lua_table_at L idx of
        None \<Rightarrow> Inl Lua_panic
      | Some [] \<Rightarrow> Inr (False, L)
      | Some ((k, v) # _) \<Rightarrow>
          (let L1 = lua_push v (lua_push k L) in
           Inr (True,
             case k of
               LString s \<Rightarrow>
                 (case parent of
                    Some p \<Rightarrow> lua_error (''invalid option: '' @ [CHR 0x27] @ p @ ''.'' @ s @ [CHR 0x27]) L1
                  | None \<Rightarrow> lua_error (''invalid option: '' @ [CHR 0x27] @ s @ [CHR 0x27]) L1)
             | _ \<Rightarrow> lua_error ''non string key'' L1)))"

section \<open>Sequences of options\<close>

text \<open>
  The functions below read options one after another and stop at the first failure. A step
  works on the Lua state and the record being filled; its flag is true when it failed.
  \<open>ignored\<close> is a step whose result the code overwrites before testing it.
\<close>

type_synonym 'c cstep = "lua_state \<times> 'c \<Rightarrow> hs_exit + (bool \<times> lua_state \<times> 'c)"

fun run_steps :: "'c cstep list \<Rightarrow> 'c cstep" where
  "run_steps [] s = Inr (False, s)"
| "run_steps (st # sts) s =
     (case st s of
        Inl e \<Rightarrow> Inl e
      | Inr (True, s') \<Rightarrow> Inr (True, s')
      | Inr (False, s') \<Rightarrow> run_steps sts s')"

definition field ::
    "(lua_state \<Rightarrow> hs_exit + (bool \<times> 'v option \<times> lua_state)) \<Rightarrow> ('v \<Rightarrow> 'c \<Rightarrow> 'c) \<Rightarrow> 'c cstep" where
  "field get upd s =
     (case get (fst s) of
        Inl e \<Rightarrow> Inl e
      | Inr (failed, v, L) \<Rightarrow>
          Inr (failed, L, case v of None \<Rightarrow> snd s | Some x \<Rightarrow> upd x (snd s)))"

definition ignored :: "'c cstep \<Rightarrow> 'c cstep" where
  "ignored st s = (case st s of Inl e \<Rightarrow> Inl e | Inr (_, s') \<Rightarrow> Inr (False, s'))"

definition check :: "('c \<Rightarrow> bool) \<Rightarrow> string \<Rightarrow> 'c cstep" where
  "check bad msg s = (if bad (snd s) then Inr (True, lua_error msg (fst s), snd s) else Inr (False, s))"

text \<open>Setting a field from the record itself, as the derived paths are.\<close>

definition derive :: "('c \<Rightarrow> 'c) \<Rightarrow> 'c cstep" where
  "derive f s = Inr (False, fst s, f (snd s))"

definition g_queue_options :: "string list" where
  "g_queue_options = [''both'', ''input'', ''analysis'']"

abbreviation uint_opt :: "lua_index \<Rightarrow> string \<Rightarrow> (u32 \<Rightarrow> 'c \<Rightarrow> 'c) \<Rightarrow> 'c cstep" where
  "uint_opt idx name upd \<equiv> field (get_unsigned_int idx name) (\<lambda>x. upd (word_of_int x))"

abbreviation uint8_opt :: "lua_index \<Rightarrow> string \<Rightarrow> (u8 \<Rightarrow> 'c \<Rightarrow> 'c) \<Rightarrow> 'c cstep" where
  "uint8_opt idx name upd \<equiv> field (get_uint8 idx name) (\<lambda>x. upd (word_of_int x))"

abbreviation bool_opt :: "lua_index \<Rightarrow> string \<Rightarrow> (bool \<Rightarrow> 'c \<Rightarrow> 'c) \<Rightarrow> 'c cstep" where
  "bool_opt idx name upd \<equiv> field (get_bool_item idx name) upd"

abbreviation string_opt ::
    "(lua_number \<Rightarrow> string) \<Rightarrow> lua_index \<Rightarrow> string \<Rightarrow> string option \<Rightarrow> (string \<Rightarrow> 'c \<Rightarrow> 'c) \<Rightarrow> 'c cstep" where
  "string_opt num_str idx name dflt upd \<equiv> field (get_string_item num_str idx name dflt) upd"

section \<open>Sandbox configurations\<close>

abbreviation upd_output_limit :: "u32 \<Rightarrow> hs_sandbox_config \<Rightarrow> hs_sandbox_config" where
  "upd_output_limit x c \<equiv> c\<lparr>sbc_output_limit := x\<rparr>"
abbreviation upd_memory_limit :: "u32 \<Rightarrow> hs_sandbox_config \<Rightarrow> hs_sandbox_config" where
  "upd_memory_limit x c \<equiv> c\<lparr>sbc_memory_limit := x\<rparr>"
abbreviation upd_instruction_limit :: "u32 \<Rightarrow> hs_sandbox_config \<Rightarrow> hs_sandbox_config" where
  "upd_instruction_limit x c \<equiv> c\<lparr>sbc_instruction_limit := x\<rparr>"
abbreviation upd_ticker_interval :: "u32 \<Rightarrow> hs_sandbox_config \<Rightarrow> hs_sandbox_config" where
  "upd_ticker_interval x c \<equiv> c\<lparr>sbc_ticker_interval := x\<rparr>"
abbreviation upd_preserve_data :: "bool \<Rightarrow> hs_sandbox_config \<Rightarrow> hs_sandbox_config" where
  "upd_preserve_data x c \<equiv> c\<lparr>sbc_preserve_data := x\<rparr>"
abbreviation upd_restricted_headers :: "bool \<Rightarrow> hs_sandbox_config \<Rightarrow> hs_sandbox_config" where
  "upd_restricted_headers x c \<equiv> c\<lparr>sbc_restricted_headers := x\<rparr>"
abbreviation upd_shutdown_terminate :: "bool \<Rightarrow> hs_sandbox_config \<Rightarrow> hs_sandbox_config" where
  "upd_shutdown_terminate x c \<equiv> c\<lparr>sbc_shutdown_terminate := x\<rparr>"
abbreviation upd_rm_cp_terminate :: "bool \<Rightarrow> hs_sandbox_config \<Rightarrow> hs_sandbox_config" where
  "upd_rm_cp_terminate x c \<equiv> c\<lparr>sbc_rm_cp_terminate := x\<rparr>"
abbreviation upd_pm_im_limit :: "u32 \<Rightarrow> hs_sandbox_config \<Rightarrow> hs_sandbox_config" where
  "upd_pm_im_limit x c \<equiv> c\<lparr>sbc_pm_im_limit := x\<rparr>"
abbreviation upd_te_im_limit :: "u32 \<Rightarrow> hs_sandbox_config \<Rightarrow> hs_sandbox_config" where
  "upd_te_im_limit x c \<equiv> c\<lparr>sbc_te_im_limit := x\<rparr>"
abbreviation upd_read_queue :: "char \<Rightarrow> hs_sandbox_config \<Rightarrow> hs_sandbox_config" where
  "upd_read_queue x c \<equiv> c\<lparr>sbc_read_queue := x\<rparr>"

definition defaults_steps :: "string \<Rightarrow> hs_sandbox_config cstep list" where
  "defaults_steps key =
     (let t = Stack_index 1 in
      [uint_opt t ''output_limit'' upd_output_limit,
       uint_opt t ''memory_limit'' upd_memory_limit,
       uint_opt t ''instruction_limit'' upd_instruction_limit,
       uint_opt t ''ticker_interval'' upd_ticker_interval,
       bool_opt t ''preserve_data'' upd_preserve_data,
       bool_opt t ''restricted_headers'' upd_restricted_headers,
       bool_opt t ''shutdown_on_terminate'' upd_shutdown_terminate]
      @ (if key = ''analysis_defaults''
         then [uint_opt t ''process_message_inject_limit'' upd_pm_im_limit,
               uint_opt t ''timer_event_inject_limit'' upd_te_im_limit] else [])
      @ (if key = ''output_defaults''
         then [bool_opt t ''remove_checkpoints_on_terminate'' upd_rm_cp_terminate,
               field (get_option_char g_queue_options t ''read_queue'') upd_read_queue] else []))"

definition load_sandbox_defaults :: "string \<Rightarrow> hs_sandbox_config cstep" where
  "load_sandbox_defaults key s =
     (case lua_getfield Globals key (fst s) of
        Inl e \<Rightarrow> Inl e
      | Inr L \<Rightarrow>
          (case lua_top L of
             LTable _ \<Rightarrow>
               (case run_steps (defaults_steps key) (L, snd s) of
                  Inl e \<Rightarrow> Inl e
                | Inr (True, s1) \<Rightarrow> Inr (True, s1)
                | Inr (False, L1, c1) \<Rightarrow>
                    (case check_for_unknown_options (Stack_index 1) (Some key) L1 of
                       Inl e \<Rightarrow> Inl e
                     | Inr (True, L2) \<Rightarrow> Inr (True, L2, c1)
                     | Inr (False, L2) \<Rightarrow>
                         (case remove_item Globals key L2 of
                            Inl e \<Rightarrow> Inl e
                          | Inr L3 \<Rightarrow> Inr (False, L3, c1))))
           | _ \<Rightarrow> Inr (True, lua_error (key @ '' must be a table'') L, snd s)))"

definition create_name :: "string \<Rightarrow> string \<Rightarrow> string" where
  "create_name prefix fn = prefix @ ''.'' @ take (length fn - HS_EXT_LEN) fn"

text \<open>The options of a plugin's configuration; \<open>''i''\<close>, \<open>''a''\<close> or \<open>''o''\<close> is its type.\<close>

definition sandbox_steps :: "(lua_number \<Rightarrow> string) \<Rightarrow> char \<Rightarrow> hs_sandbox_config cstep list" where
  "sandbox_steps num_str type =
     [uint_opt Globals ''output_limit'' upd_output_limit,
      uint_opt Globals ''memory_limit'' upd_memory_limit,
      uint_opt Globals ''instruction_limit'' upd_instruction_limit,
      uint_opt Globals ''ticker_interval'' upd_ticker_interval,
      string_opt num_str Globals ''filename'' None (\<lambda>x c. c\<lparr>sbc_filename := Some x\<rparr>),
      check (\<lambda>c. \<exists>x \<in> set (str_of (sbc_filename c)). x = CHR ''/'' \<or> x = CHR 0x5C)
        ''filename must not contain a path component'',
      check (\<lambda>c. \<not> hs_has_ext (str_of (sbc_filename c)) hs_lua_ext)
        ''.lua must have a filename extension'',
      bool_opt Globals ''preserve_data'' upd_preserve_data,
      bool_opt Globals ''restricted_headers'' upd_restricted_headers,
      bool_opt Globals ''shutdown_on_terminate'' upd_shutdown_terminate]
     @ (if type = CHR ''a'' \<or> type = CHR ''o''
        then [string_opt num_str Globals ''message_matcher'' None
                (\<lambda>x c. c\<lparr>sbc_message_matcher := Some x\<rparr>)] else [])
     @ (if type = CHR ''a''
        then [ignored (uint_opt Globals ''thread'' (\<lambda>x c. c\<lparr>sbc_thread := x\<rparr>)),
              ignored (uint_opt Globals ''process_message_inject_limit'' upd_pm_im_limit),
              uint_opt Globals ''timer_event_inject_limit'' upd_te_im_limit] else [])
     @ (if type = CHR ''o''
        then [uint_opt Globals ''async_buffer_size'' (\<lambda>x c. c\<lparr>sbc_async_buffer_size := x\<rparr>),
              ignored (bool_opt Globals ''remove_checkpoints_on_terminate'' upd_rm_cp_terminate),
              field (get_option_char g_queue_options Globals ''read_queue'') upd_read_queue] else [])"

definition copy_defaults :: "hs_sandbox_config \<Rightarrow> hs_sandbox_config \<Rightarrow> hs_sandbox_config" where
  "copy_defaults dflt cfg =
     cfg\<lparr>sbc_output_limit := sbc_output_limit dflt, sbc_memory_limit := sbc_memory_limit dflt,
         sbc_instruction_limit := sbc_instruction_limit dflt,
         sbc_ticker_interval := sbc_ticker_interval dflt,
         sbc_preserve_data := sbc_preserve_data dflt,
         sbc_restricted_headers := sbc_restricted_headers dflt,
         sbc_shutdown_terminate := sbc_shutdown_terminate dflt,
         sbc_rm_cp_terminate := sbc_rm_cp_terminate dflt,
         sbc_pm_im_limit := sbc_pm_im_limit dflt, sbc_te_im_limit := sbc_te_im_limit dflt,
         sbc_read_queue := sbc_read_queue dflt\<rparr>"

definition type_prefix :: "char \<Rightarrow> string" where
  "type_prefix type =
     (if type = CHR ''i'' then ''input'' else if type = CHR ''o'' then ''output'' else ''analysis'')"

text \<open>The directory above the last slash, where the error of a refused configuration is saved.\<close>

definition parent_dir :: "string \<Rightarrow> string option" where
  "parent_dir dir =
     (if CHR ''/'' \<in> set dir
      then Some (rev (tl (dropWhile (\<lambda>c. c \<noteq> CHR ''/'') (rev dir)))) else None)"

record lua_env =
  lua_read_file :: "fsys \<Rightarrow> string \<Rightarrow> string option"   \<comment> \<open>\<open>lsb_read_file\<close>\<close>
  lua_run :: "string \<Rightarrow> string + lua_state"  \<comment> \<open>\<open>luaL_dostring\<close> in a new state\<close>
  lua_num_str :: "lua_number \<Rightarrow> string"
  lua_stamp :: string  \<comment> \<open>the time stamp of an error file\<close>

definition hs_load_sandbox_config ::
    "lua_env \<Rightarrow> fsys \<Rightarrow> string \<Rightarrow> string \<Rightarrow> hs_sandbox_config \<Rightarrow> char \<Rightarrow>
     hs_exit + (fsys \<times> hs_sandbox_config option)" where
  "hs_load_sandbox_config lenv fs dir fn dflt type =
     (if \<not> hs_has_ext fn hs_cfg_ext then Inr (fs, None)
      else case hs_get_fqfn dir fn HS_MAX_PATH of
        None \<Rightarrow> Inr (fs, None)
      | Some fqfn \<Rightarrow>
          (case lua_read_file lenv fs fqfn of
             None \<Rightarrow> Inr (fs, None)
           | Some lua \<Rightarrow>
               let cfg = (copy_defaults dflt (init_sandbox_config\<lparr>sbc_cfg_lua := Some lua\<rparr>))
                           \<lparr>sbc_cfg_name := Some (create_name (type_prefix type) fn), sbc_dir := Some dir\<rparr>;
                   refuse = (\<lambda>msg. Inr ((case parent_dir dir of
                        None \<Rightarrow> fs
                      | Some d \<Rightarrow> hs_save_termination_err fs (lua_stamp lenv) (Some d) (sbc_cfg_name cfg) msg), None))
               in case lua_run lenv lua of
                    Inl msg \<Rightarrow> refuse (Some msg)
                  | Inr L \<Rightarrow>
                      (case run_steps (sandbox_steps (lua_num_str lenv) type) (L, cfg) of
                         Inl e \<Rightarrow> Inl e
                       | Inr (True, L1, _) \<Rightarrow>
                           refuse (case lua_top L1 of LString s \<Rightarrow> Some (c_str s) | _ \<Rightarrow> None)
                       | Inr (False, _, cfg1) \<Rightarrow> Inr (fs, Some cfg1))))"

section \<open>The main configuration\<close>

definition defaults_for ::
    "string \<Rightarrow> (hs_config \<Rightarrow> hs_sandbox_config) \<Rightarrow> (hs_sandbox_config \<Rightarrow> hs_config \<Rightarrow> hs_config) \<Rightarrow>
     hs_config cstep" where
  "defaults_for key get upd s =
     (case load_sandbox_defaults key (fst s, get (snd s)) of
        Inl e \<Rightarrow> Inl e
      | Inr (failed, L, d) \<Rightarrow> Inr (failed, L, upd d (snd s)))"

definition unknown_options :: "hs_config cstep" where
  "unknown_options s =
     (case check_for_unknown_options Globals None (fst s) of
        Inl e \<Rightarrow> Inl e
      | Inr (failed, L) \<Rightarrow> Inr (failed, L, snd s))"

text \<open>
  \<open>hostname\<close> is what \<open>gethostname\<close> left in its 65-byte buffer. The results of three options are
  overwritten by the next call; only their values are checked.
\<close>

definition config_steps :: "(lua_number \<Rightarrow> string) \<Rightarrow> string \<Rightarrow> hs_config cstep list" where
  "config_steps num_str hostname =
     [ignored (uint_opt Globals ''max_message_size'' (\<lambda>x c. c\<lparr>cfg_max_message_size := x\<rparr>)),
      check (\<lambda>c. cfg_max_message_size c < 1024) ''max_message_size must be > 1023'',
      string_opt num_str Globals ''output_path'' None (\<lambda>x c. c\<lparr>cfg_output_path := Some x\<rparr>),
      uint_opt Globals ''output_size'' (\<lambda>x c. c\<lparr>cfg_output_size := x\<rparr>),
      uint_opt Globals ''backpressure'' (\<lambda>x c. c\<lparr>cfg_backpressure := x\<rparr>),
      uint_opt Globals ''backpressure_disk_free'' (\<lambda>x c. c\<lparr>cfg_backpressure_df := x\<rparr>),
      string_opt num_str Globals ''sandbox_load_path'' (Some []) (\<lambda>x c. c\<lparr>cfg_load_path := Some x\<rparr>),
      ignored (uint8_opt Globals ''analysis_utilization_limit''
        (\<lambda>x c. c\<lparr>cfg_analysis_utilization_limit := x\<rparr>)),
      check (\<lambda>c. cfg_analysis_utilization_limit c > 100) ''analysis_utilization_limit must be 0-100'',
      derive (\<lambda>c. c\<lparr>cfg_load_path_input := Some (str_of (cfg_load_path c) @ ''/'' @ hs_input_dir)\<rparr>),
      derive (\<lambda>c. c\<lparr>cfg_load_path_analysis := Some (str_of (cfg_load_path c) @ ''/'' @ hs_analysis_dir)\<rparr>),
      derive (\<lambda>c. c\<lparr>cfg_load_path_output := Some (str_of (cfg_load_path c) @ ''/'' @ hs_output_dir)\<rparr>),
      string_opt num_str Globals ''sandbox_run_path'' None (\<lambda>x c. c\<lparr>cfg_run_path := Some x\<rparr>),
      derive (\<lambda>c. c\<lparr>cfg_run_path_input := Some (str_of (cfg_run_path c) @ ''/'' @ hs_input_dir)\<rparr>),
      derive (\<lambda>c. c\<lparr>cfg_run_path_analysis := Some (str_of (cfg_run_path c) @ ''/'' @ hs_analysis_dir)\<rparr>),
      derive (\<lambda>c. c\<lparr>cfg_run_path_output := Some (str_of (cfg_run_path c) @ ''/'' @ hs_output_dir)\<rparr>),
      string_opt num_str Globals ''sandbox_install_path'' (Some ''/usr/share/luasandbox/sandboxes/heka'')
        (\<lambda>x c. c\<lparr>cfg_install_path := Some x\<rparr>),
      string_opt num_str Globals ''io_lua_path'' None (\<lambda>x c. c\<lparr>cfg_io_lua_path := Some x\<rparr>),
      string_opt num_str Globals ''io_lua_cpath'' None (\<lambda>x c. c\<lparr>cfg_io_lua_cpath := Some x\<rparr>),
      string_opt num_str Globals ''analysis_lua_path'' None (\<lambda>x c. c\<lparr>cfg_analysis_lua_path := Some x\<rparr>),
      string_opt num_str Globals ''analysis_lua_cpath'' None (\<lambda>x c. c\<lparr>cfg_analysis_lua_cpath := Some x\<rparr>),
      string_opt num_str Globals ''hostname'' (Some hostname) (\<lambda>x c. c\<lparr>cfg_hostname := Some (take 64 x)\<rparr>),
      ignored (uint8_opt Globals ''analysis_threads'' (\<lambda>x c. c\<lparr>cfg_analysis_threads := x\<rparr>)),
      check (\<lambda>c. cfg_analysis_threads c < 1 \<or> cfg_analysis_threads c > HS_MAX_ANALYSIS_THREADS)
        ''analysis_threads must be 1-64'',
      defaults_for ''input_defaults'' cfg_ipd (\<lambda>d c. c\<lparr>cfg_ipd := d\<rparr>),
      defaults_for ''analysis_defaults'' cfg_apd (\<lambda>d c. c\<lparr>cfg_apd := d\<rparr>),
      defaults_for ''output_defaults'' cfg_opd (\<lambda>d c. c\<lparr>cfg_opd := d\<rparr>),
      check (\<lambda>c. cfg_max_message_size c < sbc_output_limit (cfg_ipd c)
               \<or> cfg_max_message_size c < sbc_output_limit (cfg_apd c)
               \<or> cfg_max_message_size c < sbc_output_limit (cfg_opd c))
        ''max_message_size must be greater than or equal to the sandbox output_limit'',
      unknown_options]"

text \<open>\<open>init_config\<close> runs first; the flag is true when the function returns non-zero.\<close>

definition hs_load_config ::
    "lua_env \<Rightarrow> string \<Rightarrow> int \<Rightarrow> string \<Rightarrow> hs_exit + (bool \<times> hs_config)" where
  "hs_load_config lenv hostname pid chunk =
     (case lua_run lenv chunk of
        Inl msg \<Rightarrow> Inr (True, init_config pid)
      | Inr L \<Rightarrow>
          (case run_steps (config_steps (lua_num_str lenv) hostname) (L, init_config pid) of
             Inl e \<Rightarrow> Inl e
           | Inr (failed, _, cfg) \<Rightarrow> Inr (failed, cfg)))"

section \<open>The configuration a plugin runs with\<close>

text \<open>
  \<open>hs_output_runtime_cfg\<close>: the text handed to the sandbox and written next to the queues. The
  library's buffer refuses to grow past its limit; \<open>emit\<close> gives what it holds after the writes
  and whether the last one succeeded.
\<close>

definition cfg_bool :: "bool \<Rightarrow> string" where
  "cfg_bool b = (if b then ''true'' else ''false'')"

definition cfg_line :: "string \<Rightarrow> string \<Rightarrow> string" where
  "cfg_line k v = k @ '' = '' @ v @ [CHR 0x0A]"

definition long_string :: "string option \<Rightarrow> string" where
  "long_string s = ''[['' @ str_of s @ '']]''"

definition dec_int :: "int \<Rightarrow> string" where
  "dec_int i = (if i < 0 then CHR ''-'' # dec (nat (- i)) else dec (nat i))"

definition runtime_cfg :: "int \<Rightarrow> char \<Rightarrow> hs_config \<Rightarrow> hs_sandbox_config \<Rightarrow> string" where
  "runtime_cfg log_level type cfg sbc =
     (let u = (\<lambda>x :: u32. dec (unat x)); nl = [CHR 0x0A]; q = [CHR 0x22] in
      ''-- original configuration'' @ nl @ str_of (sbc_cfg_lua sbc) @ nl
      @ ''-- Hindsight defaults and overrides'' @ nl
      @ cfg_line ''Hostname'' (long_string (cfg_hostname cfg))
      @ cfg_line ''Pid'' (dec_int (cfg_pid cfg))
      @ cfg_line ''log_level'' (dec_int log_level)
      @ (if type = CHR ''a'' then
           cfg_line ''path'' (long_string (cfg_analysis_lua_path cfg))
           @ cfg_line ''cpath'' (long_string (cfg_analysis_lua_cpath cfg))
         else
           cfg_line ''path'' (long_string (cfg_io_lua_path cfg))
           @ cfg_line ''cpath'' (long_string (cfg_io_lua_cpath cfg))
           @ cfg_line ''output_path'' (long_string (cfg_output_path cfg))
           @ cfg_line ''output_size'' (u (cfg_output_size cfg))
           @ cfg_line ''max_message_size'' (u (cfg_max_message_size cfg))
           @ cfg_line ''sandbox_load_path'' (long_string (cfg_load_path cfg))
           @ cfg_line ''sandbox_run_path'' (long_string (cfg_run_path cfg))
           @ cfg_line ''sandbox_install_path'' (long_string (cfg_install_path cfg)))
      @ nl @ ''-- Sandbox defaults and overrides'' @ nl
      @ cfg_line ''Logger'' (long_string (sbc_cfg_name sbc))
      @ cfg_line ''output_limit'' (u (sbc_output_limit sbc))
      @ cfg_line ''memory_limit'' (u (sbc_memory_limit sbc))
      @ cfg_line ''instruction_limit'' (u (sbc_instruction_limit sbc))
      @ cfg_line ''ticker_interval'' (u (sbc_ticker_interval sbc))
      @ cfg_line ''preserve_data'' (cfg_bool (sbc_preserve_data sbc))
      @ cfg_line ''restricted_headers'' (cfg_bool (sbc_restricted_headers sbc))
      @ cfg_line ''shutdown_on_terminate'' (cfg_bool (sbc_shutdown_terminate sbc))
      @ (if type = CHR ''a'' then
           cfg_line ''thread'' (u (sbc_thread sbc))
           @ cfg_line ''process_message_inject_limit'' (u (sbc_pm_im_limit sbc))
           @ cfg_line ''timer_event_inject_limit'' (u (sbc_te_im_limit sbc)) else [])
      @ (if type = CHR ''o'' then
           cfg_line ''async_buffer_size'' (u (sbc_async_buffer_size sbc))
           @ cfg_line ''remove_checkpoints_on_terminate'' (cfg_bool (sbc_rm_cp_terminate sbc))
           @ cfg_line ''read_queue'' (q @ (if sbc_read_queue sbc = CHR ''i'' then ''input''
               else if sbc_read_queue sbc = CHR ''a'' then ''analysis'' else ''both'') @ q) else [])
      @ ''-- end Hindsight configuration'' @ nl)"

definition hs_output_runtime_cfg ::
    "(string \<Rightarrow> string \<times> bool) \<Rightarrow> int \<Rightarrow> fsys \<Rightarrow> char \<Rightarrow> hs_config \<Rightarrow> hs_sandbox_config \<Rightarrow>
     bool \<times> fsys" where
  "hs_output_runtime_cfg emit log_level fs type cfg sbc =
     (let (t, ok) = emit (runtime_cfg log_level type cfg sbc);
          fn = str_of (cfg_output_path cfg) @ ''/'' @ str_of (sbc_cfg_name sbc) @ hs_rtc_ext
      in case fopen_we fs fn of
           None \<Rightarrow> (False, fs)
         | Some fs' \<Rightarrow> (ok, fs_append fs' fn t))"

section \<open>Reasoning about sequences of options\<close>

text \<open>A step that leaves a projection of the record alone, and what a step establishes.\<close>

definition keeps :: "('c \<Rightarrow> 'a) \<Rightarrow> 'c cstep \<Rightarrow> bool" where
  "keeps f st \<longleftrightarrow> (\<forall>s b s'. st s = Inr (b, s') \<longrightarrow> f (snd s') = f (snd s))"

definition ensures :: "('c \<Rightarrow> bool) \<Rightarrow> 'c cstep \<Rightarrow> bool" where
  "ensures P st \<longleftrightarrow> (\<forall>s s'. st s = Inr (False, s') \<longrightarrow> P (snd s'))"

lemma run_steps_Cons_ok:
  "run_steps (st # sts) s = Inr (False, s') \<Longrightarrow>
   \<exists>s1. st s = Inr (False, s1) \<and> run_steps sts s1 = Inr (False, s')"
  by (auto split: sum.splits prod.splits bool.splits)

lemma run_steps_append_ok:
  "run_steps (xs @ ys) s = Inr (False, s') \<Longrightarrow>
   \<exists>s1. run_steps xs s = Inr (False, s1) \<and> run_steps ys s1 = Inr (False, s')"
proof (induction xs arbitrary: s)
  case (Cons x xs)
  then obtain s1 where "x s = Inr (False, s1)" "run_steps (xs @ ys) s1 = Inr (False, s')"
    using run_steps_Cons_ok [of x "xs @ ys" s s'] by auto
  with Cons.IH [of s1] show ?case by auto
qed simp

lemma keeps_run_steps: "list_all (keeps f) sts \<Longrightarrow> keeps f (run_steps sts)"
proof (induction sts)
  case (Cons st sts)
  then have st: "keeps f st" and sts: "keeps f (run_steps sts)" by auto
  show ?case unfolding keeps_def
  proof (intro allI impI)
    fix s b s'
    assume r: "run_steps (st # sts) s = Inr (b, s')"
    then obtain b1 s1 where s1: "st s = Inr (b1, s1)" by (auto split: sum.splits)
    with st have e: "f (snd s1) = f (snd s)" unfolding keeps_def by metis
    show "f (snd s') = f (snd s)"
    proof (cases b1)
      case True
      with r s1 e show ?thesis by auto
    next
      case False
      with r s1 have "run_steps sts s1 = Inr (b, s')" by auto
      with sts e show ?thesis unfolding keeps_def by metis
    qed
  qed
qed (simp add: keeps_def)

lemma run_steps_ensures:
  assumes "run_steps (xs @ st # ys) s = Inr (False, s')" and "ensures P st"
    and "list_all (keeps P) ys"
  shows "P (snd s')"
proof -
  obtain s1 s2 where "st s1 = Inr (False, s2)" and r: "run_steps ys s2 = Inr (False, s')"
    using run_steps_append_ok [OF assms(1)] run_steps_Cons_ok by metis
  with assms(2) have "P (snd s2)" unfolding ensures_def by blast
  with keeps_run_steps [OF assms(3)] r show ?thesis unfolding keeps_def by metis
qed

lemma run_steps_nth:
  assumes "run_steps sts s = Inr (False, s')" and "i < length sts" and "ensures P (sts ! i)"
    and "list_all (keeps P) (drop (Suc i) sts)"
  shows "P (snd s')"
  using run_steps_ensures [of "take i sts" "sts ! i" "drop (Suc i) sts" s s' P] assms
  by (simp add: id_take_nth_drop [symmetric])

lemma keeps_field: "(\<And>x c. f (upd x c) = f c) \<Longrightarrow> keeps f (field get upd)"
  by (auto simp: keeps_def field_def split: sum.splits prod.splits option.splits)

lemma keeps_ignored: "keeps f st \<Longrightarrow> keeps f (ignored st)"
  by (auto simp: keeps_def ignored_def split: sum.splits prod.splits)

lemma keeps_check: "keeps f (check bad msg)"
  by (auto simp: keeps_def check_def)

lemma keeps_derive: "(\<And>c. f (g c) = f c) \<Longrightarrow> keeps f (derive g)"
  by (auto simp: keeps_def derive_def)

lemma keeps_defaults_for:
  "(\<And>d c. f (upd d c) = f c) \<Longrightarrow> keeps f (defaults_for key get upd)"
  by (auto simp: keeps_def defaults_for_def split: sum.splits prod.splits)

lemma keeps_unknown_options: "keeps f unknown_options"
  by (auto simp: keeps_def unknown_options_def split: sum.splits prod.splits)

lemma ensures_check: "(\<And>c. \<not> bad c \<Longrightarrow> P c) \<Longrightarrow> ensures P (check bad msg)"
  by (auto simp: ensures_def check_def split: if_splits)

lemma ensures_string:
  "(\<And>x c. P (upd x c)) \<Longrightarrow> ensures P (string_opt num_str idx name None upd)"
  by (auto simp: ensures_def field_def get_string_item_def finish_item_def Let_def
      split: sum.splits prod.splits option.splits)

lemma ensures_derive: "(\<And>c. P (g c)) \<Longrightarrow> ensures P (derive g)"
  by (auto simp: ensures_def derive_def)

lemmas keeps_intros = keeps_field keeps_ignored keeps_check keeps_derive keeps_defaults_for
  keeps_unknown_options

text \<open>A failed read leaves the record as it was.\<close>

lemma get_bounded_failed: "get_bounded m w idx name L = Inr (True, v, L') \<Longrightarrow> v = None"
  by (auto simp: get_bounded_def finish_item_def split: sum.splits lua_value.splits lua_number.splits if_splits)

text \<open>An invariant of the record that every step maintains.\<close>

definition maintains :: "('c \<Rightarrow> bool) \<Rightarrow> 'c cstep \<Rightarrow> bool" where
  "maintains P st \<longleftrightarrow> (\<forall>s b s'. st s = Inr (b, s') \<longrightarrow> P (snd s) \<longrightarrow> P (snd s'))"

lemma keeps_maintains: "keeps P st \<Longrightarrow> maintains P st"
  unfolding keeps_def maintains_def by metis

lemma run_steps_maintains: "list_all (maintains P) sts \<Longrightarrow> maintains P (run_steps sts)"
proof (induction sts)
  case (Cons st sts)
  then have st: "maintains P st" and sts: "maintains P (run_steps sts)" by auto
  show ?case unfolding maintains_def
  proof (intro allI impI)
    fix s b s'
    assume r: "run_steps (st # sts) s = Inr (b, s')" and "P (snd s)"
    from r obtain b1 s1 where s1: "st s = Inr (b1, s1)" by (auto split: sum.splits)
    with st \<open>P (snd s)\<close> have e: "P (snd s1)" unfolding maintains_def by metis
    show "P (snd s')"
    proof (cases b1)
      case True
      with r s1 e show ?thesis by auto
    next
      case False
      with r s1 have "run_steps sts s1 = Inr (b, s')" by auto
      with sts e show ?thesis unfolding maintains_def by metis
    qed
  qed
qed (simp add: maintains_def)

definition queue_char :: "char \<Rightarrow> bool" where
  "queue_char c \<longleftrightarrow> c \<in> {CHR ''b'', CHR ''i'', CHR ''a''}"

lemma maintains_read_queue:
  "maintains (\<lambda>c. queue_char (sbc_read_queue c))
     (field (get_option_char g_queue_options Globals ''read_queue'') upd_read_queue)"
  by (auto simp: maintains_def field_def get_option_char_def g_queue_options_def finish_item_def
      queue_char_def split: sum.splits prod.splits option.splits lua_value.splits if_splits)

lemma sandbox_steps_read_queue:
  "list_all (maintains (\<lambda>c. queue_char (sbc_read_queue c))) (sandbox_steps num_str type)"
  by (auto simp: sandbox_steps_def intro!: maintains_read_queue keeps_maintains keeps_intros)

text \<open>The options change neither the plugin's name nor its directory.\<close>

lemma sandbox_steps_keep: "keeps (\<lambda>c. (sbc_dir c, sbc_cfg_name c)) (run_steps (sandbox_steps num_str type))"
  by (rule keeps_run_steps) (auto simp: sandbox_steps_def intro!: keeps_intros)

lemma loaded_name:
  assumes "hs_load_sandbox_config lenv fs dir fn dflt type = Inr (fs', Some c)"
  shows "hs_has_ext fn hs_cfg_ext \<and> sbc_cfg_name c = Some (create_name (type_prefix type) fn)"
proof -
  let ?cfg = "\<lambda>lua. (copy_defaults dflt (init_sandbox_config\<lparr>sbc_cfg_lua := Some lua\<rparr>))
      \<lparr>sbc_cfg_name := Some (create_name (type_prefix type) fn), sbc_dir := Some dir\<rparr>"
  obtain lua L L' where r: "run_steps (sandbox_steps (lua_num_str lenv) type) (L, ?cfg lua) = Inr (False, L', c)"
    and e: "hs_has_ext fn hs_cfg_ext"
    using assms
    by (auto simp: hs_load_sandbox_config_def Let_def split: if_splits option.splits sum.splits prod.splits bool.splits)
  from sandbox_steps_keep [of "lua_num_str lenv" type] r
  have "sbc_cfg_name c = Some (create_name (type_prefix type) fn)" unfolding keeps_def by fastforce
  with e show ?thesis by blast
qed

section \<open>Properties\<close>

text \<open>C38: a main configuration that loads is usable: the message size is at least 1024 and no
  smaller than any plugin's output limit, the utilization limit is a percentage, there are 1 to
  64 analysis threads, and the load and run directories of the three plugin types are below the
  configured ones.\<close>

theorem loaded_config_valid:
  assumes "hs_load_config lenv hostname pid chunk = Inr (False, cfg)"
  shows "1024 \<le> cfg_max_message_size cfg \<and>
    sbc_output_limit (cfg_ipd cfg) \<le> cfg_max_message_size cfg \<and>
    sbc_output_limit (cfg_apd cfg) \<le> cfg_max_message_size cfg \<and>
    sbc_output_limit (cfg_opd cfg) \<le> cfg_max_message_size cfg \<and>
    cfg_analysis_utilization_limit cfg \<le> 100 \<and>
    cfg_analysis_threads cfg \<noteq> 0 \<and> cfg_analysis_threads cfg \<le> 64 \<and>
    cfg_output_path cfg \<noteq> None \<and> cfg_run_path cfg \<noteq> None \<and>
    cfg_load_path_input cfg = Some (str_of (cfg_load_path cfg) @ ''/input'') \<and>
    cfg_load_path_analysis cfg = Some (str_of (cfg_load_path cfg) @ ''/analysis'') \<and>
    cfg_load_path_output cfg = Some (str_of (cfg_load_path cfg) @ ''/output'') \<and>
    cfg_run_path_input cfg = Some (str_of (cfg_run_path cfg) @ ''/input'') \<and>
    cfg_run_path_analysis cfg = Some (str_of (cfg_run_path cfg) @ ''/analysis'') \<and>
    cfg_run_path_output cfg = Some (str_of (cfg_run_path cfg) @ ''/output'')"
proof -
  obtain L L' where r: "run_steps (config_steps (lua_num_str lenv) hostname) (L, init_config pid) = Inr (False, L', cfg)"
    using assms by (auto simp: hs_load_config_def split: sum.splits prod.splits)
  let ?st = "config_steps (lua_num_str lenv) hostname"
  have max: "\<not> cfg_max_message_size (snd (L', cfg)) < 1024"
    by (rule run_steps_nth [OF r, of 1])
      (auto simp: config_steps_def intro!: ensures_check keeps_intros)
  have util: "\<not> cfg_analysis_utilization_limit (snd (L', cfg)) > 100"
    by (rule run_steps_nth [OF r, of 8])
      (auto simp: config_steps_def intro!: ensures_check keeps_intros)
  have threads: "\<not> (cfg_analysis_threads (snd (L', cfg)) < 1 \<or>
      cfg_analysis_threads (snd (L', cfg)) > HS_MAX_ANALYSIS_THREADS)"
    by (rule run_steps_nth [OF r, of 23])
      (auto simp: config_steps_def intro!: ensures_check keeps_intros)
  have limits: "\<not> (cfg_max_message_size (snd (L', cfg)) < sbc_output_limit (cfg_ipd (snd (L', cfg)))
      \<or> cfg_max_message_size (snd (L', cfg)) < sbc_output_limit (cfg_apd (snd (L', cfg)))
      \<or> cfg_max_message_size (snd (L', cfg)) < sbc_output_limit (cfg_opd (snd (L', cfg))))"
    by (rule run_steps_nth [OF r, of 27])
      (auto simp: config_steps_def intro!: ensures_check keeps_intros)
  have out: "cfg_output_path (snd (L', cfg)) \<noteq> None"
    by (rule run_steps_nth [OF r, of 2])
      (auto simp: config_steps_def intro!: ensures_string keeps_intros)
  have run: "cfg_run_path (snd (L', cfg)) \<noteq> None"
    by (rule run_steps_nth [OF r, of 12])
      (auto simp: config_steps_def intro!: ensures_string keeps_intros)
  have d9: "cfg_load_path_input (snd (L', cfg)) = Some (str_of (cfg_load_path (snd (L', cfg))) @ ''/input'')"
    by (rule run_steps_nth [OF r, of 9])
      (auto simp: config_steps_def intro!: ensures_derive keeps_intros)
  have d10: "cfg_load_path_analysis (snd (L', cfg)) = Some (str_of (cfg_load_path (snd (L', cfg))) @ ''/analysis'')"
    by (rule run_steps_nth [OF r, of 10])
      (auto simp: config_steps_def intro!: ensures_derive keeps_intros)
  have d11: "cfg_load_path_output (snd (L', cfg)) = Some (str_of (cfg_load_path (snd (L', cfg))) @ ''/output'')"
    by (rule run_steps_nth [OF r, of 11])
      (auto simp: config_steps_def intro!: ensures_derive keeps_intros)
  have d13: "cfg_run_path_input (snd (L', cfg)) = Some (str_of (cfg_run_path (snd (L', cfg))) @ ''/input'')"
    by (rule run_steps_nth [OF r, of 13])
      (auto simp: config_steps_def intro!: ensures_derive keeps_intros)
  have d14: "cfg_run_path_analysis (snd (L', cfg)) = Some (str_of (cfg_run_path (snd (L', cfg))) @ ''/analysis'')"
    by (rule run_steps_nth [OF r, of 14])
      (auto simp: config_steps_def intro!: ensures_derive keeps_intros)
  have d15: "cfg_run_path_output (snd (L', cfg)) = Some (str_of (cfg_run_path (snd (L', cfg))) @ ''/output'')"
    by (rule run_steps_nth [OF r, of 15])
      (auto simp: config_steps_def intro!: ensures_derive keeps_intros)
  show ?thesis
    using max util threads limits out run d9 d10 d11 d13 d14 d15 by (simp add: not_less)
qed

theorem loaded_config_valid_witness:
  "let T = [(LString ''output_limit'', LNumber (Fin 2048))];
       L = \<lparr>ls_stack = [], ls_globals =
              [(LString ''output_path'', LString ''o''), (LString ''sandbox_run_path'', LString ''r''),
               (LString ''io_lua_path'', LString ''p''), (LString ''io_lua_cpath'', LString ''c''),
               (LString ''analysis_lua_path'', LString ''p''), (LString ''analysis_lua_cpath'', LString ''c''),
               (LString ''input_defaults'', LTable 1), (LString ''analysis_defaults'', LTable 2),
               (LString ''output_defaults'', LTable 3), (LString ''analysis_threads'', LNumber (Fin 4))],
            ls_tables = [(1, T), (2, []), (3, [])]\<rparr>;
       lenv = \<lparr>lua_read_file = fs_get, lua_run = \<lambda>_. Inr L, lua_num_str = \<lambda>_. [], lua_stamp = []\<rparr>
   in \<exists>cfg. hs_load_config lenv ''host'' 7 [] = Inr (False, cfg) \<and>
        cfg_analysis_threads cfg = 4 \<and> cfg_run_path_input cfg = Some ''r/input''"
proof -
  let ?L = "\<lparr>ls_stack = [], ls_globals =
              [(LString ''output_path'', LString ''o''), (LString ''sandbox_run_path'', LString ''r''),
               (LString ''io_lua_path'', LString ''p''), (LString ''io_lua_cpath'', LString ''c''),
               (LString ''analysis_lua_path'', LString ''p''), (LString ''analysis_lua_cpath'', LString ''c''),
               (LString ''input_defaults'', LTable 1), (LString ''analysis_defaults'', LTable 2),
               (LString ''output_defaults'', LTable 3), (LString ''analysis_threads'', LNumber (Fin 4))],
            ls_tables = [(1, [(LString ''output_limit'', LNumber (Fin 2048))]), (2, []), (3, [])]\<rparr> :: lua_state"
  let ?lenv = "\<lparr>lua_read_file = fs_get, lua_run = \<lambda>_. Inr ?L, lua_num_str = \<lambda>_. [], lua_stamp = []\<rparr> :: lua_env"
  let ?cfg = "(init_config 7)\<lparr>cfg_output_path := Some ''o'', cfg_load_path := Some [],
      cfg_load_path_input := Some ''/input'', cfg_load_path_analysis := Some ''/analysis'',
      cfg_load_path_output := Some ''/output'', cfg_run_path := Some ''r'',
      cfg_run_path_input := Some ''r/input'', cfg_run_path_analysis := Some ''r/analysis'',
      cfg_run_path_output := Some ''r/output'',
      cfg_install_path := Some ''/usr/share/luasandbox/sandboxes/heka'',
      cfg_io_lua_path := Some ''p'', cfg_io_lua_cpath := Some ''c'',
      cfg_analysis_lua_path := Some ''p'', cfg_analysis_lua_cpath := Some ''c'',
      cfg_hostname := Some ''host'', cfg_analysis_threads := 4,
      cfg_ipd := (cfg_ipd (init_config 7))\<lparr>sbc_output_limit := 2048\<rparr>\<rparr>"
  have run: "hs_load_config ?lenv ''host'' 7 [] = Inr (False, ?cfg)" by code_simp
  note q = loaded_config_valid [OF run]
  have "cfg_run_path_input ?cfg = Some ''r/input''" using q by simp
  with run show ?thesis unfolding Let_def by auto
qed



text \<open>An analysis configuration whose \<open>thread\<close> or \<open>process_message_inject_limit\<close> has the wrong
  type is accepted: the errors of these two options are overwritten before they are tested, and
  the plugin runs with the defaults.\<close>

theorem bad_thread_option_accepted:
  assumes "lua_read_file lenv fs (dir @ ''/'' @ stem @ ''.cfg'') = Some lua"
    and "lua_run lenv lua = Inr \<lparr>ls_stack = [], ls_globals =
      [(LString ''filename'', LString ''x.lua''), (LString ''message_matcher'', LString ''TRUE''),
       (LString ''thread'', LString x), (LString ''process_message_inject_limit'', LBool b)], ls_tables = []\<rparr>"
    and "stem \<noteq> []" and "length dir + length stem < 255"
  shows "\<exists>c. hs_load_sandbox_config lenv fs dir (stem @ ''.cfg'') dflt CHR ''a'' = Inr (fs, Some c) \<and>
    sbc_thread c = UINT_MAX \<and> sbc_pm_im_limit c = sbc_pm_im_limit dflt"
proof -
  have "hs_has_ext (stem @ ''.cfg'') ''.cfg''" using assms(3) by (auto simp: hs_has_ext_iff)
  then show ?thesis
    using assms
    by (simp add: hs_load_sandbox_config_def hs_get_fqfn_def Let_def sandbox_steps_def field_def
        get_unsigned_int_def get_bounded_def get_string_item_def get_bool_item_def finish_item_def
        remove_item_def lua_getfield_def lua_delfield_def lua_table_at_def lua_top_def lua_push_def
        lua_pop1_def lua_error_def check_def ignored_def hs_has_ext_def copy_defaults_def
        init_sandbox_config_def c_str_def)
qed

theorem bad_thread_option_accepted_witness:
  "\<exists>c. hs_load_sandbox_config
     \<lparr>lua_read_file = fs_get, lua_run = \<lambda>_. Inr \<lparr>ls_stack = [], ls_globals =
        [(LString ''filename'', LString ''x.lua''), (LString ''message_matcher'', LString ''TRUE''),
         (LString ''thread'', LString ''two''), (LString ''process_message_inject_limit'', LBool True)], ls_tables = []\<rparr>,
      lua_num_str = \<lambda>_. [], lua_stamp = []\<rparr>
     \<lparr>fs_files = [(''r/analysis/a.cfg'', ''cfg'')], fs_dirs = [], fs_denied = []\<rparr>
     ''r/analysis'' (''a'' @ ''.cfg'') init_sandbox_config CHR ''a'' =
     Inr (\<lparr>fs_files = [(''r/analysis/a.cfg'', ''cfg'')], fs_dirs = [], fs_denied = []\<rparr>, Some c) \<and>
     sbc_thread c = UINT_MAX \<and> sbc_pm_im_limit c = sbc_pm_im_limit init_sandbox_config"
  by (rule bad_thread_option_accepted [where lua = "''cfg''" and x = "''two''" and b = True])
    (simp_all add: fs_get_def)

end
