(* ===== verification/HS_Checkpoint_Reader.thy ===== *)
theory HS_Checkpoint_Reader
  imports HS_Lua
begin

text \<open>
  \<open>src/hs_checkpoint_reader.c\<close> and its header: queue positions, the checkpoint of an input
  plugin, the table of persisted checkpoints with its lookups, updates, cleanup and the text of
  \<open>hindsight.cp\<close>, and the searches of a queue directory for file ids.

  The table is the global table of a Lua state: an association list in traversal order, with
  distinct keys. \<open>lua_pushfstring\<close>'s \<open>%f\<close> conversion and \<open>printf\<close>'s \<open>%.17g\<close> are parameters
  (\<open>fmt_f\<close> on the double of an unsigned number, \<open>fmt_17g\<close>). Mutexes make each function here
  one atomic step; allocation can fail where a result depends on it.
\<close>

section \<open>Queue positions\<close>

record hs_checkpoint =
  cp_id :: u64
  cp_offset :: u64

record hs_checkpoint_pair =
  cpp_input :: hs_checkpoint
  cpp_analysis :: hs_checkpoint

text \<open>Positions are ordered by file, then by offset: the comparison the callbacks write out.\<close>

instantiation hs_checkpoint_ext :: (linorder) linorder
begin

definition less_eq_hs_checkpoint_ext ::
    "'a hs_checkpoint_ext \<Rightarrow> 'a hs_checkpoint_ext \<Rightarrow> bool" where
  "less_eq_hs_checkpoint_ext a b \<longleftrightarrow>
     cp_id a < cp_id b \<or> cp_id a = cp_id b \<and>
       (cp_offset a < cp_offset b \<or>
        cp_offset a = cp_offset b \<and> hs_checkpoint.more a \<le> hs_checkpoint.more b)"

definition less_hs_checkpoint_ext ::
    "'a hs_checkpoint_ext \<Rightarrow> 'a hs_checkpoint_ext \<Rightarrow> bool" where
  "less_hs_checkpoint_ext a b \<longleftrightarrow> a \<le> b \<and> \<not> b \<le> a"

instance
  by intro_classes (auto simp: less_eq_hs_checkpoint_ext_def less_hs_checkpoint_ext_def
      intro!: hs_checkpoint.equality)

end

lemma cp_le_iff:
  "(a :: hs_checkpoint) \<le> b \<longleftrightarrow>
   cp_id a < cp_id b \<or> cp_id a = cp_id b \<and> cp_offset a \<le> cp_offset b"
  by (auto simp: less_eq_hs_checkpoint_ext_def)

lemma cp_less_iff:
  "(a :: hs_checkpoint) < b \<longleftrightarrow>
   cp_id a < cp_id b \<or> cp_id a = cp_id b \<and> cp_offset a < cp_offset b"
  by (auto simp: less_hs_checkpoint_ext_def less_eq_hs_checkpoint_ext_def)

section \<open>File ids of a queue directory\<close>

definition extract_id :: "string \<Rightarrow> u64 option" where
  "extract_id fn =
     (let i = length (takeWhile isdigit fn) in
      if i > 0 \<and> i + 4 = length fn \<and> drop i fn = ''.log'' then Some (strtoull fn) else None)"

fun first_id_loop :: "string list \<Rightarrow> u64 \<Rightarrow> u64" where
  "first_id_loop [] file_id = file_id"
| "first_id_loop (e # es) file_id =
     (case extract_id e of
        None \<Rightarrow> first_id_loop es file_id
      | Some c \<Rightarrow> first_id_loop es (if c < file_id then c else file_id))"

definition find_first_id :: "fsys \<Rightarrow> string \<Rightarrow> hs_exit + u64" where
  "find_first_id fs path =
     (case readdir fs path of
        None \<Rightarrow> Inl No_such_directory
      | Some es \<Rightarrow>
          let file_id = first_id_loop es ULLONG_MAX
          in Inr (if file_id = ULLONG_MAX then 0 else file_id))"

fun next_id_loop :: "u64 \<Rightarrow> string list \<Rightarrow> u64 \<Rightarrow> u64" where
  "next_id_loop start_id [] file_id = file_id"
| "next_id_loop start_id (e # es) file_id =
     (case extract_id e of
        None \<Rightarrow> next_id_loop start_id es file_id
      | Some c \<Rightarrow>
          next_id_loop start_id es (if c > start_id \<and> c < file_id then c else file_id))"

definition hs_find_next_id :: "fsys \<Rightarrow> string \<Rightarrow> string \<Rightarrow> u64 \<Rightarrow> hs_exit + u64" where
  "hs_find_next_id fs path subdir start_id =
     (case hs_get_fqfn path subdir HS_MAX_PATH of
        None \<Rightarrow> Inl Path_too_long
      | Some fqfn \<Rightarrow>
          (case readdir fs fqfn of
             None \<Rightarrow> Inl No_such_directory
           | Some es \<Rightarrow>
               let file_id = next_id_loop start_id es ULLONG_MAX
               in Inr (if file_id = ULLONG_MAX then 0 else file_id)))"

text \<open>The ids a directory listing holds.\<close>

definition ids_of :: "string list \<Rightarrow> u64 set" where
  "ids_of es = {i. \<exists>e \<in> set es. extract_id e = Some i}"

lemma ids_of_Cons: "ids_of (e # es) = set_option (extract_id e) \<union> ids_of es"
  by (auto simp: ids_of_def)

lemma ids_of_Nil [simp]: "ids_of [] = {}"
  by (simp add: ids_of_def)

lemma finite_ids_of [simp]: "finite (ids_of es)"
  by (induction es) (auto simp: ids_of_Cons)

lemma extract_id_file:
  assumes "n < 2 ^ 64"
  shows "extract_id (dec n @ ''.log'') = Some (word_of_nat n)"
proof -
  have tw: "takeWhile isdigit (dec n @ ''.log'') = dec n"
    by (subst takeWhile_append2) (auto simp: dec_digits, simp add: isdigit_def)
  have "strtoull (dec n @ ''.log'') = word_of_nat n"
    by (rule strtoull_dec [OF assms]) (simp add: isdigit_def)
  then show ?thesis by (simp add: extract_id_def tw)
qed

lemma Min_insert_least:
  "finite S \<Longrightarrow> Min (insert (if c < m then c else m) S) = Min (insert m (insert (c :: u64) S))"
  by (cases "S = {}") (auto simp: min_def)

lemma next_id_loop_Min:
  "next_id_loop s es m = Min (insert m {i \<in> ids_of es. s < i})"
proof (induction es arbitrary: m)
  case (Cons e es)
  show ?case
  proof (cases "extract_id e")
    case None
    with Cons show ?thesis by (simp add: ids_of_Cons)
  next
    case (Some c)
    then have "{i \<in> ids_of (e # es). s < i} =
        (if s < c then insert c {i \<in> ids_of es. s < i} else {i \<in> ids_of es. s < i})"
      by (auto simp: ids_of_Cons)
    with Some Cons Min_insert_least [of "{i \<in> ids_of es. s < i}" c m] show ?thesis
      by (simp split: if_splits)
  qed
qed simp

lemma first_id_loop_Min: "first_id_loop es m = Min (insert m (ids_of es))"
proof (induction es arbitrary: m)
  case (Cons e es)
  show ?case
  proof (cases "extract_id e")
    case None
    with Cons show ?thesis by (simp add: ids_of_Cons)
  next
    case (Some c)
    with Cons Min_insert_least [of "ids_of es" c m] show ?thesis
      by (simp add: ids_of_Cons split: if_splits)
  qed
qed simp

lemma Min_insert_max: "finite S \<Longrightarrow> S \<noteq> {} \<Longrightarrow> Min (insert ULLONG_MAX S) = Min (S :: u64 set)"
  by (simp add: min_absorb2)

lemma hs_find_next_id_least:
  assumes "hs_find_next_id fs path subdir s = Inr r"
    and "readdir fs (path @ ''/'' @ subdir) = Some es"
    and "i \<in> ids_of es" and "s < i" and "i \<noteq> ULLONG_MAX"
  shows "r \<in> ids_of es \<and> s < r \<and> r \<le> i"
proof -
  let ?S = "{j \<in> ids_of es. s < j}"
  have fin: "finite ?S" and ne: "?S \<noteq> {}" using assms(3,4) by auto
  have le: "Min ?S \<le> i" using assms(3,4) by (intro Min_le) auto
  with assms(5) have "Min ?S \<noteq> ULLONG_MAX"
    using u64_le_max order_antisym by metis
  moreover have "Min (insert ULLONG_MAX ?S) = Min ?S"
    using fin ne by (rule Min_insert_max)
  ultimately have "r = Min ?S"
    using assms(1,2)
    by (auto simp: hs_find_next_id_def hs_defs next_id_loop_Min Let_def
        split: option.splits if_splits)
  with Min_in [OF fin ne] le show ?thesis by auto
qed

section \<open>The checkpoint of an input plugin\<close>

definition HS_MAX_IP_CHECKPOINT :: nat where [simp]: "HS_MAX_IP_CHECKPOINT = 8192"

datatype hs_ip_checkpoint_type = HS_CP_NONE | HS_CP_NUMERIC | HS_CP_STRING

text \<open>
  The union of a double and a \<open>char *\<close>. An allocated buffer is a list of its bytes, so its
  length is the allocation's size; a null pointer is \<open>None\<close>. Reading the pointer while the
  double is stored happens only for the zeroed union of a new checkpoint, which reads null.
\<close>

datatype ip_checkpoint_value = Ip_d lua_number | Ip_s "string option"

record hs_ip_checkpoint =
  ipc_type :: hs_ip_checkpoint_type
  ipc_len :: u32
  ipc_cap :: u32
  ipc_value :: ip_checkpoint_value

fun value_s :: "ip_checkpoint_value \<Rightarrow> string option" where
  "value_s (Ip_s s) = s"
| "value_s (Ip_d d) = None"

definition memcpy :: "string \<Rightarrow> string \<Rightarrow> nat \<Rightarrow> string" where
  "memcpy dst src n = take n src @ drop n dst"

text \<open>
  \<open>hs_load_checkpoint\<close> of the Lua value at the index; the flag is true when it returns 1.
  \<open>malloc_ok\<close> says whether the allocation succeeds.
\<close>

definition hs_load_checkpoint ::
    "bool \<Rightarrow> lua_value \<Rightarrow> hs_ip_checkpoint \<Rightarrow> bool \<times> hs_ip_checkpoint" where
  "hs_load_checkpoint malloc_ok v cp =
     (case v of
        LString tmp \<Rightarrow>
          let cp1 = (if ipc_type cp = HS_CP_NUMERIC then cp\<lparr>ipc_value := Ip_s None\<rparr> else cp)
                      \<lparr>ipc_type := HS_CP_STRING, ipc_len := word_of_nat (length tmp)\<rparr>;
              len = length tmp + 1
          in if len \<le> HS_MAX_IP_CHECKPOINT then
               if len > unat (ipc_cap cp1) then
                 if malloc_ok then
                   (False, cp1\<lparr>ipc_value := Ip_s (Some (tmp @ [CHR 0x00])),
                               ipc_cap := word_of_nat len\<rparr>)
                 else (True, cp1\<lparr>ipc_value := Ip_s None, ipc_len := 0, ipc_cap := 0\<rparr>)
               else
                 (False, cp1\<lparr>ipc_value :=
                    Ip_s (map_option (\<lambda>b. memcpy b (tmp @ [CHR 0x00]) len)
                            (value_s (ipc_value cp1)))\<rparr>)
             else (True, cp1)
      | LNumber d \<Rightarrow>
          let cp1 = (if ipc_type cp = HS_CP_STRING
                     then cp\<lparr>ipc_value := Ip_s None, ipc_len := 0, ipc_cap := 0\<rparr> else cp)
          in (False, cp1\<lparr>ipc_type := HS_CP_NUMERIC, ipc_value := Ip_d d\<rparr>)
      | LNil \<Rightarrow> (False, cp)
      | _ \<Rightarrow> (True, cp))"

section \<open>The table of persisted checkpoints\<close>

record hs_checkpoint_reader =
  cpr_values :: "(string \<times> lua_value) list"

definition cpr_get :: "hs_checkpoint_reader \<Rightarrow> string \<Rightarrow> lua_value option" where
  "cpr_get cpr k = map_of (cpr_values cpr) k"

text \<open>\<open>lua_settable\<close> of a value other than nil, and of nil, which removes the key.\<close>

definition cpr_put :: "hs_checkpoint_reader \<Rightarrow> string \<Rightarrow> lua_value \<Rightarrow> hs_checkpoint_reader" where
  "cpr_put cpr k v = cpr\<lparr>cpr_values := AList.update k v (cpr_values cpr)\<rparr>"

definition remove_checkpoint :: "hs_checkpoint_reader \<Rightarrow> string \<Rightarrow> hs_checkpoint_reader" where
  "remove_checkpoint cpr key = cpr\<lparr>cpr_values := AList.delete key (cpr_values cpr)\<rparr>"

definition hs_remove_checkpoint :: "hs_checkpoint_reader \<Rightarrow> string \<Rightarrow> hs_checkpoint_reader" where
  "hs_remove_checkpoint cpr key = remove_checkpoint cpr key"

definition cpr_ok :: "hs_checkpoint_reader \<Rightarrow> bool" where
  "cpr_ok cpr \<longleftrightarrow> distinct (map fst (cpr_values cpr))"

interpretation cprtab: kv_store cpr_get cpr_put remove_checkpoint cpr_ok
  by unfold_locales
    (auto simp: cpr_get_def cpr_put_def remove_checkpoint_def cpr_ok_def fun_eq_iff)

lemma cpr_get_put [simp]: "cpr_get (cpr_put cpr k v) = (cpr_get cpr)(k \<mapsto> v)"
  by (simp add: cpr_get_def cpr_put_def fun_eq_iff)

lemma cpr_get_remove [simp]: "cpr_get (remove_checkpoint cpr k) = (cpr_get cpr)(k := None)"
  by (simp add: cpr_get_def remove_checkpoint_def fun_eq_iff)

text \<open>
  \<open>hs_init_checkpoint_reader\<close>: a new state whose global table holds itself as \<open>_G\<close>, then the
  checkpoint file. \<open>lua_run\<close> gives the assignments to global keys a chunk performs, in order,
  or \<open>None\<close> when loading or running it fails.
\<close>

definition hs_init_checkpoint_reader ::
    "(string \<Rightarrow> (string \<times> lua_value) list option) \<Rightarrow> fsys \<Rightarrow> string \<Rightarrow>
     hs_exit + hs_checkpoint_reader" where
  "hs_init_checkpoint_reader lua_run fs path =
     (case hs_get_fqfn path ''hindsight.cp'' HS_MAX_PATH of
        None \<Rightarrow> Inl Path_too_long
      | Some fqfn \<Rightarrow>
          let cpr = \<lparr>cpr_values = [(''_G'', LTable 0)]\<rparr> in
          if hs_file_exists fs fqfn then
            (case lua_run (the (fs_get fs fqfn)) of
               None \<Rightarrow> Inl Load_failed
             | Some kvs \<Rightarrow> Inr (fold (\<lambda>(k, v) c. cpr_put c k v) kvs cpr))
          else Inr cpr)"

definition hs_lookup_checkpoint ::
    "bool \<Rightarrow> hs_checkpoint_reader \<Rightarrow> string \<Rightarrow> hs_ip_checkpoint \<Rightarrow> hs_ip_checkpoint" where
  "hs_lookup_checkpoint malloc_ok cpr key cp =
     snd (hs_load_checkpoint malloc_ok
            (case cpr_get cpr key of None \<Rightarrow> LNil | Some v \<Rightarrow> v) cp)"

text \<open>
  \<open>hs_update_checkpoint\<close>. \<open>lua_pushlstring(s, len)\<close> reads \<open>len\<close> bytes from \<open>s\<close>: fewer bytes
  behind the pointer, or a null pointer with a length, is a read outside the allocation.
\<close>

definition hs_update_checkpoint ::
    "hs_checkpoint_reader \<Rightarrow> string \<Rightarrow> hs_ip_checkpoint \<Rightarrow> hs_exit + hs_checkpoint_reader" where
  "hs_update_checkpoint cpr key cp =
     (case ipc_type cp of
        HS_CP_STRING \<Rightarrow>
          (let buf = (case value_s (ipc_value cp) of None \<Rightarrow> [] | Some b \<Rightarrow> b);
               len = unat (ipc_len cp)
           in if len \<le> length buf then Inr (cpr_put cpr key (LString (take len buf)))
              else Inl Undefined_behaviour)
      | HS_CP_NUMERIC \<Rightarrow>
          (case ipc_value cp of
             Ip_d d \<Rightarrow> Inr (cpr_put cpr key (LNumber d))
           | Ip_s _ \<Rightarrow> Inl Undefined_behaviour)
      | HS_CP_NONE \<Rightarrow> Inr (remove_checkpoint cpr key))"

text \<open>The key of a queue reader's checkpoint: the queue alone, or the queue and the reader.\<close>

definition input_cp_key :: "string \<Rightarrow> string option \<Rightarrow> string" where
  "input_cp_key subdir key =
     (case key of None \<Rightarrow> subdir | Some k \<Rightarrow> subdir @ ''->'' @ k)"

definition parse_input_checkpoint :: "lua_value option \<Rightarrow> hs_checkpoint option" where
  "parse_input_checkpoint v =
     (case v of
        Some (LString tmp) \<Rightarrow>
          (let t = c_str tmp in
           case strchr t (CHR '':'') of
             None \<Rightarrow> None
           | Some pos \<Rightarrow> Some \<lparr>cp_id = strtoull t, cp_offset = strtoull (tl pos)\<rparr>)
      | _ \<Rightarrow> None)"

text \<open>
  \<open>hs_lookup_input_checkpoint\<close>. With a path and no entry only the id is set, the offset keeps
  the caller's value; without a path the lookup falls back to the queue's own entry.
\<close>

definition hs_lookup_input_checkpoint ::
    "fsys \<Rightarrow> hs_checkpoint_reader \<Rightarrow> string \<Rightarrow> string option \<Rightarrow> string option \<Rightarrow>
     hs_checkpoint \<Rightarrow> hs_exit + hs_checkpoint" where
  "hs_lookup_input_checkpoint fs cpr subdir key path cp =
     (case parse_input_checkpoint (cpr_get cpr (input_cp_key subdir key)) of
        Some cp' \<Rightarrow> Inr cp'
      | None \<Rightarrow>
          (case path of
             Some p \<Rightarrow>
               (case hs_get_fqfn p subdir HS_MAX_PATH of
                  None \<Rightarrow> Inl Path_too_long
                | Some fqfn \<Rightarrow>
                    (case find_first_id fs fqfn of
                       Inl e \<Rightarrow> Inl e
                     | Inr i \<Rightarrow> Inr (cp\<lparr>cp_id := i\<rparr>)))
           | None \<Rightarrow>
               (case key of
                  None \<Rightarrow> Inr cp
                | Some _ \<Rightarrow>
                    (case parse_input_checkpoint (cpr_get cpr (input_cp_key subdir None)) of
                       Some cp' \<Rightarrow> Inr cp'
                     | None \<Rightarrow> Inr cp))))"

definition hs_update_input_checkpoint ::
    "(nat \<Rightarrow> string) \<Rightarrow> hs_checkpoint_reader \<Rightarrow> string \<Rightarrow> string option \<Rightarrow> hs_checkpoint \<Rightarrow>
     hs_checkpoint_reader" where
  "hs_update_input_checkpoint fmt_f cpr subdir key cp =
     cpr_put cpr (input_cp_key subdir key)
       (LString (fmt_f (unat (cp_id cp)) @ '':'' @ fmt_f (unat (cp_offset cp))))"

text \<open>
  What the code relies on of \<open>%f\<close> in \<open>lua_pushfstring\<close>: Lua prints a number with up to 14
  significant digits, so a whole number below \<open>10 ^ 14\<close> is its decimal digits.
\<close>

definition prints_whole_numbers :: "(nat \<Rightarrow> string) \<Rightarrow> bool" where
  "prints_whole_numbers fmt_f \<longleftrightarrow> (\<forall>n < 10 ^ 14. fmt_f n = dec n)"

lemma prints_whole_numbers_dec: "prints_whole_numbers dec"
  by (simp add: prints_whole_numbers_def)

definition printable_cp :: "hs_checkpoint \<Rightarrow> bool" where
  "printable_cp cp \<longleftrightarrow> unat (cp_id cp) < 10 ^ 14 \<and> unat (cp_offset cp) < 10 ^ 14"

lemma no_nul_dec: "no_nul (dec n)"
  by (auto simp: no_nul_def isdigit_def dest: dec_digits)

lemma no_nul_Cons [simp]: "no_nul (c # xs) \<longleftrightarrow> c \<noteq> CHR 0x00 \<and> no_nul xs"
  by (auto simp: no_nul_def)

lemma no_nul_Nil [simp]: "no_nul []"
  by (simp add: no_nul_def)

lemma no_nul_append [simp]: "no_nul (xs @ ys) \<longleftrightarrow> no_nul xs \<and> no_nul ys"
  by (auto simp: no_nul_def)

lemma parse_printed:
  assumes "prints_whole_numbers fmt_f" and "printable_cp cp"
  shows "parse_input_checkpoint
           (Some (LString (fmt_f (unat (cp_id cp)) @ '':'' @ fmt_f (unat (cp_offset cp))))) =
         Some cp"
proof -
  have f: "fmt_f (unat (cp_id cp)) = dec (unat (cp_id cp))"
    "fmt_f (unat (cp_offset cp)) = dec (unat (cp_offset cp))"
    using assms by (auto simp: prints_whole_numbers_def printable_cp_def)
  have "no_nul (dec (unat (cp_id cp)) @ '':'' @ dec (unat (cp_offset cp)))"
    by (simp add: no_nul_dec)
  moreover have "CHR '':'' \<notin> set (dec (unat (cp_id cp)))"
    by (rule dec_no_colon) (simp add: isdigit_def)
  moreover have "strtoull (dec (unat (cp_id cp)) @ CHR '':'' # dec (unat (cp_offset cp))) = cp_id cp"
    using unat_u64_less [of "cp_id cp"] by (subst strtoull_dec) (auto simp: isdigit_def)
  moreover have "strtoull (dec (unat (cp_offset cp))) = cp_offset cp"
    using strtoull_dec [OF unat_u64_less, of "[]" "cp_offset cp"] by simp
  ultimately show ?thesis
    by (simp add: parse_input_checkpoint_def f strchr_skip)
qed

section \<open>A store of queue positions\<close>

text \<open>
  The contract the checkpoint writer and the readers share: a saved position is what a later
  load of the same key returns, and no other key's position changes.
\<close>

locale position_store =
  fixes save :: "'s \<Rightarrow> 'k \<Rightarrow> 'p \<Rightarrow> 's"
    and load :: "'s \<Rightarrow> 'k \<Rightarrow> 'p option"
    and storable :: "'p \<Rightarrow> bool"
  assumes load_save: "storable p \<Longrightarrow> load (save s k p) k = Some p"
    and load_frame: "k \<noteq> l \<Longrightarrow> load (save s k p) l = load s l"
begin

fun save_all :: "'s \<Rightarrow> ('k \<times> 'p) list \<Rightarrow> 's" where
  "save_all s [] = s"
| "save_all s ((k, p) # kps) = save_all (save s k p) kps"

lemma save_all_frame: "k \<notin> fst ` set kps \<Longrightarrow> load (save_all s kps) k = load s k"
  by (induction s kps rule: save_all.induct) (auto simp: load_frame)

lemma save_all_append: "save_all s (xs @ ys) = save_all (save_all s xs) ys"
  by (induction s xs rule: save_all.induct) auto

lemma save_all_load:
  "distinct (map fst kps) \<Longrightarrow> (k, p) \<in> set kps \<Longrightarrow> storable p \<Longrightarrow>
   load (save_all s kps) k = Some p"
proof (induction s kps rule: save_all.induct)
  case (2 s k' p' kps)
  then show ?case
    by (cases "(k, p) = (k', p')") (auto simp: load_save save_all_frame)
qed simp

end

definition save_position ::
    "(nat \<Rightarrow> string) \<Rightarrow> hs_checkpoint_reader \<Rightarrow> string \<Rightarrow> hs_checkpoint \<Rightarrow> hs_checkpoint_reader" where
  "save_position fmt_f cpr k cp =
     cpr_put cpr k (LString (fmt_f (unat (cp_id cp)) @ '':'' @ fmt_f (unat (cp_offset cp))))"

definition load_position :: "hs_checkpoint_reader \<Rightarrow> string \<Rightarrow> hs_checkpoint option" where
  "load_position cpr k = parse_input_checkpoint (cpr_get cpr k)"

lemma hs_update_input_checkpoint_save:
  "hs_update_input_checkpoint fmt_f cpr subdir key cp =
   save_position fmt_f cpr (input_cp_key subdir key) cp"
  by (simp add: hs_update_input_checkpoint_def save_position_def)

lemma position_store_printer:
  assumes "prints_whole_numbers fmt_f"
  shows "position_store (save_position fmt_f) load_position printable_cp"
proof
  fix p s k
  assume "printable_cp p"
  with parse_printed [OF assms this]
  show "load_position (save_position fmt_f s k p) k = Some p"
    by (simp add: load_position_def save_position_def)
next
  fix k l s p
  assume "(k :: string) \<noteq> l"
  then show "load_position (save_position fmt_f s k p) l = load_position s l"
    by (simp add: load_position_def save_position_def)
qed

interpretation decpos: position_store "save_position dec" load_position printable_cp
  by (rule position_store_printer) (rule prints_whole_numbers_dec)

lemma hs_lookup_after_update:
  assumes "prints_whole_numbers fmt_f" and "printable_cp cp"
  shows "hs_lookup_input_checkpoint fs
           (hs_update_input_checkpoint fmt_f cpr subdir key cp) subdir key path cp0 = Inr cp"
  using parse_printed [OF assms]
  by (simp add: hs_lookup_input_checkpoint_def hs_update_input_checkpoint_def)

section \<open>The text of the checkpoint file\<close>

definition put_checkpoint ::
    "(lua_number \<Rightarrow> string) \<Rightarrow> string \<Rightarrow> lua_value \<Rightarrow> ofile \<Rightarrow> bool \<times> ofile" where
  "put_checkpoint fmt_17g key v fh =
     (case v of
        LString s \<Rightarrow>
          (case fwrite (''_G['' @ [CHR 0x27] @ c_str key @ [CHR 0x27] @ ''] = '' @ [CHR 0x27]) fh of
             (False, fh1) \<Rightarrow> (False, fh1)
           | (True, fh1) \<Rightarrow>
               (case hs_output_lua_string fh1 s of
                  (False, fh2) \<Rightarrow> (False, fh2)
                | (True, fh2) \<Rightarrow> fwrite [CHR 0x27, CHR 0x0A] fh2))
      | LNumber d \<Rightarrow>
          fwrite (''_G['' @ [CHR 0x27] @ c_str key @ [CHR 0x27] @ ''] = '' @ fmt_17g d @ [CHR 0x0A]) fh
      | _ \<Rightarrow> (True, fh))"

fun put_checkpoints ::
    "(lua_number \<Rightarrow> string) \<Rightarrow> (string \<times> lua_value) list \<Rightarrow> ofile \<Rightarrow> bool \<times> ofile" where
  "put_checkpoints fmt_17g [] fh = (True, fh)"
| "put_checkpoints fmt_17g ((key, v) # kvs) fh =
     (case put_checkpoint fmt_17g key v fh of
        (True, fh') \<Rightarrow> put_checkpoints fmt_17g kvs fh'
      | (False, fh') \<Rightarrow> (False, fh'))"

text \<open>The flag is true when the C function returns 0.\<close>

definition hs_output_checkpoints ::
    "(lua_number \<Rightarrow> string) \<Rightarrow> hs_checkpoint_reader \<Rightarrow> ofile \<Rightarrow> bool \<times> ofile" where
  "hs_output_checkpoints fmt_17g cpr fh = put_checkpoints fmt_17g (cpr_values cpr) fh"

text \<open>The line of one entry, and what a Lua reader of such lines gets back.\<close>

definition checkpoint_line :: "(lua_number \<Rightarrow> string) \<Rightarrow> string \<times> lua_value \<Rightarrow> string" where
  "checkpoint_line fmt_17g e =
     (case e of
        (key, LString s) \<Rightarrow>
          ''_G['' @ [CHR 0x27] @ c_str key @ [CHR 0x27] @ ''] = '' @ [CHR 0x27]
            @ lua_escape (c_str s) @ [CHR 0x27, CHR 0x0A]
      | (key, LNumber d) \<Rightarrow>
          ''_G['' @ [CHR 0x27] @ c_str key @ [CHR 0x27] @ ''] = '' @ fmt_17g d @ [CHR 0x0A]
      | _ \<Rightarrow> [])"

definition checkpoint_text ::
    "(lua_number \<Rightarrow> string) \<Rightarrow> (string \<times> lua_value) list \<Rightarrow> string" where
  "checkpoint_text fmt_17g kvs = concat (map (checkpoint_line fmt_17g) kvs)"

definition read_checkpoint ::
    "(string \<Rightarrow> lua_number option) \<Rightarrow> string \<Rightarrow> ((string \<times> lua_value) \<times> string) option" where
  "read_checkpoint num_of t =
     (if take 4 t \<noteq> ''_G['' @ [CHR 0x27] then None
      else case read_quoted (drop 4 t) of
        None \<Rightarrow> None
      | Some (key, r1) \<Rightarrow>
          if take 4 r1 \<noteq> ''] = '' then None
          else (case drop 4 r1 of
             [] \<Rightarrow> None
           | c # r2 \<Rightarrow>
               if c = CHR 0x27 then
                 (case read_quoted r2 of
                    Some (s, d # r3) \<Rightarrow> if d = CHR 0x0A then Some ((key, LString s), r3) else None
                  | _ \<Rightarrow> None)
               else
                 (case num_of (takeWhile (\<lambda>x. x \<noteq> CHR 0x0A) (c # r2)) of
                    None \<Rightarrow> None
                  | Some n \<Rightarrow>
                      Some ((key, LNumber n), drop 1 (dropWhile (\<lambda>x. x \<noteq> CHR 0x0A) (c # r2))))))"

fun read_checkpoints ::
    "(string \<Rightarrow> lua_number option) \<Rightarrow> nat \<Rightarrow> string \<Rightarrow> (string \<times> lua_value) list option" where
  "read_checkpoints num_of fuel [] = Some []"
| "read_checkpoints num_of 0 t = None"
| "read_checkpoints num_of (Suc fuel) t =
     (case read_checkpoint num_of t of
        None \<Rightarrow> None
      | Some (e, rest) \<Rightarrow> map_option (\<lambda>es. e # es) (read_checkpoints num_of fuel rest))"

definition plain_key :: "string \<Rightarrow> bool" where
  "plain_key k \<longleftrightarrow> no_nul k \<and> set k \<inter> {CHR 0x27, CHR 0x0A, CHR 0x0D, CHR 0x5C} = {}"

definition persisted :: "string \<times> lua_value \<Rightarrow> bool" where
  "persisted e = (case snd e of LString _ \<Rightarrow> True | LNumber _ \<Rightarrow> True | _ \<Rightarrow> False)"

text \<open>The entries the format carries: no apostrophe or zero byte in a string, and a number
  whose printed form a reader maps back to it.\<close>

definition storable_entry ::
    "(string \<Rightarrow> lua_number option) \<Rightarrow> (lua_number \<Rightarrow> string) \<Rightarrow> string \<times> lua_value \<Rightarrow> bool" where
  "storable_entry num_of fmt_17g e \<longleftrightarrow>
     (case e of
        (k, LString s) \<Rightarrow> plain_key k \<and> no_nul s \<and> CHR 0x27 \<notin> set s
      | (k, LNumber d) \<Rightarrow>
          plain_key k \<and> num_of (fmt_17g d) = Some d \<and> fmt_17g d \<noteq> [] \<and>
          hd (fmt_17g d) \<noteq> CHR 0x27 \<and> CHR 0x0A \<notin> set (fmt_17g d)
      | _ \<Rightarrow> True)"

lemma read_quoted_plain:
  "set k \<inter> {CHR 0x27, CHR 0x0A, CHR 0x0D, CHR 0x5C} = {} \<Longrightarrow>
   read_quoted (k @ CHR 0x27 # rest) = Some (k, rest)"
  by (induction k) auto

lemma read_checkpoint_line:
  assumes "storable_entry num_of fmt_17g e" and "persisted e"
  shows "read_checkpoint num_of (checkpoint_line fmt_17g e @ rest) = Some (e, rest)"
proof (cases e)
  case (Pair k v)
  show ?thesis
  proof (cases v)
    case (LNumber d)
    let ?l = "fmt_17g d"
    from assms Pair LNumber have k: "plain_key k" and d: "num_of ?l = Some d" "?l \<noteq> []"
      "hd ?l \<noteq> CHR 0x27" and nl: "\<And>x. x \<in> set ?l \<Longrightarrow> x \<noteq> CHR 0x0A"
      by (auto simp: storable_entry_def)
    obtain c cs where c: "?l = c # cs" using d(2) by (cases ?l) auto
    have tw: "takeWhile (\<lambda>x. x \<noteq> CHR 0x0A) (?l @ CHR 0x0A # rest) = ?l"
      and dw: "dropWhile (\<lambda>x. x \<noteq> CHR 0x0A) (?l @ CHR 0x0A # rest) = CHR 0x0A # rest"
      using nl by (simp_all add: takeWhile_append dropWhile_append)
    from k show ?thesis using d tw dw c
      by (simp add: Pair LNumber checkpoint_line_def read_checkpoint_def plain_key_def
          read_quoted_plain)
  next
    case (LString s)
    with assms Pair show ?thesis
      by (simp add: checkpoint_line_def read_checkpoint_def storable_entry_def plain_key_def
          read_quoted_plain read_quoted_escape)
  qed (use assms Pair in \<open>auto simp: persisted_def\<close>)
qed

lemma checkpoint_line_skipped: "\<not> persisted e \<Longrightarrow> checkpoint_line fmt_17g e = []"
  by (auto simp: persisted_def checkpoint_line_def split: prod.splits lua_value.splits)

lemma checkpoint_line_nonempty: "persisted e \<Longrightarrow> \<exists>c cs. checkpoint_line fmt_17g e = c # cs"
  by (auto simp: persisted_def checkpoint_line_def split: prod.splits lua_value.splits)

lemma read_checkpoints_text:
  "\<forall>e \<in> set kvs. storable_entry num_of fmt_17g e \<Longrightarrow> length kvs \<le> fuel \<Longrightarrow>
   read_checkpoints num_of fuel (checkpoint_text fmt_17g kvs) = Some (filter persisted kvs)"
proof (induction kvs arbitrary: fuel)
  case (Cons e kvs)
  show ?case
  proof (cases "persisted e")
    case True
    then obtain c cs where c: "checkpoint_line fmt_17g e = c # cs"
      using checkpoint_line_nonempty by blast
    obtain m where m: "fuel = Suc m" "length kvs \<le> m"
      using Cons.prems(2) by (cases fuel) auto
    have "read_checkpoint num_of (checkpoint_text fmt_17g (e # kvs)) =
        Some (e, checkpoint_text fmt_17g kvs)"
      using Cons.prems(1) True by (simp add: checkpoint_text_def read_checkpoint_line)
    with Cons.IH [of m] Cons.prems(1) m True c show ?thesis
      by (simp add: checkpoint_text_def)
  next
    case False
    with Cons show ?thesis by (simp add: checkpoint_text_def checkpoint_line_skipped)
  qed
qed (simp add: checkpoint_text_def)

lemma put_checkpoint_unlimited:
  "of_room fh = None \<Longrightarrow>
   put_checkpoint fmt_17g k v fh =
     (True, fh\<lparr>of_data := of_data fh @ checkpoint_line fmt_17g (k, v)\<rparr>)"
  by (auto simp: put_checkpoint_def checkpoint_line_def hs_output_lua_string_def
      lua_put_chars_unlimited split: lua_value.split)

lemma put_checkpoints_unlimited:
  "of_room fh = None \<Longrightarrow>
   put_checkpoints fmt_17g kvs fh =
     (True, fh\<lparr>of_data := of_data fh @ checkpoint_text fmt_17g kvs\<rparr>)"
  by (induction fmt_17g kvs fh rule: put_checkpoints.induct)
    (simp_all add: put_checkpoint_unlimited checkpoint_text_def)

section \<open>Cleaning up the table at startup\<close>

text \<open>\<open>sscanf(s, "analysis%hhu", &n)\<close> and \<open>sscanf(s, "%[^.].%s", type, name) == 2\<close>.\<close>

definition scan_analysis_thread :: "string \<Rightarrow> u8 option" where
  "scan_analysis_thread s =
     (let t = dropWhile isspace (drop 8 s);
          u = (if t \<noteq> [] \<and> (hd t = CHR ''-'' \<or> hd t = CHR ''+'') then tl t else t)
      in if take 8 s = ''analysis'' \<and> u \<noteq> [] \<and> isdigit (hd u) then Some (ucast (strtoull t))
         else None)"

definition scan_type_name :: "string \<Rightarrow> (string \<times> string) option" where
  "scan_type_name s =
     (let ty = takeWhile (\<lambda>c. c \<noteq> CHR ''.'') s; r = drop (length ty) s;
          nm = takeWhile (\<lambda>c. \<not> isspace c) (dropWhile isspace (tl r))
      in if ty \<noteq> [] \<and> r \<noteq> [] \<and> nm \<noteq> [] then Some (ty, nm) else None)"

definition subkey_of :: "string \<Rightarrow> string" where
  "subkey_of key = (case strstr key ''->'' of None \<Rightarrow> key | Some p \<Rightarrow> drop 2 p)"

definition cleanup_entry ::
    "fsys \<Rightarrow> string \<Rightarrow> u8 \<Rightarrow> string \<Rightarrow> hs_checkpoint_reader \<Rightarrow> hs_exit + hs_checkpoint_reader" where
  "cleanup_entry fs run_path analysis_threads key cpr =
     (case scan_analysis_thread (subkey_of key) of
        Some analysis_thread \<Rightarrow>
          Inr (if analysis_thread \<ge> analysis_threads then remove_checkpoint cpr key else cpr)
      | None \<Rightarrow>
          (case scan_type_name (subkey_of key) of
             None \<Rightarrow> Inr cpr
           | Some (ty, nm) \<Rightarrow>
               let path = run_path @ ''/'' @ ty @ ''/'' @ nm @ hs_cfg_ext in
               if length path > HS_MAX_PATH - 1 then Inl Path_too_long
               else Inr (if hs_file_exists fs path then cpr else remove_checkpoint cpr key)))"

fun cleanup_loop ::
    "fsys \<Rightarrow> string \<Rightarrow> u8 \<Rightarrow> string list \<Rightarrow> hs_checkpoint_reader \<Rightarrow> hs_exit + hs_checkpoint_reader" where
  "cleanup_loop fs run_path n [] cpr = Inr cpr"
| "cleanup_loop fs run_path n (k # ks) cpr =
     (case cleanup_entry fs run_path n k cpr of
        Inl e \<Rightarrow> Inl e
      | Inr cpr' \<Rightarrow> cleanup_loop fs run_path n ks cpr')"

text \<open>\<open>lua_next\<close> walks the table's keys while entries are set to nil, which Lua allows.\<close>

definition hs_cleanup_checkpoints ::
    "fsys \<Rightarrow> hs_checkpoint_reader \<Rightarrow> string \<Rightarrow> u8 \<Rightarrow> hs_exit + hs_checkpoint_reader" where
  "hs_cleanup_checkpoints fs cpr run_path analysis_threads =
     cleanup_loop fs run_path analysis_threads (map fst (cpr_values cpr)) cpr"

text \<open>The specification: a key is stale when its analysis thread or its plugin is gone.\<close>

definition stale_key :: "fsys \<Rightarrow> string \<Rightarrow> u8 \<Rightarrow> string \<Rightarrow> bool" where
  "stale_key fs run_path n key \<longleftrightarrow>
     (case scan_analysis_thread (subkey_of key) of
        Some t \<Rightarrow> n \<le> t
      | None \<Rightarrow>
          (case scan_type_name (subkey_of key) of
             None \<Rightarrow> False
           | Some (ty, nm) \<Rightarrow> \<not> hs_file_exists fs (run_path @ ''/'' @ ty @ ''/'' @ nm @ ''.cfg'')))"

lemma cleanup_entry_get:
  "cleanup_entry fs rp n k cpr = Inr cpr' \<Longrightarrow>
   cpr_get cpr' = (if stale_key fs rp n k then (cpr_get cpr)(k := None) else cpr_get cpr)"
  by (auto simp: cleanup_entry_def stale_key_def Let_def split: option.splits if_splits)

lemma cleanup_loop_get:
  "cleanup_loop fs rp n ks cpr = Inr cpr' \<Longrightarrow>
   cpr_get cpr' k = (if k \<in> set ks \<and> stale_key fs rp n k then None else cpr_get cpr k)"
proof (induction fs rp n ks cpr rule: cleanup_loop.induct)
  case (2 fs rp n k' ks cpr)
  then obtain c where c: "cleanup_entry fs rp n k' cpr = Inr c"
    and "cleanup_loop fs rp n ks c = Inr cpr'"
    by (auto split: sum.splits)
  with 2 cleanup_entry_get [OF c] show ?case by (auto split: if_splits)
qed simp

lemma scan_analysis_thread_dec:
  assumes "t < 256"
  shows "scan_analysis_thread (''analysis'' @ dec t) = Some (word_of_nat t)"
proof -
  note d = digit_not_space [OF isdigit_hd_dec, of t]
  have "dropWhile isspace (dec t) = dec t"
    using d dropWhile_hd [of "dec t" isspace "[]"] by simp
  moreover have "strtoull (dec t) = word_of_nat t"
    using strtoull_dec [of t "[]"] assms by simp
  moreover have "ucast (word_of_nat t :: u64) = (word_of_nat t :: u8)"
    using assms by (simp add: word_unat_eq_iff unsigned_ucast_eq unat_of_nat_u64 unsigned_of_nat)
  ultimately show ?thesis using d by (simp add: scan_analysis_thread_def)
qed

text \<open>A plugin's key: a queue reader's (\<open>input->output.x\<close>) or an input plugin's own (\<open>input.x\<close>).\<close>

definition plain_name :: "string \<Rightarrow> bool" where
  "plain_name nm \<longleftrightarrow> nm \<noteq> [] \<and> (\<forall>c \<in> set nm. \<not> isspace c)"

lemma scan_type_name_plugin:
  assumes "ty \<in> {''input'', ''analysis'', ''output''}" and "plain_name nm"
  shows "scan_type_name (ty @ ''.'' @ nm) = Some (ty, nm)"
proof -
  have "takeWhile (\<lambda>c. c \<noteq> CHR ''.'') (ty @ ''.'' @ nm) = ty"
    using assms(1) by auto
  moreover have "dropWhile isspace nm = nm"
    using assms(2) by (cases nm) (auto simp: plain_name_def)
  moreover have "takeWhile (\<lambda>c. \<not> isspace c) nm = nm"
    using assms(2) by (auto simp: plain_name_def)
  ultimately show ?thesis
    using assms
    by (auto simp: scan_type_name_def plain_name_def Let_def takeWhile_eq_all_conv
        takeWhile_eq_Nil_iff)
qed

lemma subkey_of_reader:
  "q \<in> {''input'', ''analysis''} \<Longrightarrow> subkey_of (q @ ''->'' @ k) = k"
  by (auto simp: subkey_of_def)

lemma scan_analysis_thread_plugin:
  "ty \<in> {''input'', ''analysis'', ''output''} \<Longrightarrow> scan_analysis_thread (ty @ ''.'' @ nm) = None"
  by (auto simp: scan_analysis_thread_def isdigit_def isspace_def)

lemma stale_plugin_key:
  assumes "q \<in> {''input'', ''analysis''}" and "ty \<in> {''input'', ''analysis'', ''output''}"
    and "plain_name nm"
  shows "stale_key fs rp n (q @ ''->'' @ ty @ ''.'' @ nm) \<longleftrightarrow>
         \<not> hs_file_exists fs (rp @ ''/'' @ ty @ ''/'' @ nm @ ''.cfg'')"
  using subkey_of_reader [OF assms(1)] scan_type_name_plugin [OF assms(2,3)]
    scan_analysis_thread_plugin [OF assms(2)]
  by (simp add: stale_key_def)

lemma stale_thread_key:
  assumes "t < 256"
  shows "stale_key fs rp n (''input->analysis'' @ dec t) \<longleftrightarrow> unat n \<le> t"
proof -
  have "subkey_of (''input->analysis'' @ dec t) = ''analysis'' @ dec t"
    using subkey_of_reader [of "''input''" "''analysis'' @ dec t"] by simp
  then have "stale_key fs rp n (''input->analysis'' @ dec t) \<longleftrightarrow> n \<le> word_of_nat t"
    using scan_analysis_thread_dec [OF assms] by (simp add: stale_key_def)
  then show ?thesis
    using assms by (simp add: word_le_nat_alt unsigned_of_nat take_bit_nat_eq_self)
qed

lemma cleanup_get:
  assumes "hs_cleanup_checkpoints fs cpr rp n = Inr cpr'"
  shows "cpr_get cpr' k = (if stale_key fs rp n k then None else cpr_get cpr k)"
  using cleanup_loop_get [OF assms [unfolded hs_cleanup_checkpoints_def], of k]
  by (auto simp: cpr_get_def map_of_eq_None_iff [THEN iffD2])

section \<open>What keeps an input plugin's checkpoint well formed\<close>

text \<open>
  The invariant the functions on \<open>hs_ip_checkpoint\<close> rely on: a string's length is below its
  buffer's capacity, the buffer has that capacity, and nothing is allocated otherwise.
\<close>

definition ipc_ok :: "hs_ip_checkpoint \<Rightarrow> bool" where
  "ipc_ok cp =
     (case (ipc_type cp, ipc_value cp) of
        (HS_CP_STRING, Ip_s (Some b)) \<Rightarrow>
          length b = unat (ipc_cap cp) \<and> unat (ipc_len cp) < unat (ipc_cap cp) \<and>
          unat (ipc_cap cp) \<le> HS_MAX_IP_CHECKPOINT
      | (HS_CP_STRING, Ip_s None) \<Rightarrow> ipc_len cp = 0 \<and> ipc_cap cp = 0
      | (HS_CP_STRING, Ip_d _) \<Rightarrow> False
      | (HS_CP_NUMERIC, Ip_s _) \<Rightarrow> False
      | (HS_CP_NUMERIC, Ip_d _) \<Rightarrow> ipc_len cp = 0 \<and> ipc_cap cp = 0
      | (HS_CP_NONE, v) \<Rightarrow> v = Ip_d (Fin 0) \<and> ipc_len cp = 0 \<and> ipc_cap cp = 0)"

definition loadable :: "lua_value \<Rightarrow> bool" where
  "loadable v = (case v of LString t \<Rightarrow> length t < HS_MAX_IP_CHECKPOINT | _ \<Rightarrow> True)"

lemma unat_of_nat_u32: "n < 2 ^ 32 \<Longrightarrow> unat (word_of_nat n :: u32) = n"
  by (simp add: unsigned_of_nat take_bit_nat_eq_self)

lemma length_memcpy: "length src = n \<Longrightarrow> n \<le> length dst \<Longrightarrow> length (memcpy dst src n) = length dst"
  by (simp add: memcpy_def)

lemma take_memcpy: "length src = n \<Longrightarrow> m \<le> n \<Longrightarrow> take m (memcpy dst src n) = take m src"
  by (simp add: memcpy_def)

text \<open>What a short string leaves behind: its bytes at the front of a buffer that holds them.\<close>

lemma hs_load_checkpoint_string:
  assumes "ipc_ok cp" and "length t < HS_MAX_IP_CHECKPOINT"
  shows "\<exists>b. hs_load_checkpoint True (LString t) cp =
             (False, \<lparr>ipc_type = HS_CP_STRING, ipc_len = word_of_nat (length t),
                      ipc_cap = word_of_nat (length b), ipc_value = Ip_s (Some b)\<rparr>) \<and>
           length t < length b \<and> length b \<le> HS_MAX_IP_CHECKPOINT \<and> take (length t) b = t"
proof (cases "ipc_type cp = HS_CP_STRING \<and> Suc (length t) \<le> unat (ipc_cap cp)")
  case True
  with assms(1) obtain b where b: "ipc_value cp = Ip_s (Some b)" "length b = unat (ipc_cap cp)"
    "unat (ipc_cap cp) \<le> HS_MAX_IP_CHECKPOINT"
    by (auto simp: ipc_ok_def split: ip_checkpoint_value.splits option.splits)
  let ?b = "memcpy b (t @ [CHR 0x00]) (Suc (length t))"
  have len: "length ?b = length b" using True b by (intro length_memcpy) auto
  have tk: "take (length t) ?b = t" by (subst take_memcpy) auto
  have cap: "ipc_cap cp = word_of_nat (length b)" using b(2) by simp
  have "hs_load_checkpoint True (LString t) cp =
      (False, \<lparr>ipc_type = HS_CP_STRING, ipc_len = word_of_nat (length t),
               ipc_cap = word_of_nat (length ?b), ipc_value = Ip_s (Some ?b)\<rparr>)"
    using True assms(2) b(1) len cap
    by (cases cp) (auto simp: hs_load_checkpoint_def Let_def)
  then show ?thesis using len tk True b(2,3) by (intro exI [of _ ?b]) (simp del: length_map)
next
  case False
  let ?b = "t @ [CHR 0x00]"
  from False assms(1) have "unat (ipc_cap cp) < Suc (length t)"
    by (auto simp: ipc_ok_def split: hs_ip_checkpoint_type.splits ip_checkpoint_value.splits)
  then have "hs_load_checkpoint True (LString t) cp =
      (False, \<lparr>ipc_type = HS_CP_STRING, ipc_len = word_of_nat (length t),
               ipc_cap = word_of_nat (length ?b), ipc_value = Ip_s (Some ?b)\<rparr>)"
    using assms(2) by (cases cp) (auto simp: hs_load_checkpoint_def Let_def)
  then show ?thesis using assms(2) by (intro exI [of _ ?b]) simp
qed

lemma hs_load_checkpoint_ok:
  assumes "ipc_ok cp" and "loadable v"
  shows "ipc_ok (snd (hs_load_checkpoint malloc_ok v cp))"
proof (cases v)
  case (LString t)
  with assms(2) have t: "length t < HS_MAX_IP_CHECKPOINT" by (simp add: loadable_def)
  show ?thesis
  proof (cases "malloc_ok \<or> Suc (length t) \<le> unat (ipc_cap cp)")
    case True
    then have "hs_load_checkpoint malloc_ok v cp = hs_load_checkpoint True v cp"
      using LString by (auto simp: hs_load_checkpoint_def Let_def)
    with hs_load_checkpoint_string [OF assms(1) t] LString show ?thesis
      by (auto simp: ipc_ok_def unat_of_nat_u32)
  next
    case False
    then show ?thesis using LString t
      by (auto simp: hs_load_checkpoint_def ipc_ok_def Let_def)
  qed
next
  case (LNumber d)
  then show ?thesis using assms(1)
    by (auto simp: hs_load_checkpoint_def ipc_ok_def Let_def
        split: hs_ip_checkpoint_type.splits ip_checkpoint_value.splits)
qed (use assms(1) in \<open>simp_all add: hs_load_checkpoint_def\<close>)

lemma hs_update_checkpoint_defined:
  "ipc_ok cp \<Longrightarrow> \<exists>cpr'. hs_update_checkpoint cpr key cp = Inr cpr'"
  by (auto simp: ipc_ok_def hs_update_checkpoint_def Let_def
      split: hs_ip_checkpoint_type.splits ip_checkpoint_value.splits option.splits)

lemma hs_load_checkpoint_oversize:
  assumes "ipc_ok cp" and "HS_MAX_IP_CHECKPOINT < length t" and "length t < 2 ^ 32"
  shows "hs_update_checkpoint cpr key (snd (hs_load_checkpoint m (LString t) cp)) =
         Inl Undefined_behaviour"
proof -
  have "unat (word_of_nat (length t) :: u32) = length t" by (rule unat_of_nat_u32) (fact assms(3))
  then show ?thesis using assms(1,2)
    by (auto simp: ipc_ok_def hs_update_checkpoint_def hs_load_checkpoint_def Let_def
        split: hs_ip_checkpoint_type.splits ip_checkpoint_value.splits option.splits)
qed

section \<open>Properties\<close>

text \<open>C40: \<open>hs_find_next_id\<close> returns the least file id of the queue directory above
  \<open>start_id\<close> (0 when there is none), whatever order \<open>readdir\<close> yields the entries in.\<close>

theorem hs_find_next_id_spec:
  assumes "readdir fs (path @ ''/'' @ subdir) = Some es"
    and "length path + length subdir < 259"
  shows "hs_find_next_id fs path subdir s =
         Inr (let ids = {i \<in> ids_of es. s < i \<and> i \<noteq> ULLONG_MAX} in if ids = {} then 0 else Min ids)"
proof -
  define T where "T = {i \<in> ids_of es. s < i \<and> i \<noteq> ULLONG_MAX}"
  have fin: "finite T" by (simp add: T_def)
  have "insert ULLONG_MAX {i \<in> ids_of es. s < i} = insert ULLONG_MAX T"
    by (auto simp: T_def)
  then have min: "next_id_loop s es ULLONG_MAX = Min (insert ULLONG_MAX T)"
    by (simp add: next_id_loop_Min)
  have "Min (insert ULLONG_MAX T) = (if T = {} then ULLONG_MAX else Min T)"
    using Min_insert_max [OF fin] by simp
  moreover have "T \<noteq> {} \<Longrightarrow> Min T \<noteq> ULLONG_MAX"
    using Min_in [OF fin] by (auto simp: T_def)
  ultimately show ?thesis
    unfolding T_def [symmetric] using assms min
    by (simp add: hs_find_next_id_def hs_get_fqfn_def Let_def)
qed

theorem hs_find_next_id_spec_witness:
  "hs_find_next_id \<lparr>fs_files = [(''o/input/9.log'', []), (''o/input/12.log'', []), (''o/input/3.log'', [])],
     fs_dirs = [''o/input''], fs_denied = []\<rparr> ''o'' ''input'' 3 = Inr 9"
proof -
  let ?fs = "\<lparr>fs_files = [(''o/input/9.log'', []), (''o/input/12.log'', []), (''o/input/3.log'', [])],
     fs_dirs = [''o/input''], fs_denied = []\<rparr> :: fsys"
  have rd: "readdir ?fs (''o'' @ ''/'' @ ''input'') = Some [''9.log'', ''12.log'', ''3.log'']"
    by code_simp
  have ids: "ids_of [''9.log'', ''12.log'', ''3.log''] = {9, 12, 3}"
  proof -
    have "extract_id ''9.log'' = Some 9" "extract_id ''12.log'' = Some 12"
      "extract_id ''3.log'' = Some 3" by code_simp+
    then show ?thesis by (auto simp: ids_of_Cons)
  qed
  have "{i \<in> {9, 12, 3 :: u64}. 3 < i \<and> i \<noteq> ULLONG_MAX} = {9, 12}" by auto
  then show ?thesis
    using hs_find_next_id_spec [OF rd, of 3] ids by simp
qed

text \<open>A queue position saved with \<open>hs_update_input_checkpoint\<close> is what
  \<open>hs_lookup_input_checkpoint\<close> restores for the same queue and reader, for ids and offsets
  below \<open>10 ^ 14\<close> (Lua prints larger numbers in exponent form).\<close>

theorem input_checkpoint_roundtrip:
  assumes "prints_whole_numbers fmt_f"
    and "unat (cp_id cp) < 10 ^ 14" and "unat (cp_offset cp) < 10 ^ 14"
  shows "hs_lookup_input_checkpoint fs
           (hs_update_input_checkpoint fmt_f cpr subdir key cp) subdir key path cp0 = Inr cp"
  using assms(2,3) by (intro hs_lookup_after_update [OF assms(1)]) (simp add: printable_cp_def)

theorem input_checkpoint_roundtrip_witness:
  "hs_lookup_input_checkpoint \<lparr>fs_files = [], fs_dirs = [], fs_denied = []\<rparr>
     (hs_update_input_checkpoint dec \<lparr>cpr_values = []\<rparr> ''input'' (Some ''output.a'')
        \<lparr>cp_id = 7, cp_offset = 4096\<rparr>)
     ''input'' (Some ''output.a'') None \<lparr>cp_id = 0, cp_offset = 0\<rparr>
   = Inr \<lparr>cp_id = 7, cp_offset = 4096\<rparr>"
  by (rule input_checkpoint_roundtrip [OF prints_whole_numbers_dec]) simp_all





text \<open>A checkpoint string with an apostrophe in it makes the line that stores it unreadable,
  because the file quotes strings with apostrophes and the escaping leaves them alone.\<close>

theorem apostrophe_breaks_checkpoint:
  assumes "plain_key key" and "no_nul s" and "CHR 0x27 \<in> set s"
  shows "read_checkpoint num_of (checkpoint_line fmt_17g (key, LString s) @ rest) = None"
proof -
  obtain a b where ab: "s = a @ CHR 0x27 # b" "CHR 0x27 \<notin> set a"
    using split_list_first [OF assms(3)] by blast
  have "\<exists>c cs. lua_escape b @ CHR 0x27 # CHR 0x0A # rest = c # cs \<and> c \<noteq> CHR 0x0A"
    by (cases b) auto
  then obtain c cs where c: "lua_escape b @ CHR 0x27 # CHR 0x0A # rest = c # cs" "c \<noteq> CHR 0x0A"
    by blast
  have "read_quoted (lua_escape s @ CHR 0x27 # CHR 0x0A # rest) = Some (a, c # cs)"
    unfolding ab(1) read_quoted_stops_at_quote [OF ab(2)] c(1) ..
  with assms(1,2) c(2) show ?thesis
    by (simp add: checkpoint_line_def read_checkpoint_def plain_key_def read_quoted_plain)
qed

theorem apostrophe_breaks_checkpoint_witness:
  "read_checkpoint (\<lambda>s. None)
     (checkpoint_line (\<lambda>d. []) (''input.a'', LString (''don'' @ [CHR 0x27] @ ''t'')) @ []) = None"
  by (rule apostrophe_breaks_checkpoint) (auto simp: plain_key_def no_nul_def)

text \<open>Loading any Lua value other than an oversize string keeps the checkpoint's length below
  its buffer's capacity and that below 8192 bytes, whether or not an allocation fails, and the
  value can then be saved without reading outside the buffer.\<close>

theorem load_checkpoint_keeps_bounds:
  assumes "ipc_ok cp" and "loadable v"
  shows "ipc_ok (snd (hs_load_checkpoint malloc_ok v cp)) \<and>
    (\<exists>cpr'. hs_update_checkpoint cpr key (snd (hs_load_checkpoint malloc_ok v cp)) = Inr cpr')"
  using hs_load_checkpoint_ok [OF assms, of malloc_ok] hs_update_checkpoint_defined by blast

theorem load_checkpoint_keeps_bounds_witness:
  "ipc_ok (snd (hs_load_checkpoint False (LString ''abcd'')
     \<lparr>ipc_type = HS_CP_STRING, ipc_len = 2, ipc_cap = 3, ipc_value = Ip_s (Some [CHR ''x'', CHR ''y'', CHR 0x00])\<rparr>))"
  by (rule load_checkpoint_keeps_bounds [THEN conjunct1]) (simp_all add: ipc_ok_def loadable_def)

text \<open>A string of more than 8192 bytes is refused, but its length has been stored already:
  the next save of this checkpoint reads past the end of the buffer.\<close>

theorem oversize_checkpoint_overread:
  assumes "ipc_ok cp" and "HS_MAX_IP_CHECKPOINT < length t" and "length t < 2 ^ 32"
  shows "fst (hs_load_checkpoint m (LString t) cp) \<and>
    hs_update_checkpoint cpr key (snd (hs_load_checkpoint m (LString t) cp)) = Inl Undefined_behaviour"
  using assms hs_load_checkpoint_oversize [OF assms]
  by (simp add: hs_load_checkpoint_def Let_def)

theorem oversize_checkpoint_overread_witness:
  "hs_update_checkpoint \<lparr>cpr_values = []\<rparr> ''input.a''
     (snd (hs_load_checkpoint True (LString (replicate 8193 CHR ''x''))
       \<lparr>ipc_type = HS_CP_NONE, ipc_len = 0, ipc_cap = 0, ipc_value = Ip_d (Fin 0)\<rparr>))
   = Inl Undefined_behaviour"
  by (rule oversize_checkpoint_overread [THEN conjunct2]) (simp_all add: ipc_ok_def)

text \<open>The checkpoint of an input plugin survives the table: a string of fewer than 8192
  bytes loaded into a plugin's checkpoint and saved is what a restarted plugin looks up.\<close>

theorem ip_checkpoint_roundtrip:
  assumes "ipc_ok cp" and "ipc_ok cp0" and "length t < HS_MAX_IP_CHECKPOINT"
  shows "\<exists>cpr'. hs_update_checkpoint cpr key (snd (hs_load_checkpoint True (LString t) cp)) = Inr cpr' \<and>
    (\<exists>b. ipc_value (hs_lookup_checkpoint True cpr' key cp0) = Ip_s (Some b) \<and>
       take (unat (ipc_len (hs_lookup_checkpoint True cpr' key cp0))) b = t) \<and>
    (\<forall>k. k \<noteq> key \<longrightarrow> cpr_get cpr' k = cpr_get cpr k)"
proof -
  obtain b where b: "hs_load_checkpoint True (LString t) cp =
      (False, \<lparr>ipc_type = HS_CP_STRING, ipc_len = word_of_nat (length t),
               ipc_cap = word_of_nat (length b), ipc_value = Ip_s (Some b)\<rparr>)"
    "length t < length b" "take (length t) b = t"
    using hs_load_checkpoint_string [OF assms(1,3)] by blast
  obtain c where c: "hs_load_checkpoint True (LString t) cp0 =
      (False, \<lparr>ipc_type = HS_CP_STRING, ipc_len = word_of_nat (length t),
               ipc_cap = word_of_nat (length c), ipc_value = Ip_s (Some c)\<rparr>)"
    "take (length t) c = t"
    using hs_load_checkpoint_string [OF assms(2,3)] by blast
  have len: "unat (word_of_nat (length t) :: u32) = length t"
    using assms(3) by (intro unat_of_nat_u32) simp
  have "hs_update_checkpoint cpr key (snd (hs_load_checkpoint True (LString t) cp)) =
      Inr (cpr_put cpr key (LString t))"
    using b len by (simp add: hs_update_checkpoint_def)
  then show ?thesis using c len by (simp add: hs_lookup_checkpoint_def)
qed

theorem ip_checkpoint_roundtrip_witness:
  "\<exists>cpr'. hs_update_checkpoint \<lparr>cpr_values = []\<rparr> ''input.a'' (snd (hs_load_checkpoint True (LString ''17:3'')
      \<lparr>ipc_type = HS_CP_NONE, ipc_len = 0, ipc_cap = 0, ipc_value = Ip_d (Fin 0)\<rparr>)) = Inr cpr'"
proof -
  let ?cp = "\<lparr>ipc_type = HS_CP_NONE, ipc_len = 0, ipc_cap = 0, ipc_value = Ip_d (Fin 0)\<rparr> :: hs_ip_checkpoint"
  have "ipc_ok ?cp" by (simp add: ipc_ok_def)
  from ip_checkpoint_roundtrip [OF this this, of "''17:3''" "\<lparr>cpr_values = []\<rparr>" "''input.a''"]
  show ?thesis by auto
qed

end
