(* ===== verification/HS_Output.thy ===== *)
theory HS_Output
  imports HS_Checkpoint_Reader
begin

text \<open>
  \<open>src/hs_output.c\<close>: the writer of a message queue. A queue is a directory of files
  \<open><id>.log\<close>; the writer appends to the one with the largest id. The \<open>FILE\<close> of a writer is the
  path it was opened on (\<open>o_fh\<close>) with the bytes stdio holds back (\<open>o_buf\<close>), which reach the
  file at a flush or a close. A write error that stdio meets while closing is ignored by the
  code and not modelled. The name is formatted in one step and opened in another, because the
  buffer it is formatted in is static.
\<close>

section \<open>State\<close>

record hs_output =
  o_fh :: "string option"
  o_buf :: string
  o_path :: string
  o_min_cp_id :: u64
  o_cp :: hs_checkpoint

definition log_name :: "string \<Rightarrow> u64 \<Rightarrow> string" where
  "log_name path i = path @ ''/'' @ dec (unat i) @ ''.log''"

lemma log_name_eq [simp]: "log_name p i = log_name q j \<longleftrightarrow> p = q \<and> i = j"
proof -
  have "log_name p i = log_name q j \<longleftrightarrow> p = q \<and> dec (unat i) @ ''.log'' = dec (unat j) @ ''.log''"
    using last_slash_inj [of "dec (unat i) @ ''.log''" "dec (unat j) @ ''.log''" p q]
    by (simp add: log_name_def digits_no_slash)
  then show ?thesis using dec_inj [of "unat i" "unat j"] word_unat_eq_iff by auto
qed

lemma length_log_name [hs_len]: "length (log_name path i) \<le> length path + 25"
  using length_dec_u64 [of i] by (simp add: log_name_def)

section \<open>Operations\<close>

fun last_id_loop :: "string list \<Rightarrow> u64 \<Rightarrow> u64" where
  "last_id_loop [] file_id = file_id"
| "last_id_loop (e # es) file_id =
     (case extract_id e of
        None \<Rightarrow> last_id_loop es file_id
      | Some c \<Rightarrow> last_id_loop es (if c > file_id then c else file_id))"

definition find_last_id :: "fsys \<Rightarrow> string \<Rightarrow> u64" where
  "find_last_id fs path =
     (case readdir fs path of None \<Rightarrow> 0 | Some es \<Rightarrow> last_id_loop es 0)"

text \<open>\<open>fclose\<close> and \<open>fflush\<close> of the writer's stream; stdio may also drain a prefix by itself.\<close>

definition flush_output :: "fsys \<Rightarrow> hs_output \<Rightarrow> fsys \<times> hs_output" where
  "flush_output fs ob =
     (case o_fh ob of
        None \<Rightarrow> (fs, ob)
      | Some p \<Rightarrow> (fs_append fs p (o_buf ob), ob\<lparr>o_buf := []\<rparr>))"

definition drain_output :: "nat \<Rightarrow> fsys \<Rightarrow> hs_output \<Rightarrow> fsys \<times> hs_output" where
  "drain_output n fs ob =
     (case o_fh ob of
        None \<Rightarrow> (fs, ob)
      | Some p \<Rightarrow> (fs_append fs p (take n (o_buf ob)), ob\<lparr>o_buf := drop n (o_buf ob)\<rparr>))"

definition close_output :: "fsys \<Rightarrow> hs_output \<Rightarrow> fsys \<times> hs_output" where
  "close_output fs ob =
     (let (fs', ob') = flush_output fs ob in (fs', ob'\<lparr>o_fh := None, o_buf := []\<rparr>))"

definition format_output_name :: "hs_output \<Rightarrow> string option" where
  "format_output_name ob =
     (let fqfn = log_name (o_path ob) (cp_id (o_cp ob))
      in if length fqfn > HS_MAX_PATH - 1 then None else Some fqfn)"

definition fopen_output :: "string \<Rightarrow> fsys \<Rightarrow> hs_output \<Rightarrow> hs_exit + (fsys \<times> hs_output)" where
  "fopen_output fqfn fs ob =
     (case fopen_ae fs fqfn of
        None \<Rightarrow> Inl Open_failed
      | Some fs' \<Rightarrow>
          Inr (fs', ob\<lparr>o_fh := Some fqfn, o_buf := [],
                      o_cp := (o_cp ob)\<lparr>cp_offset := word_of_nat (length (the (fs_get fs' fqfn)))\<rparr>\<rparr>))"

definition hs_open_output_file :: "fsys \<Rightarrow> hs_output \<Rightarrow> hs_exit + (fsys \<times> hs_output)" where
  "hs_open_output_file fs ob =
     (let (fs1, ob1) = close_output fs ob in
      case format_output_name ob1 of
        None \<Rightarrow> Inl Path_too_long
      | Some fqfn \<Rightarrow> fopen_output fqfn fs1 ob1)"

definition hs_init_output :: "fsys \<Rightarrow> string \<Rightarrow> string \<Rightarrow> hs_exit + (fsys \<times> hs_output)" where
  "hs_init_output fs path subdir =
     (let dir = path @ ''/'' @ subdir;
          i = find_last_id fs dir
      in case mkdir fs path of
           None \<Rightarrow> Inl No_such_directory
         | Some fs1 \<Rightarrow>
             (case mkdir fs1 dir of
                None \<Rightarrow> Inl No_such_directory
              | Some fs2 \<Rightarrow>
                  hs_open_output_file fs2
                    \<lparr>o_fh = None, o_buf = [], o_path = dir, o_min_cp_id = i,
                     o_cp = \<lparr>cp_id = i, cp_offset = 0\<rparr>\<rparr>))"

definition hs_free_output :: "fsys \<Rightarrow> hs_output \<Rightarrow> fsys \<times> hs_output" where
  "hs_free_output fs ob = (let (fs', ob') = close_output fs ob in (fs', ob'\<lparr>o_path := []\<rparr>))"

section \<open>The queue a writer stands for\<close>

text \<open>The bytes of file \<open>i\<close> of the queue, with those stdio still holds.\<close>

definition file_bytes :: "fsys \<Rightarrow> string \<Rightarrow> string" where
  "file_bytes fs p = (case fs_get fs p of None \<Rightarrow> [] | Some c \<Rightarrow> c)"

definition queue_log :: "fsys \<Rightarrow> hs_output \<Rightarrow> u64 \<Rightarrow> string" where
  "queue_log fs ob i =
     file_bytes fs (log_name (o_path ob) i)
       @ (if o_fh ob = Some (log_name (o_path ob) i) then o_buf ob else [])"

text \<open>
  The writer's invariant: it has the file of its current id open, \<open>cp.offset\<close> is the length of
  that file with the bytes held back, and no file of a larger id exists.
\<close>

definition output_ok :: "fsys \<Rightarrow> hs_output \<Rightarrow> bool" where
  "output_ok fs ob \<longleftrightarrow>
     o_fh ob = Some (log_name (o_path ob) (cp_id (o_cp ob))) \<and>
     fs_get fs (log_name (o_path ob) (cp_id (o_cp ob))) \<noteq> None \<and>
     int (length (queue_log fs ob (cp_id (o_cp ob)))) < 2 ^ 64 \<and>
     cp_offset (o_cp ob) = word_of_nat (length (queue_log fs ob (cp_id (o_cp ob)))) \<and>
     (\<forall>i. cp_id (o_cp ob) < i \<longrightarrow> fs_get fs (log_name (o_path ob) i) = None)"

lemma file_bytes_append:
  "file_bytes (fs_append fs p c) q = (if q = p then file_bytes fs p @ c else file_bytes fs q)"
  by (simp add: file_bytes_def fs_append_get split: option.split)

lemma flush_output_log:
  "flush_output fs ob = (fs', ob') \<Longrightarrow> queue_log fs' ob' i = queue_log fs ob i"
  by (auto simp: flush_output_def queue_log_def file_bytes_append split: option.splits)

lemma drain_output_log:
  "drain_output n fs ob = (fs', ob') \<Longrightarrow> queue_log fs' ob' i = queue_log fs ob i"
  by (auto simp: drain_output_def queue_log_def file_bytes_append split: option.splits)

lemma close_output_log:
  "close_output fs ob = (fs', ob') \<Longrightarrow> o_path ob' = o_path ob \<and> o_cp ob' = o_cp ob \<and>
     o_min_cp_id ob' = o_min_cp_id ob \<and> o_fh ob' = None \<and> o_buf ob' = [] \<and>
     fs_denied fs' = fs_denied fs \<and>
     (\<forall>i. file_bytes fs' (log_name (o_path ob) i) = queue_log fs ob i)"
  by (auto simp: close_output_def flush_output_def queue_log_def file_bytes_append Let_def
      split: option.splits)

lemma close_output_get:
  "close_output fs ob = (fs', ob') \<Longrightarrow>
   fs_get fs' p = None \<longleftrightarrow> fs_get fs p = None \<and> o_fh ob \<noteq> Some p"
  by (auto simp: close_output_def flush_output_def Let_def fs_append_get split: option.splits if_splits)

lemma fopen_output_log:
  assumes "fopen_output fqfn fs ob = Inr (fs', ob')" and "o_fh ob = None"
  shows "queue_log fs' ob' i = queue_log fs ob i \<and> o_path ob' = o_path ob
     \<and> cp_id (o_cp ob') = cp_id (o_cp ob) \<and> o_min_cp_id ob' = o_min_cp_id ob
     \<and> o_fh ob' = Some fqfn \<and> o_buf ob' = [] \<and> fs_denied fs' = fs_denied fs
     \<and> cp_offset (o_cp ob') = word_of_nat (length (file_bytes fs fqfn))
     \<and> fs_get fs' = (fs_get fs)(fqfn \<mapsto> file_bytes fs fqfn)"
  using assms fopen_ae_get [of fs fqfn] fopen_ae_denied [of fs fqfn]
  by (auto simp: fopen_output_def queue_log_def file_bytes_def split: option.splits if_splits)

lemma file_bytes_alt: "fs_get fs p = Some c \<Longrightarrow> file_bytes fs p = c"
  by (simp add: file_bytes_def)

text \<open>Opening the current file moves no byte: whatever was held back for another file is written
  there, and an existing file is continued, never truncated.\<close>

lemma hs_open_output_file_log:
  assumes "hs_open_output_file fs ob = Inr (fs', ob')"
  shows "queue_log fs' ob' i = queue_log fs ob i \<and>
     o_path ob' = o_path ob \<and> cp_id (o_cp ob') = cp_id (o_cp ob) \<and>
     o_min_cp_id ob' = o_min_cp_id ob \<and>
     o_fh ob' = Some (log_name (o_path ob) (cp_id (o_cp ob))) \<and> fs_denied fs' = fs_denied fs \<and>
     cp_offset (o_cp ob') = word_of_nat (length (queue_log fs ob (cp_id (o_cp ob)))) \<and>
     (fs_get fs' p = None \<longleftrightarrow>
        fs_get fs p = None \<and> o_fh ob \<noteq> Some p \<and> p \<noteq> log_name (o_path ob) (cp_id (o_cp ob)))"
proof -
  obtain fs1 ob1 where c: "close_output fs ob = (fs1, ob1)" by fastforce
  note cl = close_output_log [OF c]
  let ?p = "log_name (o_path ob) (cp_id (o_cp ob))"
  have f: "fopen_output ?p fs1 ob1 = Inr (fs', ob')"
    using assms cl by (auto simp: hs_open_output_file_def c format_output_name_def Let_def
        split: if_splits)
  note fo = fopen_output_log [OF f cl [THEN conjunct2, THEN conjunct2, THEN conjunct2, THEN conjunct1]]
  have q: "queue_log fs1 ob1 i = queue_log fs ob i" for i
    using cl by (simp add: queue_log_def)
  show ?thesis
    using fo cl q close_output_get [OF c, of p] by auto
qed

lemma hs_open_output_file_ok:
  assumes "hs_open_output_file fs ob = Inr (fs', ob')"
    and "int (length (queue_log fs ob (cp_id (o_cp ob)))) < 2 ^ 64"
    and "\<And>i. cp_id (o_cp ob) < i \<Longrightarrow>
           fs_get fs (log_name (o_path ob) i) = None \<and> o_fh ob \<noteq> Some (log_name (o_path ob) i)"
  shows "output_ok fs' ob'"
proof -
  note l = hs_open_output_file_log [OF assms(1)]
  have h: "o_path ob' = o_path ob" "cp_id (o_cp ob') = cp_id (o_cp ob)"
    "o_fh ob' = Some (log_name (o_path ob) (cp_id (o_cp ob)))"
    "cp_offset (o_cp ob') = word_of_nat (length (queue_log fs ob (cp_id (o_cp ob))))"
    using l by blast+
  have "fs_get fs' (log_name (o_path ob) i) = None" if "cp_id (o_cp ob) < i" for i
    using l [of undefined "log_name (o_path ob) i"] assms(3) [OF that] that by auto
  moreover have "fs_get fs' (log_name (o_path ob) (cp_id (o_cp ob))) \<noteq> None"
    using l [of undefined "log_name (o_path ob) (cp_id (o_cp ob))"] by blast
  moreover have "queue_log fs' ob' (cp_id (o_cp ob)) = queue_log fs ob (cp_id (o_cp ob))"
    using l by blast
  ultimately show ?thesis using assms(2) h by (simp add: output_ok_def)
qed

lemma hs_open_output_file_succeeds:
  assumes "length (o_path ob) \<le> 234"
    and "log_name (o_path ob) (cp_id (o_cp ob)) \<notin> set (fs_denied fs)"
  shows "\<exists>fs' ob'. hs_open_output_file fs ob = Inr (fs', ob')"
proof -
  obtain fs1 ob1 where c: "close_output fs ob = (fs1, ob1)" by fastforce
  note cl = close_output_log [OF c]
  have "length (log_name (o_path ob) (cp_id (o_cp ob))) \<le> 259"
    using length_log_name [of "o_path ob" "cp_id (o_cp ob)"] assms(1) by linarith
  then have len: "\<not> HS_MAX_PATH - 1 < length (log_name (o_path ob) (cp_id (o_cp ob)))"
    by simp
  have "o_path ob1 = o_path ob" "o_cp ob1 = o_cp ob" using cl by blast+
  then have "format_output_name ob1 = Some (log_name (o_path ob) (cp_id (o_cp ob)))"
    using len by (simp only: format_output_name_def Let_def if_False)
  moreover have "fs_denied fs1 = fs_denied fs" using cl by blast
  ultimately show ?thesis
    using assms(2) by (simp add: hs_open_output_file_def c fopen_output_def fopen_ae_def)
qed

lemma last_id_loop_Max: "last_id_loop es m = Max (insert m (ids_of es))"
proof (induction es arbitrary: m)
  case (Cons e es)
  show ?case
  proof (cases "extract_id e")
    case None
    with Cons show ?thesis by (simp add: ids_of_Cons)
  next
    case (Some c)
    have "Max (insert (if c > m then c else m) (ids_of es)) = Max (insert m (insert c (ids_of es)))"
      by (cases "ids_of es = {}") (auto simp: max_def)
    with Some Cons show ?thesis by (simp add: ids_of_Cons)
  qed
qed simp

lemma mkdir_frame:
  "mkdir fs d = Some fs' \<Longrightarrow> fs_files fs' = fs_files fs \<and> fs_denied fs' = fs_denied fs"
  by (auto simp: mkdir_def split: if_splits)

lemma extract_id_entry: "extract_id (dec (unat i) @ ''.log'') = Some i"
  using extract_id_file [OF unat_u64_less, of i] by simp

lemma log_file_listed:
  assumes "readdir fs dir = Some es" and "fs_get fs (log_name dir i) \<noteq> None"
  shows "i \<in> ids_of es"
proof -
  have "CHR ''/'' \<notin> set (dec (unat i) @ ''.log'')" by (simp add: digits_no_slash)
  from readdir_mem [OF assms(1) this] assms(2) have "dec (unat i) @ ''.log'' \<in> set es"
    by (simp add: log_name_def)
  then show ?thesis using extract_id_entry by (auto simp: ids_of_def)
qed

text \<open>\<open>find_last_id\<close> is an upper bound of the ids in use, in a directory that exists or is empty.\<close>

definition dir_coherent :: "fsys \<Rightarrow> string \<Rightarrow> bool" where
  "dir_coherent fs dir \<longleftrightarrow>
     dir \<in> set (fs_dirs fs) \<or> (\<forall>p \<in> set (map fst (fs_files fs)). take (length dir + 1) p \<noteq> dir @ ''/'')"

lemma find_last_id_bound:
  assumes "dir_coherent fs dir" and "find_last_id fs dir < i"
  shows "fs_get fs (log_name dir i) = None"
proof (rule ccontr)
  assume n: "fs_get fs (log_name dir i) \<noteq> None"
  show False
  proof (cases "readdir fs dir")
    case None
    from n have "log_name dir i \<in> set (map fst (fs_files fs))"
      by (auto simp: fs_get_def map_of_eq_None_iff)
    moreover have "take (length dir + 1) (log_name dir i) = dir @ ''/''"
      by (simp add: log_name_def)
    ultimately show False using None assms(1) by (auto simp: dir_coherent_def readdir_def)
  next
    case (Some es)
    have "i \<le> last_id_loop es 0"
      using log_file_listed [OF Some n] by (simp add: last_id_loop_Max)
    with assms(2) Some show False by (simp add: find_last_id_def)
  qed
qed

lemma hs_init_output_log:
  assumes "hs_init_output fs path subdir = Inr (fs', ob)"
  shows "cp_id (o_cp ob) = find_last_id fs (path @ ''/'' @ subdir) \<and>
     o_min_cp_id ob = cp_id (o_cp ob) \<and> o_path ob = path @ ''/'' @ subdir \<and>
     (\<forall>i. queue_log fs' ob i = file_bytes fs (log_name (path @ ''/'' @ subdir) i)) \<and>
     (dir_coherent fs (path @ ''/'' @ subdir) \<longrightarrow>
      int (length (queue_log fs' ob (cp_id (o_cp ob)))) < 2 ^ 64 \<longrightarrow> output_ok fs' ob)"
proof -
  let ?d = "path @ ''/'' @ subdir"
  let ?ob = "\<lparr>o_fh = None, o_buf = [], o_path = ?d, o_min_cp_id = find_last_id fs ?d,
      o_cp = \<lparr>cp_id = find_last_id fs ?d, cp_offset = 0\<rparr>\<rparr>"
  obtain fs1 fs2 where m: "mkdir fs path = Some fs1" "mkdir fs1 ?d = Some fs2"
    and o: "hs_open_output_file fs2 ?ob = Inr (fs', ob)"
    using assms by (auto simp: hs_init_output_def Let_def split: option.splits)
  have g: "fs_get fs2 = fs_get fs"
    using mkdir_frame [OF m(1)] mkdir_frame [OF m(2)] by (simp add: fs_get_def fun_eq_iff)
  note l = hs_open_output_file_log [OF o]
  have q: "queue_log fs2 ?ob i = file_bytes fs (log_name ?d i)" for i
    by (simp add: queue_log_def file_bytes_def g)
  have "output_ok fs' ob"
    if "dir_coherent fs ?d" "int (length (queue_log fs' ob (cp_id (o_cp ob)))) < 2 ^ 64"
  proof (rule hs_open_output_file_ok [OF o])
    show "int (length (queue_log fs2 ?ob (cp_id (o_cp ?ob)))) < 2 ^ 64"
      using that(2) l by simp
  qed (use find_last_id_bound [OF that(1)] g in auto)
  then show ?thesis using l q by simp
qed

section \<open>Two writers and one static buffer\<close>

text \<open>
  The input queue and the analysis queue each have a writer with a lock of its own, but
  \<open>hs_open_output_file\<close> formats both names in the same static buffer. A step is one half of the
  function, run under the lock of one of the two writers; the writers' streams are closed.
\<close>

datatype open_step = Format_name bool | Fopen_name bool  \<comment> \<open>true: the input queue's writer\<close>

record open_state =
  os_fqfn :: string
  os_fs :: fsys
  os_input :: hs_output
  os_analysis :: hs_output

fun run_open_step :: "open_step \<Rightarrow> open_state \<Rightarrow> hs_exit + open_state" where
  "run_open_step (Format_name inp) st =
     (case format_output_name (if inp then os_input st else os_analysis st) of
        None \<Rightarrow> Inl Path_too_long
      | Some fqfn \<Rightarrow> Inr (st\<lparr>os_fqfn := fqfn\<rparr>))"
| "run_open_step (Fopen_name inp) st =
     (case fopen_output (os_fqfn st) (os_fs st) (if inp then os_input st else os_analysis st) of
        Inl e \<Rightarrow> Inl e
      | Inr (fs', ob') \<Rightarrow>
          Inr (if inp then st\<lparr>os_fs := fs', os_input := ob'\<rparr>
               else st\<lparr>os_fs := fs', os_analysis := ob'\<rparr>))"

fun run_open_steps :: "open_step list \<Rightarrow> open_state \<Rightarrow> hs_exit + open_state" where
  "run_open_steps [] st = Inr st"
| "run_open_steps (e # es) st =
     (case run_open_step e st of Inl x \<Rightarrow> Inl x | Inr st' \<Rightarrow> run_open_steps es st')"

lemma fopen_output_fh:
  "fopen_output fqfn fs ob = Inr (fs', ob') \<Longrightarrow> o_fh ob' = Some fqfn"
  by (auto simp: fopen_output_def split: option.splits)

lemma format_output_name_Some:
  "format_output_name ob = Some p \<Longrightarrow> p = log_name (o_path ob) (cp_id (o_cp ob))"
  by (auto simp: format_output_name_def Let_def split: if_splits)

section \<open>Properties\<close>

text \<open>Starting the writer continues the queue where it ended: the current file is the one with
  the largest id in the directory (0 in an empty or missing one), no byte of any queue file
  changes, and the writer's offset is the end of the current file.\<close>

theorem hs_init_output_continues:
  assumes "hs_init_output fs path subdir = Inr (fs', ob)"
    and "dir_coherent fs (path @ ''/'' @ subdir)"
    and "int (length (file_bytes fs (log_name (path @ ''/'' @ subdir) (find_last_id fs (path @ ''/'' @ subdir))))) < 2 ^ 64"
  shows "output_ok fs' ob \<and> o_min_cp_id ob = cp_id (o_cp ob) \<and>
     (\<forall>i. file_bytes fs' (log_name (path @ ''/'' @ subdir) i) =
           file_bytes fs (log_name (path @ ''/'' @ subdir) i)) \<and>
     (\<forall>es. readdir fs (path @ ''/'' @ subdir) = Some es \<longrightarrow>
           cp_id (o_cp ob) = Max (insert 0 (ids_of es)))"
proof -
  note l = hs_init_output_log [OF assms(1)]
  have buf: "o_buf ob = []"
    using assms(1) by (auto simp: hs_init_output_def hs_open_output_file_def fopen_output_def
        Let_def split: option.splits prod.splits)
  have "file_bytes fs' (log_name (path @ ''/'' @ subdir) i) =
           file_bytes fs (log_name (path @ ''/'' @ subdir) i)" for i
    using l buf by (auto simp: queue_log_def split: if_splits)
  moreover have "cp_id (o_cp ob) = Max (insert 0 (ids_of es))"
    if "readdir fs (path @ ''/'' @ subdir) = Some es" for es
    using l that by (simp add: find_last_id_def last_id_loop_Max)
  ultimately show ?thesis using l assms(2,3) by simp
qed

theorem hs_init_output_continues_witness:
  "\<exists>fs' ob. hs_init_output \<lparr>fs_files = [(''o/input/2.log'', ''ab''), (''o/input/10.log'', ''xyz'')],
       fs_dirs = [''o'', ''o/input''], fs_denied = []\<rparr> ''o'' ''input'' = Inr (fs', ob) \<and>
     output_ok fs' ob \<and> cp_id (o_cp ob) = 10 \<and> cp_offset (o_cp ob) = 3"
proof -
  let ?fs = "\<lparr>fs_files = [(''o/input/2.log'', ''ab''), (''o/input/10.log'', ''xyz'')],
       fs_dirs = [''o'', ''o/input''], fs_denied = []\<rparr> :: fsys"
  let ?ob = "\<lparr>o_fh = Some ''o/input/10.log'', o_buf = [], o_path = ''o/input'', o_min_cp_id = 10,
      o_cp = \<lparr>cp_id = 10, cp_offset = 3\<rparr>\<rparr> :: hs_output"
  have run: "hs_init_output ?fs ''o'' ''input'' = Inr (?fs, ?ob)" by code_simp
  have "dir_coherent ?fs (''o'' @ ''/'' @ ''input'')" by code_simp
  moreover have "int (length (file_bytes ?fs (log_name (''o'' @ ''/'' @ ''input'')
      (find_last_id ?fs (''o'' @ ''/'' @ ''input''))))) < 2 ^ 64" by code_simp
  ultimately have "output_ok ?fs ?ob"
    by (rule hs_init_output_continues [OF run, THEN conjunct1])
  with run show ?thesis by auto
qed

text \<open>When the two queues roll at the same time the writers can end up on one file: with both
  names formatted before either file is opened, the input queue's writer opens the analysis
  queue's file and its messages go there; run one after the other each opens its own file.\<close>

theorem static_name_race:
  assumes "o_path (os_input st) \<noteq> o_path (os_analysis st)"
  shows "(run_open_steps [Format_name True, Format_name False, Fopen_name True, Fopen_name False] st = Inr st1 \<longrightarrow>
      o_fh (os_input st1) = Some (log_name (o_path (os_analysis st)) (cp_id (o_cp (os_analysis st)))) \<and>
      o_fh (os_analysis st1) = o_fh (os_input st1) \<and>
      o_fh (os_input st1) \<noteq> Some (log_name (o_path (os_input st)) (cp_id (o_cp (os_input st))))) \<and>
    (run_open_steps [Format_name True, Fopen_name True, Format_name False, Fopen_name False] st = Inr st2 \<longrightarrow>
      o_fh (os_input st2) = Some (log_name (o_path (os_input st)) (cp_id (o_cp (os_input st)))) \<and>
      o_fh (os_analysis st2) = Some (log_name (o_path (os_analysis st)) (cp_id (o_cp (os_analysis st)))))"
  using assms by (auto split: option.splits sum.splits dest!: fopen_output_fh format_output_name_Some)

theorem static_name_race_witness:
  "\<exists>st1. run_open_steps [Format_name True, Format_name False, Fopen_name True, Fopen_name False]
     \<lparr>os_fqfn = [], os_fs = \<lparr>fs_files = [], fs_dirs = [''o/input'', ''o/analysis''], fs_denied = []\<rparr>,
      os_input = \<lparr>o_fh = None, o_buf = [], o_path = ''o/input'', o_min_cp_id = 0, o_cp = \<lparr>cp_id = 4, cp_offset = 0\<rparr>\<rparr>,
      os_analysis = \<lparr>o_fh = None, o_buf = [], o_path = ''o/analysis'', o_min_cp_id = 0, o_cp = \<lparr>cp_id = 7, cp_offset = 0\<rparr>\<rparr>\<rparr> = Inr st1 \<and>
     o_fh (os_input st1) = o_fh (os_analysis st1)"
proof -
  let ?a = "\<lparr>o_fh = None, o_buf = [], o_path = ''o/input'', o_min_cp_id = 0, o_cp = \<lparr>cp_id = 4, cp_offset = 0\<rparr>\<rparr> :: hs_output"
  let ?b = "\<lparr>o_fh = None, o_buf = [], o_path = ''o/analysis'', o_min_cp_id = 0, o_cp = \<lparr>cp_id = 7, cp_offset = 0\<rparr>\<rparr> :: hs_output"
  let ?fs = "\<lparr>fs_files = [], fs_dirs = [''o/input'', ''o/analysis''], fs_denied = []\<rparr> :: fsys"
  let ?st = "\<lparr>os_fqfn = [], os_fs = ?fs, os_input = ?a, os_analysis = ?b\<rparr>"
  have ne: "o_path (os_input ?st) \<noteq> o_path (os_analysis ?st)" by simp
  have run: "run_open_steps [Format_name True, Format_name False, Fopen_name True, Fopen_name False] ?st =
     Inr \<lparr>os_fqfn = ''o/analysis/7.log'', os_fs = ?fs\<lparr>fs_files := [(''o/analysis/7.log'', [])]\<rparr>,
          os_input = ?a\<lparr>o_fh := Some ''o/analysis/7.log''\<rparr>, os_analysis = ?b\<lparr>o_fh := Some ''o/analysis/7.log''\<rparr>\<rparr>"
    by code_simp
  show ?thesis
    by (rule exI, rule conjI [OF run static_name_race [OF ne, THEN conjunct1, THEN mp, OF run,
        THEN conjunct2, THEN conjunct1, THEN sym]])
qed

end
