(* ===== verification/HS_Inject.thy ===== *)
theory HS_Inject
  imports HS_Output
begin

text \<open>
  What the three \<open>inject_message\<close> callbacks do under the lock of a queue's writer: frame the
  message, append it, roll to the next file at \<open>output_size\<close>, and apply or release
  backpressure. The code repeats this text in \<open>src/hs_input_plugins.c\<close>,
  \<open>src/hs_analysis_plugins.c\<close> and \<open>src/hs_output_plugins.c\<close>; the callbacks themselves are in
  the theories of those components. \<open>lsb_pb_output_varint\<close> is a parameter (\<open>varint\<close>), the
  clock, \<open>statfs\<close> and whether the device accepts the bytes come from an environment.
\<close>

section \<open>Framing\<close>

definition message_frame :: "(nat \<Rightarrow> string) \<Rightarrow> string \<Rightarrow> string" where
  "message_frame varint pb =
     (let v = varint (length pb) in
      [CHR 0x1E, char_of (length v + 1), CHR 0x08] @ v @ [CHR 0x1F] @ pb)"

text \<open>A varint of a 64-bit number has at most ten bytes, so the header fits its 14 bytes.\<close>

definition varint_ok :: "(nat \<Rightarrow> string) \<Rightarrow> bool" where
  "varint_ok varint \<longleftrightarrow> (\<forall>n. 1 \<le> length (varint n) \<and> length (varint n) \<le> 10)"

lemma length_message_frame [simp]:
  "length (message_frame varint pb) = 4 + length (varint (length pb)) + length pb"
  by (simp add: message_frame_def Let_def)

text \<open>\<open>int tlen = 4 + len + pb_len\<close>, then added to an \<open>unsigned long long\<close>.\<close>

definition tlen_of :: "nat \<Rightarrow> u64" where
  "tlen_of n = scast (ucast (word_of_nat n :: u64) :: u32)"

lemma tlen_of_small:
  assumes "n < 2 ^ 31"
  shows "tlen_of n = word_of_nat n"
proof -
  have "ucast (word_of_nat n :: u64) = (word_of_nat n :: u32)"
    using assms by (simp add: unsigned_of_nat take_bit_nat_eq_self)
  then show ?thesis
    using assms by (simp add: tlen_of_def signed_of_nat signed_take_bit_int_eq_self)
qed

section \<open>Appending and backpressure\<close>

record bp_state =
  bp_last_check :: int
  bp_on :: bool

record im_env =
  env_write :: bool
  env_statfs_roll :: "(u64 \<times> u64) option"
  env_statfs_release :: "(u64 \<times> u64) option"
  env_time1 :: int
  env_time2 :: int

definition roll_backpressure :: "hs_config \<Rightarrow> im_env \<Rightarrow> hs_output \<Rightarrow> bp_state \<Rightarrow> bp_state" where
  "roll_backpressure cfg env ob bp =
     (let bp1 = (if cfg_backpressure cfg \<noteq> 0
                    \<and> cp_id (o_cp ob) - o_min_cp_id ob > ucast (cfg_backpressure cfg)
                 then bp\<lparr>bp_on := True\<rparr> else bp)
      in if \<not> bp_on bp1 \<and> cfg_backpressure_df cfg \<noteq> 0
            \<and> hs_disk_free_ob (env_statfs_roll env) (cfg_output_size cfg) \<le> cfg_backpressure_df cfg
         then bp1\<lparr>bp_on := True\<rparr> else bp1)"

definition release_backpressure :: "hs_config \<Rightarrow> im_env \<Rightarrow> hs_output \<Rightarrow> bp_state \<Rightarrow> bp_state" where
  "release_backpressure cfg env ob bp =
     (if bp_on bp \<and> bp_last_check bp < env_time1 env then
        let bp1 = bp\<lparr>bp_last_check := env_time2 env\<rparr>;
            release_dfbp = (if cfg_backpressure_df cfg \<noteq> 0
              then hs_disk_free_ob (env_statfs_release env) (cfg_output_size cfg) > cfg_backpressure_df cfg
              else True)
        in if cp_id (o_cp ob) = o_min_cp_id ob \<and> release_dfbp then bp1\<lparr>bp_on := False\<rparr> else bp1
      else bp)"

definition write_frame :: "string \<Rightarrow> hs_output \<Rightarrow> hs_output" where
  "write_frame fr ob =
     ob\<lparr>o_buf := o_buf ob @ fr,
        o_cp := (o_cp ob)\<lparr>cp_offset := cp_offset (o_cp ob) + tlen_of (length fr)\<rparr>\<rparr>"

definition next_output_id :: "hs_output \<Rightarrow> hs_output" where
  "next_output_id ob = ob\<lparr>o_cp := (o_cp ob)\<lparr>cp_id := cp_id (o_cp ob) + 1\<rparr>\<rparr>"

text \<open>
  The critical section. \<open>fwrite(pb, pb_len, 1, fh)\<close> of an empty message returns 0, which the code
  treats as a write error and exits. The result's \<open>bp_on\<close> is the flag \<open>bp\<close> that makes the
  caller sleep.
\<close>

definition queue_message ::
    "(nat \<Rightarrow> string) \<Rightarrow> hs_config \<Rightarrow> im_env \<Rightarrow> string \<Rightarrow> fsys \<Rightarrow> hs_output \<Rightarrow> bp_state \<Rightarrow>
     hs_exit + (fsys \<times> hs_output \<times> bp_state)" where
  "queue_message varint cfg env pb fs ob bp =
     (if o_fh ob = None then Inl Undefined_behaviour
      else if env_write env \<and> pb \<noteq> [] then
        let ob1 = write_frame (message_frame varint pb) ob in
        (case (if cp_offset (o_cp ob1) \<ge> ucast (cfg_output_size cfg) then
                 (case hs_open_output_file fs (next_output_id ob1) of
                    Inl e \<Rightarrow> Inl e
                  | Inr (fs2, ob2) \<Rightarrow> Inr (fs2, ob2, roll_backpressure cfg env ob2 bp))
               else Inr (fs, ob1, bp)) of
           Inl e \<Rightarrow> Inl e
         | Inr (fs2, ob2, bp2) \<Rightarrow> Inr (fs2, ob2, release_backpressure cfg env ob2 bp2))
      else Inl Write_failed)"

section \<open>The writer appends whole messages\<close>

text \<open>What a message needs to fit: an \<open>int\<close> length, room in the 64-bit offset and file id.\<close>

definition message_fits :: "(nat \<Rightarrow> string) \<Rightarrow> fsys \<Rightarrow> hs_output \<Rightarrow> string \<Rightarrow> bool" where
  "message_fits varint fs ob pb \<longleftrightarrow>
     int (length pb) < 2 ^ 31 - 14 \<and> cp_id (o_cp ob) \<noteq> ULLONG_MAX \<and>
     int (length (queue_log fs ob (cp_id (o_cp ob)))) + int (length (message_frame varint pb)) < 2 ^ 64"

lemma write_frame_simps [simp]:
  "o_fh (write_frame fr ob) = o_fh ob" "o_path (write_frame fr ob) = o_path ob"
  "o_min_cp_id (write_frame fr ob) = o_min_cp_id ob"
  "cp_id (o_cp (write_frame fr ob)) = cp_id (o_cp ob)"
  "cp_offset (o_cp (write_frame fr ob)) = cp_offset (o_cp ob) + tlen_of (length fr)"
  by (simp_all add: write_frame_def)

lemma next_output_id_simps [simp]:
  "o_fh (next_output_id ob) = o_fh ob" "o_path (next_output_id ob) = o_path ob"
  "o_min_cp_id (next_output_id ob) = o_min_cp_id ob"
  "cp_id (o_cp (next_output_id ob)) = cp_id (o_cp ob) + 1"
  "queue_log fs (next_output_id ob) i = queue_log fs ob i"
  by (simp_all add: next_output_id_def queue_log_def)

lemma write_frame_log:
  "o_fh ob = Some (log_name (o_path ob) (cp_id (o_cp ob))) \<Longrightarrow>
   queue_log fs (write_frame fr ob) i =
     queue_log fs ob i @ (if i = cp_id (o_cp ob) then fr else [])"
  by (simp add: queue_log_def write_frame_def)

lemma frame_length_bound:
  "varint_ok varint \<Longrightarrow> int (length pb) < 2 ^ 31 - 14 \<Longrightarrow> length (message_frame varint pb) < 2 ^ 31"
proof -
  assume v: "varint_ok varint" and p: "int (length pb) < 2 ^ 31 - 14"
  from v have "length (varint (length pb)) \<le> 10" by (simp add: varint_ok_def)
  with p show ?thesis by simp
qed

lemma write_frame_ok:
  assumes "output_ok fs ob" and "varint_ok varint" and "message_fits varint fs ob pb"
  shows "output_ok fs (write_frame (message_frame varint pb) ob)"
proof -
  have "tlen_of (length (message_frame varint pb)) = word_of_nat (length (message_frame varint pb))"
    using frame_length_bound [OF assms(2)] assms(3) by (intro tlen_of_small) (simp add: message_fits_def)
  then show ?thesis using assms(1,3)
    by (simp add: output_ok_def write_frame_log message_fits_def)
qed

lemma id_less_succ: "(i :: u64) \<noteq> ULLONG_MAX \<Longrightarrow> i < i + 1"
proof -
  assume "i \<noteq> ULLONG_MAX"
  then have "unat i \<noteq> unat ULLONG_MAX" by (metis word_unat_eq_iff)
  then have "unat i + unat (1 :: u64) < 2 ^ 64"
    using unat_u64_less [of i] by simp
  from unat_plus_u64 [OF this] show ?thesis by (simp add: word_less_nat_alt)
qed

lemma release_backpressure_cases:
  "release_backpressure cfg env ob bp = bp' \<Longrightarrow> bp_on bp' \<longrightarrow> bp_on bp"
  by (auto simp: release_backpressure_def Let_def split: if_splits)

text \<open>One message, whether or not the file rolls after it.\<close>

lemma queue_message_log:
  assumes "output_ok fs ob" and "varint_ok varint" and "message_fits varint fs ob pb"
    and "queue_message varint cfg env pb fs ob bp = Inr (fs', ob', bp')"
  shows "output_ok fs' ob' \<and> o_path ob' = o_path ob \<and> o_min_cp_id ob' = o_min_cp_id ob \<and>
    fs_denied fs' = fs_denied fs \<and>
    cp_id (o_cp ob') = cp_id (o_cp ob) +
      (if cp_offset (o_cp (write_frame (message_frame varint pb) ob)) \<ge> ucast (cfg_output_size cfg)
       then 1 else 0) \<and>
    (\<forall>i. queue_log fs' ob' i =
       queue_log fs ob i @ (if i = cp_id (o_cp ob) then message_frame varint pb else []))"
proof -
  let ?fr = "message_frame varint pb"
  let ?ob1 = "write_frame ?fr ob"
  let ?id = "cp_id (o_cp ob)"
  have fh: "o_fh ob = Some (log_name (o_path ob) ?id)" using assms(1) by (simp add: output_ok_def)
  note ok1 = write_frame_ok [OF assms(1,2,3)]
  note log1 = write_frame_log [OF fh, of fs ?fr]
  have go: "env_write env \<and> pb \<noteq> []"
    using assms(4) fh by (auto simp: queue_message_def split: if_splits)
  show ?thesis
  proof (cases "cp_offset (o_cp ?ob1) \<ge> ucast (cfg_output_size cfg)")
    case False
    with assms(4) fh go have "fs' = fs" "ob' = ?ob1" by (auto simp: queue_message_def Let_def)
    with ok1 log1 False show ?thesis by simp
  next
    case True
    with assms(4) fh go obtain fs2 ob2
      where o: "hs_open_output_file fs (next_output_id ?ob1) = Inr (fs2, ob2)"
        and r: "fs' = fs2" "ob' = ob2"
      by (auto simp: queue_message_def Let_def split: sum.splits prod.splits)
    have id: "?id < ?id + 1"
      using assms(3) by (intro id_less_succ) (simp add: message_fits_def)
    have none: "fs_get fs (log_name (o_path ob) i) = None" if "?id < i" for i
      using assms(1) that by (simp add: output_ok_def)
    have ok: "output_ok fs2 ob2"
    proof (rule hs_open_output_file_ok [OF o])
      show "int (length (queue_log fs (next_output_id ?ob1) (cp_id (o_cp (next_output_id ?ob1))))) < 2 ^ 64"
        using none [OF id] id fh by (simp add: queue_log_def file_bytes_def)
    next
      fix i assume "cp_id (o_cp (next_output_id ?ob1)) < i"
      with id have "?id < i" by simp
      with none fh show "fs_get fs (log_name (o_path (next_output_id ?ob1)) i) = None \<and>
          o_fh (next_output_id ?ob1) \<noteq> Some (log_name (o_path (next_output_id ?ob1)) i)"
        by auto
    qed
    have l: "queue_log fs2 ob2 i = queue_log fs ?ob1 i \<and> o_path ob2 = o_path ob \<and>
        cp_id (o_cp ob2) = ?id + 1 \<and> o_min_cp_id ob2 = o_min_cp_id ob \<and> fs_denied fs2 = fs_denied fs" for i
      using hs_open_output_file_log [OF o, of i] by simp
    show ?thesis unfolding r using ok l log1 True by simp
  qed
qed

text \<open>The bytes of the queue from file \<open>base\<close> on, and one message's effect on them.\<close>

definition queue_stream :: "nat \<Rightarrow> fsys \<Rightarrow> hs_output \<Rightarrow> string" where
  "queue_stream base fs ob =
     concat (map (\<lambda>i. queue_log fs ob (word_of_nat i)) [base ..< Suc (unat (cp_id (o_cp ob)))])"

lemma queue_log_beyond:
  "output_ok fs ob \<Longrightarrow> cp_id (o_cp ob) < i \<Longrightarrow> queue_log fs ob i = []"
  by (auto simp: output_ok_def queue_log_def file_bytes_def)

lemma queue_message_stream:
  assumes "output_ok fs ob" and "varint_ok varint" and "message_fits varint fs ob pb"
    and "queue_message varint cfg env pb fs ob bp = Inr (fs', ob', bp')"
    and "base \<le> unat (cp_id (o_cp ob))"
  shows "queue_stream base fs' ob' = queue_stream base fs ob @ message_frame varint pb"
proof -
  note l = queue_message_log [OF assms(1-4)]
  let ?id = "cp_id (o_cp ob)"
  let ?n = "unat ?id"
  have log: "queue_log fs' ob' i = queue_log fs ob i @ (if i = ?id then message_frame varint pb else [])" for i
    using l by blast
  have same: "map (\<lambda>i. queue_log fs' ob' (word_of_nat i)) [base ..< ?n] =
      map (\<lambda>i. queue_log fs ob (word_of_nat i)) [base ..< ?n]"
  proof (rule map_cong [OF refl])
    fix i assume "i \<in> set [base ..< ?n]"
    then have "i < ?n" by simp
    then have "word_of_nat i \<noteq> ?id"
      using unat_u64_less [of ?id] unat_of_nat_u64 [of i] by (metis less_trans nat_neq_iff)
    then show "queue_log fs' ob' (word_of_nat i) = queue_log fs ob (word_of_nat i)"
      by (simp add: log)
  qed
  have upto: "concat (map (\<lambda>i. queue_log fs' ob' (word_of_nat i)) [base ..< Suc ?n]) =
      queue_stream base fs ob @ message_frame varint pb"
    unfolding queue_stream_def using assms(5) arg_cong [OF same, of concat] log [of ?id] by simp
  show ?thesis
  proof (cases "cp_id (o_cp ob') = ?id")
    case True
    then show ?thesis using upto by (simp add: queue_stream_def)
  next
    case False
    then have id': "cp_id (o_cp ob') = ?id + 1" using l by (auto split: if_splits)
    have lt: "?id < ?id + 1" using assms(3) by (intro id_less_succ) (simp add: message_fits_def)
    have n: "unat (?id + 1) = Suc ?n"
      using lt by (simp add: unatSuc word_less_nat_alt unat_word_ariths split: if_splits)
    have "queue_log fs' ob' (?id + 1) = []"
      using log [of "?id + 1"] queue_log_beyond [OF assms(1) lt] lt by simp
    moreover have "word_of_nat (Suc ?n) = ?id + 1" unfolding n [symmetric] by simp
    ultimately have "concat (map (\<lambda>i. queue_log fs' ob' (word_of_nat i)) [base ..< Suc (Suc ?n)]) =
        concat (map (\<lambda>i. queue_log fs' ob' (word_of_nat i)) [base ..< Suc ?n])"
      using assms(5) by (simp only: upt_Suc_append le_SucI map_append concat_append list.map
          concat.simps append_Nil2)
    then show ?thesis
      using upto unfolding queue_stream_def [of base fs' ob'] id' n by (simp only:)
  qed
qed

section \<open>A log that is appended to\<close>

text \<open>
  The contract between a producer of messages and the queue: a message that fits and is accepted
  is added whole at the end of the contents, and the invariant is kept.
\<close>

locale append_log =
  fixes put :: "'s \<Rightarrow> 'm \<Rightarrow> 's option"
    and contents :: "'s \<Rightarrow> 'b list"
    and enc :: "'m \<Rightarrow> 'b list"
    and inv :: "'s \<Rightarrow> bool"
    and fits :: "'s \<Rightarrow> 'm \<Rightarrow> bool"
  assumes put_inv: "inv s \<Longrightarrow> fits s m \<Longrightarrow> put s m = Some s' \<Longrightarrow> inv s'"
    and put_contents:
      "inv s \<Longrightarrow> fits s m \<Longrightarrow> put s m = Some s' \<Longrightarrow> contents s' = contents s @ enc m"
begin

fun put_all :: "'s \<Rightarrow> 'm list \<Rightarrow> 's option" where
  "put_all s [] = Some s"
| "put_all s (m # ms) = (case put s m of None \<Rightarrow> None | Some s' \<Rightarrow> put_all s' ms)"

fun fit_all :: "'s \<Rightarrow> 'm list \<Rightarrow> bool" where
  "fit_all s [] \<longleftrightarrow> True"
| "fit_all s (m # ms) \<longleftrightarrow> fits s m \<and> (case put s m of None \<Rightarrow> True | Some s' \<Rightarrow> fit_all s' ms)"

lemma put_all_contents:
  "inv s \<Longrightarrow> fit_all s ms \<Longrightarrow> put_all s ms = Some s' \<Longrightarrow>
   inv s' \<and> contents s' = contents s @ concat (map enc ms)"
proof (induction s ms rule: put_all.induct)
  case (2 s m ms)
  then obtain s1 where "put s m = Some s1" by (auto split: option.splits)
  with 2 put_inv [of s m s1] put_contents [of s m s1] show ?case by auto
qed simp

lemma put_all_append:
  "put_all s (ms @ ns) = (case put_all s ms of None \<Rightarrow> None | Some s' \<Rightarrow> put_all s' ns)"
  by (induction s ms rule: put_all.induct) (auto split: option.split)

end

type_synonym queue = "fsys \<times> hs_output \<times> bp_state"

text \<open>What the callbacks return to a sandbox: \<open>LSB_HEKA_IM_SUCCESS\<close>, \<open>_LIMIT\<close> and \<open>_CHECKPOINT\<close>.\<close>

datatype im_result = IM_Success | IM_Limit | IM_Checkpoint

definition queue_put ::
    "(nat \<Rightarrow> string) \<Rightarrow> hs_config \<Rightarrow> queue \<Rightarrow> im_env \<times> string \<Rightarrow> queue option" where
  "queue_put varint cfg q m =
     (case (q, m) of ((fs, ob, bp), (env, pb)) \<Rightarrow>
        (case queue_message varint cfg env pb fs ob bp of Inl _ \<Rightarrow> None | Inr q' \<Rightarrow> Some q'))"

definition queue_inv :: "(nat \<Rightarrow> string) \<Rightarrow> nat \<Rightarrow> queue \<Rightarrow> bool" where
  "queue_inv varint base q \<longleftrightarrow>
     (case q of (fs, ob, bp) \<Rightarrow>
        varint_ok varint \<and> output_ok fs ob \<and> base \<le> unat (cp_id (o_cp ob)))"

definition queue_contents :: "nat \<Rightarrow> queue \<Rightarrow> string" where
  "queue_contents base q = (case q of (fs, ob, bp) \<Rightarrow> queue_stream base fs ob)"

definition queue_fits :: "(nat \<Rightarrow> string) \<Rightarrow> queue \<Rightarrow> im_env \<times> string \<Rightarrow> bool" where
  "queue_fits varint q m = (case q of (fs, ob, bp) \<Rightarrow> message_fits varint fs ob (snd m))"

definition queue_enc :: "(nat \<Rightarrow> string) \<Rightarrow> im_env \<times> string \<Rightarrow> string" where
  "queue_enc varint m = message_frame varint (snd m)"

interpretation queue_writer: append_log "queue_put varint cfg" "queue_contents base"
    "queue_enc varint" "queue_inv varint base" "queue_fits varint"
  for varint :: "nat \<Rightarrow> string" and cfg :: hs_config and base :: nat
proof
  fix s m s'
  assume i: "queue_inv varint base s" and f: "queue_fits varint s m"
    and p: "queue_put varint cfg s m = Some s'"
  obtain fs ob bp env pb fs' ob' bp' where e: "s = (fs, ob, bp)" "m = (env, pb)" "s' = (fs', ob', bp')"
    by (metis prod.exhaust)
  from p e have q: "queue_message varint cfg env pb fs ob bp = Inr (fs', ob', bp')"
    by (auto simp: queue_put_def split: sum.splits)
  from i f e have h: "output_ok fs ob" "varint_ok varint" "message_fits varint fs ob pb"
    "base \<le> unat (cp_id (o_cp ob))"
    by (simp_all add: queue_inv_def queue_fits_def)
  note l = queue_message_log [OF h(1-3) q]
  have "unat (cp_id (o_cp ob)) < unat (cp_id (o_cp ob) + 1)"
    using h(3) by (simp add: message_fits_def id_less_succ flip: word_less_nat_alt)
  with l h(4) have "base \<le> unat (cp_id (o_cp ob'))" by auto
  with l h show "queue_inv varint base s'" by (simp add: queue_inv_def e)
  show "queue_contents base s' = queue_contents base s @ queue_enc varint m"
    using queue_message_stream [OF h(1-3) q h(4)] by (simp add: queue_contents_def queue_enc_def e)
qed

section \<open>What a reader can see\<close>

text \<open>The bytes on disk from file \<open>base\<close> on: the queue's bytes but for what stdio holds back.\<close>

definition disk_stream :: "nat \<Rightarrow> fsys \<Rightarrow> hs_output \<Rightarrow> string" where
  "disk_stream base fs ob =
     concat (map (\<lambda>i. file_bytes fs (log_name (o_path ob) (word_of_nat i)))
       [base ..< Suc (unat (cp_id (o_cp ob)))])"

lemma queue_stream_disk:
  assumes "output_ok fs ob" and "base \<le> unat (cp_id (o_cp ob))"
  shows "queue_stream base fs ob = disk_stream base fs ob @ o_buf ob"
proof -
  let ?n = "unat (cp_id (o_cp ob))"
  have fh: "o_fh ob = Some (log_name (o_path ob) (cp_id (o_cp ob)))"
    using assms(1) by (simp add: output_ok_def)
  have "map (\<lambda>i. queue_log fs ob (word_of_nat i)) [base ..< ?n] =
      map (\<lambda>i. file_bytes fs (log_name (o_path ob) (word_of_nat i))) [base ..< ?n]"
  proof (rule map_cong [OF refl])
    fix i assume "i \<in> set [base ..< ?n]"
    then have "word_of_nat i \<noteq> cp_id (o_cp ob)"
      using unat_u64_less [of "cp_id (o_cp ob)"] unat_of_nat_u64 [of i] by auto
    then show "queue_log fs ob (word_of_nat i) = file_bytes fs (log_name (o_path ob) (word_of_nat i))"
      using fh by (simp add: queue_log_def)
  qed
  from arg_cong [OF this, of concat] assms(2) fh show ?thesis
    by (simp add: queue_stream_def disk_stream_def queue_log_def)
qed

lemma flush_output_ok:
  assumes "output_ok fs ob" and "flush_output fs ob = (fs', ob')"
  shows "output_ok fs' ob' \<and> o_buf ob' = [] \<and> o_path ob' = o_path ob \<and> o_cp ob' = o_cp ob"
  using assms flush_output_log [OF assms(2)]
  by (auto simp: output_ok_def flush_output_def fs_append_get order_less_le split: option.splits)

lemma flush_output_stream:
  assumes "output_ok fs ob" and "base \<le> unat (cp_id (o_cp ob))"
    and "flush_output fs ob = (fs', ob')"
  shows "disk_stream base fs' ob' = queue_stream base fs ob"
proof -
  have "queue_stream base fs' ob' = queue_stream base fs ob"
    using flush_output_log [OF assms(3)] flush_output_ok [OF assms(1,3)]
    by (simp add: queue_stream_def)
  with queue_stream_disk [of fs' ob' base] flush_output_ok [OF assms(1,3)] assms(2)
  show ?thesis by simp
qed

section \<open>Backpressure\<close>

text \<open>A writer that is not throttled is at most \<open>backpressure\<close> files ahead of its slowest reader.\<close>

definition lag_ok :: "hs_config \<Rightarrow> hs_output \<Rightarrow> bp_state \<Rightarrow> bool" where
  "lag_ok cfg ob bp \<longleftrightarrow>
     cfg_backpressure cfg \<noteq> 0 \<longrightarrow> \<not> bp_on bp \<longrightarrow>
     cp_id (o_cp ob) - o_min_cp_id ob \<le> ucast (cfg_backpressure cfg)"

lemma roll_backpressure_lag: "lag_ok cfg ob (roll_backpressure cfg env ob bp)"
  by (auto simp: lag_ok_def roll_backpressure_def Let_def not_less)

lemma release_backpressure_lag:
  "lag_ok cfg ob bp \<Longrightarrow> lag_ok cfg ob (release_backpressure cfg env ob bp)"
  by (auto simp: lag_ok_def release_backpressure_def Let_def)

lemma release_backpressure_on:
  "bp_on bp \<Longrightarrow> \<not> bp_on (release_backpressure cfg env ob bp) \<Longrightarrow>
   cp_id (o_cp ob) = o_min_cp_id ob \<and> bp_last_check bp < env_time1 env \<and>
   (cfg_backpressure_df cfg \<noteq> 0 \<longrightarrow>
      hs_disk_free_ob (env_statfs_release env) (cfg_output_size cfg) > cfg_backpressure_df cfg)"
  by (auto simp: release_backpressure_def Let_def split: if_splits)

lemma roll_backpressure_keeps:
  "(bp_on bp \<longrightarrow> bp_on (roll_backpressure cfg env ob bp)) \<and>
   bp_last_check (roll_backpressure cfg env ob bp) = bp_last_check bp"
  by (auto simp: roll_backpressure_def Let_def)

text \<open>The last stage of an accepted message, with the writer's final id and bound.\<close>

lemma queue_message_bp:
  assumes "queue_message varint cfg env pb fs ob bp = Inr (fs', ob', bp')"
  shows "\<exists>bp2. bp' = release_backpressure cfg env ob' bp2 \<and>
    o_min_cp_id ob' = o_min_cp_id ob \<and>
    (bp2 = bp \<and> cp_id (o_cp ob') = cp_id (o_cp ob) \<or>
     bp2 = roll_backpressure cfg env ob' bp \<and> cp_id (o_cp ob') = cp_id (o_cp ob) + 1)"
proof (cases "cp_offset (o_cp (write_frame (message_frame varint pb) ob)) \<ge> ucast (cfg_output_size cfg)")
  case False
  with assms show ?thesis by (auto simp: queue_message_def Let_def split: if_splits)
next
  case True
  with assms obtain fs2 ob2
    where o: "hs_open_output_file fs (next_output_id (write_frame (message_frame varint pb) ob)) = Inr (fs2, ob2)"
      and r: "ob' = ob2" "bp' = release_backpressure cfg env ob2 (roll_backpressure cfg env ob2 bp)"
    by (auto simp: queue_message_def Let_def split: sum.splits prod.splits if_splits)
  have "o_min_cp_id ob2 = o_min_cp_id ob" "cp_id (o_cp ob2) = cp_id (o_cp ob) + 1"
    using hs_open_output_file_log [OF o] by simp_all
  with r show ?thesis by blast
qed

section \<open>Properties\<close>

text \<open>C10: one accepted message is appended whole to the file it was written for, and to no other,
  whether or not the queue rolls after it; the writer's id moves on exactly when the file reached
  \<open>output_size\<close>, and its offset is again the end of the current file.\<close>

theorem queue_message_appends:
  assumes "output_ok fs ob" and "varint_ok varint" and "message_fits varint fs ob pb"
    and "queue_message varint cfg env pb fs ob bp = Inr (fs', ob', bp')"
  shows "output_ok fs' ob' \<and>
    (\<forall>i. queue_log fs' ob' i =
       queue_log fs ob i @ (if i = cp_id (o_cp ob) then message_frame varint pb else [])) \<and>
    cp_id (o_cp ob') =
      (if int (length (queue_log fs ob (cp_id (o_cp ob)))) + int (length (message_frame varint pb))
            \<ge> uint (cfg_output_size cfg)
       then cp_id (o_cp ob) + 1 else cp_id (o_cp ob))"
proof -
  let ?fr = "message_frame varint pb" and ?q = "queue_log fs ob (cp_id (o_cp ob))"
  have "output_ok fs (write_frame ?fr ob)" by (rule write_frame_ok [OF assms(1,2,3)])
  moreover have "o_fh ob = Some (log_name (o_path ob) (cp_id (o_cp ob)))"
    using assms(1) by (simp add: output_ok_def)
  ultimately have off: "cp_offset (o_cp (write_frame ?fr ob)) = word_of_nat (length ?q + length ?fr)"
    using write_frame_log [of ob fs ?fr] by (simp add: output_ok_def)
  have "int (length ?q + length ?fr) < 2 ^ 64" using assms(3) by (simp add: message_fits_def)
  then have "unat (word_of_nat (length ?q + length ?fr) :: u64) = length ?q + length ?fr"
    by (intro unat_of_nat_u64) (simp only: int_less_pow)
  then have "ucast (cfg_output_size cfg) \<le> cp_offset (o_cp (write_frame ?fr ob)) \<longleftrightarrow>
      uint (cfg_output_size cfg) \<le> int (length ?q) + int (length ?fr)"
    unfolding off word_le_nat_alt unat_ucast_up_u32
    by (metis nat_le_iff of_nat_add of_nat_le_iff uint_nat)
  then show ?thesis using queue_message_log [OF assms] by simp
qed

theorem queue_message_appends_witness:
  "let ob = \<lparr>o_fh = Some ''o/3.log'', o_buf = ''yz'', o_path = ''o'', o_min_cp_id = 2,
              o_cp = \<lparr>cp_id = 3, cp_offset = 4\<rparr>\<rparr>;
       fs = \<lparr>fs_files = [(''o/3.log'', ''wx'')], fs_dirs = [''o''], fs_denied = []\<rparr>;
       env = \<lparr>env_write = True, env_statfs_roll = None, env_statfs_release = None, env_time1 = 0, env_time2 = 0\<rparr>
   in \<exists>fs' ob' bp'. queue_message (\<lambda>n. [char_of n]) ((init_config 1)\<lparr>cfg_output_size := 12\<rparr>) env ''abc'' fs ob
        \<lparr>bp_last_check = 0, bp_on = False\<rparr> = Inr (fs', ob', bp') \<and> output_ok fs' ob' \<and> cp_id (o_cp ob') = 4"
proof -
  let ?ob = "\<lparr>o_fh = Some ''o/3.log'', o_buf = ''yz'', o_path = ''o'', o_min_cp_id = 2,
              o_cp = \<lparr>cp_id = 3, cp_offset = 4\<rparr>\<rparr> :: hs_output"
  let ?fs = "\<lparr>fs_files = [(''o/3.log'', ''wx'')], fs_dirs = [''o''], fs_denied = []\<rparr> :: fsys"
  let ?env = "\<lparr>env_write = True, env_statfs_roll = None, env_statfs_release = None, env_time1 = 0, env_time2 = 0\<rparr> :: im_env"
  let ?v = "\<lambda>n. [char_of n]"
  let ?fr = "[CHR 0x1E, CHR 0x02, CHR 0x08, CHR 0x03, CHR 0x1F, CHR ''a'', CHR ''b'', CHR ''c'']"
  have run: "queue_message ?v ((init_config 1)\<lparr>cfg_output_size := 12\<rparr>) ?env ''abc'' ?fs ?ob
        \<lparr>bp_last_check = 0, bp_on = False\<rparr> =
      Inr (\<lparr>fs_files = [(''o/3.log'', ''wxyz'' @ ?fr), (''o/4.log'', [])], fs_dirs = [''o''], fs_denied = []\<rparr>,
           \<lparr>o_fh = Some ''o/4.log'', o_buf = [], o_path = ''o'', o_min_cp_id = 2, o_cp = \<lparr>cp_id = 4, cp_offset = 0\<rparr>\<rparr>,
           \<lparr>bp_last_check = 0, bp_on = True\<rparr>)"
    by code_simp
  have name: "log_name ''o'' 3 = ''o/3.log''" by code_simp
  have "fs_get ?fs (log_name ''o'' i) = None" if "3 < i" for i
  proof -
    from that have "log_name ''o'' i \<noteq> ''o/3.log''" unfolding name [symmetric] by auto
    then show ?thesis by (simp add: fs_get_def)
  qed
  then have ok: "output_ok ?fs ?ob"
    using name by (simp add: output_ok_def queue_log_def file_bytes_def fs_get_def)
  have v: "varint_ok ?v" by (simp add: varint_ok_def)
  have fit: "message_fits ?v ?fs ?ob ''abc''"
    using name by (simp add: message_fits_def queue_log_def file_bytes_def fs_get_def)
  note q = queue_message_appends [OF ok v fit run]
  show ?thesis
    unfolding Let_def by (intro exI conjI, rule run, rule q [THEN conjunct1]) simp
qed

text \<open>C5: any sequence of accepted messages reaches the queue in order and whole: the bytes of the
  queue grow by the frames' concatenation across however many files it takes, and after a flush
  all of it is on disk for the readers.\<close>

theorem queue_messages_in_order:
  assumes "output_ok fs ob" and "varint_ok varint" and "base \<le> unat (cp_id (o_cp ob))"
    and "queue_writer.fit_all varint cfg (fs, ob, bp) ms"
    and "queue_writer.put_all varint cfg (fs, ob, bp) ms = Some (fs', ob', bp')"
  shows "output_ok fs' ob' \<and>
    queue_stream base fs' ob' =
      queue_stream base fs ob @ concat (map (\<lambda>(env, pb). message_frame varint pb) ms) \<and>
    (\<forall>fs'' ob''. flush_output fs' ob' = (fs'', ob'') \<longrightarrow>
       disk_stream base fs'' ob'' =
         queue_stream base fs ob @ concat (map (\<lambda>(env, pb). message_frame varint pb) ms))"
proof -
  have inv: "queue_inv varint base (fs, ob, bp)" using assms(1-3) by (simp add: queue_inv_def)
  note q = queue_writer.put_all_contents [OF inv assms(4,5)]
  have enc: "map (queue_enc varint) ms = map (\<lambda>(env, pb). message_frame varint pb) ms"
    by (auto simp: queue_enc_def)
  from q have ok: "output_ok fs' ob'" "base \<le> unat (cp_id (o_cp ob'))"
    by (simp_all add: queue_inv_def)
  with q enc flush_output_stream [OF ok] show ?thesis
    by (simp add: queue_contents_def)
qed

lemma log_name_o3: "log_name ''o'' 3 = ''o/3.log''"
  by code_simp

lemma output_ok_single:
  assumes "log_name p i = q"
  shows "output_ok \<lparr>fs_files = [(q, c)], fs_dirs = ds, fs_denied = dn\<rparr>
     \<lparr>o_fh = Some q, o_buf = b, o_path = p, o_min_cp_id = m,
      o_cp = \<lparr>cp_id = i, cp_offset = word_of_nat (length c + length b)\<rparr>\<rparr> \<longleftrightarrow>
   int (length c + length b) < 2 ^ 64"
  unfolding assms [symmetric]
  by (auto simp: output_ok_def queue_log_def file_bytes_def fs_get_def order_less_le)

theorem queue_messages_in_order_witness:
  "let ob = \<lparr>o_fh = Some ''o/3.log'', o_buf = [], o_path = ''o'', o_min_cp_id = 2,
              o_cp = \<lparr>cp_id = 3, cp_offset = 0\<rparr>\<rparr>;
       fs = \<lparr>fs_files = [(''o/3.log'', [])], fs_dirs = [''o''], fs_denied = []\<rparr>;
       env = \<lparr>env_write = True, env_statfs_roll = None, env_statfs_release = None, env_time1 = 0, env_time2 = 0\<rparr>
   in \<exists>fs' ob' bp'. queue_writer.put_all (\<lambda>n. [char_of n]) ((init_config 1)\<lparr>cfg_output_size := 6\<rparr>)
        (fs, ob, \<lparr>bp_last_check = 0, bp_on = False\<rparr>) [(env, ''a''), (env, ''b'')] = Some (fs', ob', bp') \<and>
      queue_stream 3 fs' ob' =
        [CHR 0x1E, CHR 0x02, CHR 0x08, CHR 0x01, CHR 0x1F, CHR ''a'',
         CHR 0x1E, CHR 0x02, CHR 0x08, CHR 0x01, CHR 0x1F, CHR ''b'']"
proof -
  let ?ob = "\<lparr>o_fh = Some ''o/3.log'', o_buf = [], o_path = ''o'', o_min_cp_id = 2,
              o_cp = \<lparr>cp_id = 3, cp_offset = 0\<rparr>\<rparr> :: hs_output"
  let ?fs = "\<lparr>fs_files = [(''o/3.log'', [])], fs_dirs = [''o''], fs_denied = []\<rparr> :: fsys"
  let ?env = "\<lparr>env_write = True, env_statfs_roll = None, env_statfs_release = None, env_time1 = 0, env_time2 = 0\<rparr> :: im_env"
  let ?v = "\<lambda>n. [char_of n]" and ?bp = "\<lparr>bp_last_check = 0, bp_on = False\<rparr>"
  let ?cfg = "(init_config 1)\<lparr>cfg_output_size := 6\<rparr>"
  let ?ms = "[(?env, ''a''), (?env, ''b'')]"
  have ok: "output_ok ?fs ?ob"
    using output_ok_single [OF log_name_o3, of "[]" "[''o'']" "[]" "[]" 2] by simp
  have v: "varint_ok ?v" by (simp add: varint_ok_def)
  have base: "3 \<le> unat (cp_id (o_cp ?ob))" by simp
  let ?fr = "\<lambda>c. [CHR 0x1E, CHR 0x02, CHR 0x08, CHR 0x01, CHR 0x1F, c]"
  let ?ob1 = "?ob\<lparr>o_fh := Some ''o/4.log'', o_cp := \<lparr>cp_id = 4, cp_offset = 0\<rparr>\<rparr>"
  let ?fs1 = "?fs\<lparr>fs_files := [(''o/3.log'', ?fr CHR ''a''), (''o/4.log'', [])]\<rparr>"
  let ?bp1 = "\<lparr>bp_last_check = 0, bp_on = True\<rparr>"
  let ?ob2 = "?ob\<lparr>o_fh := Some ''o/5.log'', o_cp := \<lparr>cp_id = 5, cp_offset = 0\<rparr>\<rparr>"
  let ?fs2 = "?fs\<lparr>fs_files := [(''o/3.log'', ?fr CHR ''a''), (''o/4.log'', ?fr CHR ''b''), (''o/5.log'', [])]\<rparr>"
  have put1: "queue_put ?v ?cfg (?fs, ?ob, ?bp) (?env, ''a'') = Some (?fs1, ?ob1, ?bp1)"
    by code_simp
  have put2: "queue_put ?v ?cfg (?fs1, ?ob1, ?bp1) (?env, ''b'') = Some (?fs2, ?ob2, ?bp1)"
    by code_simp
  have "queue_fits ?v (?fs, ?ob, ?bp) (?env, ''a'')" "queue_fits ?v (?fs1, ?ob1, ?bp1) (?env, ''b'')"
    by code_simp+
  with put1 put2 have fit: "queue_writer.fit_all ?v ?cfg (?fs, ?ob, ?bp) ?ms"
    by (simp only: queue_writer.fit_all.simps option.case simp_thms)
  obtain fs' ob' bp' where res: "(fs', ob', bp') = (?fs2, ?ob2, ?bp1)" by blast
  have run: "queue_writer.put_all ?v ?cfg (?fs, ?ob, ?bp) ?ms = Some (fs', ob', bp')"
    unfolding res by (simp only: queue_writer.put_all.simps option.case put1 put2)
  note q = queue_messages_in_order [OF ok v base fit run]
  have "queue_stream 3 ?fs ?ob = []" "message_frame ?v ''a'' = ?fr CHR ''a''"
    "message_frame ?v ''b'' = ?fr CHR ''b''" by code_simp+
  with q have "queue_stream 3 fs' ob' =
        [CHR 0x1E, CHR 0x02, CHR 0x08, CHR 0x01, CHR 0x1F, CHR ''a'',
         CHR 0x1E, CHR 0x02, CHR 0x08, CHR 0x01, CHR 0x1F, CHR ''b'']"
    by simp
  with run show ?thesis unfolding Let_def by blast
qed



text \<open>While no reader reports a position for the queue (\<open>min_cp_id\<close> is \<open>ULLONG_MAX\<close>), the
  difference \<open>cp.id - min_cp_id\<close> wraps to \<open>cp.id + 1\<close>: the writer is throttled as soon as a roll
  takes its id to the limit, however little is queued, and once throttled it is never released.\<close>

theorem backpressure_without_reader:
  assumes "queue_message varint cfg env pb fs ob bp = Inr (fs', ob', bp')"
    and "o_min_cp_id ob = ULLONG_MAX" and "cp_id (o_cp ob') \<noteq> ULLONG_MAX"
  shows "(bp_on bp \<longrightarrow> bp_on bp') \<and>
    (cp_id (o_cp ob') \<noteq> cp_id (o_cp ob) \<and> cfg_backpressure cfg \<noteq> 0 \<and>
     ucast (cfg_backpressure cfg) \<le> cp_id (o_cp ob') \<longrightarrow> bp_on bp')"
proof -
  obtain bp2 where b: "bp' = release_backpressure cfg env ob' bp2" "o_min_cp_id ob' = o_min_cp_id ob"
    "bp2 = bp \<and> cp_id (o_cp ob') = cp_id (o_cp ob) \<or> bp2 = roll_backpressure cfg env ob' bp"
    using queue_message_bp [OF assms(1)] by blast
  have keep: "bp_on bp2 \<Longrightarrow> bp_on bp'"
    using release_backpressure_on [of bp2 cfg env ob'] b(1,2) assms(2,3) by auto
  have "bp_on bp2" if "cp_id (o_cp ob') \<noteq> cp_id (o_cp ob)" "cfg_backpressure cfg \<noteq> 0"
    "ucast (cfg_backpressure cfg) \<le> cp_id (o_cp ob')"
  proof -
    have "ucast (cfg_backpressure cfg) < cp_id (o_cp ob') + 1"
      using that(3) id_less_succ [OF assms(3)] by (rule order.strict_trans1)
    then have "ucast (cfg_backpressure cfg) < cp_id (o_cp ob') - o_min_cp_id ob'"
      using b(2) assms(2) by simp
    with that b(3) show ?thesis by (auto simp: roll_backpressure_def Let_def)
  qed
  moreover have "bp_on bp \<Longrightarrow> bp_on bp2" using b(3) roll_backpressure_keeps by blast
  ultimately show ?thesis using keep by blast
qed

theorem backpressure_without_reader_witness:
  "let ob = \<lparr>o_fh = Some ''o/3.log'', o_buf = [], o_path = ''o'', o_min_cp_id = ULLONG_MAX, o_cp = \<lparr>cp_id = 3, cp_offset = 0\<rparr>\<rparr>;
       fs = \<lparr>fs_files = [(''o/3.log'', [])], fs_dirs = [''o''], fs_denied = []\<rparr>;
       env = \<lparr>env_write = True, env_statfs_roll = None, env_statfs_release = None, env_time1 = 9, env_time2 = 9\<rparr>
   in \<exists>fs' ob' bp'. queue_message (\<lambda>n. [char_of n])
        ((init_config 1)\<lparr>cfg_output_size := 6, cfg_backpressure := 1, cfg_backpressure_df := 0\<rparr>)
        env ''a'' fs ob \<lparr>bp_last_check = 0, bp_on = True\<rparr> = Inr (fs', ob', bp') \<and> bp_on bp'"
proof -
  let ?ob = "\<lparr>o_fh = Some ''o/3.log'', o_buf = [], o_path = ''o'', o_min_cp_id = ULLONG_MAX, o_cp = \<lparr>cp_id = 3, cp_offset = 0\<rparr>\<rparr> :: hs_output"
  let ?fs = "\<lparr>fs_files = [(''o/3.log'', [])], fs_dirs = [''o''], fs_denied = []\<rparr> :: fsys"
  let ?env = "\<lparr>env_write = True, env_statfs_roll = None, env_statfs_release = None, env_time1 = 9, env_time2 = 9\<rparr> :: im_env"
  let ?cfg = "(init_config 1)\<lparr>cfg_output_size := 6, cfg_backpressure := 1, cfg_backpressure_df := 0\<rparr>"
  have run: "queue_message (\<lambda>n. [char_of n]) ?cfg ?env ''a'' ?fs ?ob \<lparr>bp_last_check = 0, bp_on = True\<rparr> =
      Inr (\<lparr>fs_files = [(''o/3.log'', [CHR 0x1E, CHR 0x02, CHR 0x08, CHR 0x01, CHR 0x1F, CHR ''a'']), (''o/4.log'', [])],
             fs_dirs = [''o''], fs_denied = []\<rparr>,
           \<lparr>o_fh = Some ''o/4.log'', o_buf = [], o_path = ''o'', o_min_cp_id = ULLONG_MAX, o_cp = \<lparr>cp_id = 4, cp_offset = 0\<rparr>\<rparr>,
           \<lparr>bp_last_check = 9, bp_on = True\<rparr>)"
    by code_simp
  have "o_min_cp_id ?ob = ULLONG_MAX" by simp
  note q = backpressure_without_reader [OF run this, THEN conjunct1]
  show ?thesis
    unfolding Let_def by (intro exI conjI, rule run, rule q [THEN mp]) simp_all
qed

end
