(* ===== verification/HS_Input.thy ===== *)
theory HS_Input
  imports HS_Inject
begin

text \<open>
  \<open>src/hs_input.c\<close>: a reader of a message queue. A reader's \<open>FILE\<close> is unbuffered: the path it
  was opened on and its position. The input buffer is the Lua sandbox library's: the code here
  reads and writes its fields, and grows it with \<open>lsb_expand_input_buffer\<close>, a parameter
  (\<open>expand\<close>) that returns \<open>None\<close> when the allocation fails.
\<close>

section \<open>State\<close>

record lsb_input_buffer =
  ib_buf :: string
  ib_size :: u64
  ib_msglen :: u64
  ib_scanpos :: u64
  ib_readpos :: u64

record hs_input =
  hsi_fh :: "(string \<times> u64) option"
  hsi_path :: string
  hsi_name :: string
  hsi_fn :: "string option"
  hsi_fn_size :: u64
  hsi_ib :: lsb_input_buffer
  hsi_cp :: hs_checkpoint

text \<open>The frame's record separator, length byte and unit separator.\<close>

definition LSB_HDR_FRAME_SIZE :: u64 where [simp]: "LSB_HDR_FRAME_SIZE = 3"

text \<open>A \<open>char\<close> converted to \<open>size_t\<close>: sign extended where \<open>char\<close> is signed.\<close>

definition char_to_size_t :: "char \<Rightarrow> u64" where
  "char_to_size_t c = scast (of_char c :: u8)"

section \<open>Operations\<close>

definition input_file_name :: "string \<Rightarrow> string \<Rightarrow> u64 \<Rightarrow> string" where
  "input_file_name path subdir i = log_name (path @ ''/'' @ subdir) i"

text \<open>The flag is the function's result; \<open>seek_ok\<close> says whether \<open>fseek\<close> succeeds.\<close>

definition hs_open_file ::
    "bool \<Rightarrow> fsys \<Rightarrow> hs_input \<Rightarrow> string \<Rightarrow> u64 \<Rightarrow> hs_exit + (bool \<times> hs_input)" where
  "hs_open_file seek_ok fs hsi subdir i =
     (let fqfn = input_file_name (hsi_path hsi) subdir i in
      if length fqfn > HS_MAX_PATH - 1 then Inl Path_too_long
      else if hsi_fn hsi = Some fqfn then Inr (True, hsi)
      else (case fopen_re fs fqfn of
              None \<Rightarrow> Inr (False, hsi)
            | Some _ \<Rightarrow>
                let pos = (if cp_id (hsi_cp hsi) = i \<and> cp_offset (hsi_cp hsi) \<noteq> 0 \<and> seek_ok
                           then cp_offset (hsi_cp hsi) else 0);
                    cp = (if cp_id (hsi_cp hsi) \<noteq> i then \<lparr>cp_id = i, cp_offset = 0\<rparr> else hsi_cp hsi)
                in Inr (True,
                     hsi\<lparr>hsi_fh := Some (fqfn, pos), hsi_cp := cp, hsi_fn := Some fqfn,
                         hsi_fn_size := (if word_of_nat (length fqfn) \<ge> hsi_fn_size hsi
                                         then word_of_nat (length fqfn + 1) else hsi_fn_size hsi)\<rparr>)))"

definition read_need :: "lsb_input_buffer \<Rightarrow> u64" where
  "read_need ib =
     (if ib_msglen ib \<noteq> 0 then
        ib_msglen ib + char_to_size_t (ib_buf ib ! (unat (ib_scanpos ib) + 1)) + LSB_HDR_FRAME_SIZE
          - (ib_readpos ib - ib_scanpos ib)
      else ib_scanpos ib + ib_size ib - ib_readpos ib)"

text \<open>\<open>fread\<close> of at most \<open>n\<close> bytes at a position of a file's contents.\<close>

definition fread :: "string \<Rightarrow> u64 \<Rightarrow> nat \<Rightarrow> string" where
  "fread c pos n = take n (drop (unat pos) c)"

definition buf_write :: "string \<Rightarrow> nat \<Rightarrow> string \<Rightarrow> string" where
  "buf_write buf pos d = take pos buf @ d @ drop (pos + length d) buf"

definition hs_read_file ::
    "(lsb_input_buffer \<Rightarrow> u64 \<Rightarrow> lsb_input_buffer option) \<Rightarrow> fsys \<Rightarrow> hs_input \<Rightarrow>
     hs_exit + (u64 \<times> hs_input)" where
  "hs_read_file expand fs hsi =
     (case expand (hsi_ib hsi) (read_need (hsi_ib hsi)) of
        None \<Rightarrow> Inl Realloc_failed
      | Some ib \<Rightarrow>
          (case hsi_fh hsi of
             None \<Rightarrow> Inl Undefined_behaviour
           | Some (p, pos) \<Rightarrow>
               let d = fread (file_bytes fs p) pos (unat (ib_size ib - ib_readpos ib));
                   nread = word_of_nat (length d)
               in Inr (nread,
                    hsi\<lparr>hsi_fh := Some (p, pos + nread),
                        hsi_cp := (hsi_cp hsi)\<lparr>cp_offset := cp_offset (hsi_cp hsi) + nread\<rparr>,
                        hsi_ib := ib\<lparr>ib_buf := buf_write (ib_buf ib) (unat (ib_readpos ib)) d,
                                     ib_readpos := ib_readpos ib + nread\<rparr>\<rparr>)))"

text \<open>\<open>lsb_init_input_buffer\<close> is a parameter too; \<open>init_ib\<close> gives the buffer it sets up.\<close>

definition hs_init_input ::
    "(u64 \<Rightarrow> lsb_input_buffer) \<Rightarrow> u64 \<Rightarrow> string \<Rightarrow> string \<Rightarrow> hs_exit + hs_input" where
  "hs_init_input init_ib max_message_size path name =
     (if length path > HS_MAX_PATH - 30 then Inl Path_too_long
      else Inr \<lparr>hsi_fh = None, hsi_path = path, hsi_name = name, hsi_fn = None, hsi_fn_size = 0,
                hsi_ib = init_ib max_message_size, hsi_cp = \<lparr>cp_id = 0, cp_offset = 0\<rparr>\<rparr>)"

definition hs_free_input :: "(lsb_input_buffer \<Rightarrow> lsb_input_buffer) \<Rightarrow> hs_input \<Rightarrow> hs_input" where
  "hs_free_input free_ib hsi =
     hsi\<lparr>hsi_fh := None, hsi_path := [], hsi_name := [], hsi_fn := None,
         hsi_ib := free_ib (hsi_ib hsi)\<rparr>"

section \<open>The window of unread bytes\<close>

text \<open>
  The bytes read and not yet consumed, a well-formed buffer, and what the code relies on of
  \<open>lsb_expand_input_buffer\<close>: it may move the unconsumed bytes, but neither loses nor changes
  them, and there is room for \<open>need\<close> more when that is a sensible size.
\<close>

definition window :: "lsb_input_buffer \<Rightarrow> string" where
  "window ib = take (unat (ib_readpos ib) - unat (ib_scanpos ib)) (drop (unat (ib_scanpos ib)) (ib_buf ib))"

definition ib_ok :: "lsb_input_buffer \<Rightarrow> bool" where
  "ib_ok ib \<longleftrightarrow>
     ib_scanpos ib \<le> ib_readpos ib \<and> ib_readpos ib \<le> ib_size ib \<and>
     length (ib_buf ib) = unat (ib_size ib)"

definition expand_ok :: "(lsb_input_buffer \<Rightarrow> u64 \<Rightarrow> lsb_input_buffer option) \<Rightarrow> bool" where
  "expand_ok expand \<longleftrightarrow>
     (\<forall>ib need ib'. ib_ok ib \<longrightarrow> expand ib need = Some ib' \<longrightarrow>
        ib_ok ib' \<and> window ib' = window ib \<and>
        int (unat need) \<le> int (unat (ib_size ib' - ib_readpos ib')))"

text \<open>
  The invariant of a reader over the contents of its open file: the position is the offset, and
  the window holds the bytes just before it. \<open>consumed\<close> is the position of the first byte not
  yet consumed: the one a thread records for its plugin.
\<close>

definition consumed :: "hs_input \<Rightarrow> u64" where
  "consumed hsi =
     cp_offset (hsi_cp hsi) - (ib_readpos (hsi_ib hsi) - ib_scanpos (hsi_ib hsi))"

definition reader_ok :: "fsys \<Rightarrow> hs_input \<Rightarrow> bool" where
  "reader_ok fs hsi \<longleftrightarrow>
     ib_ok (hsi_ib hsi) \<and>
     (case hsi_fh hsi of
        None \<Rightarrow> False
      | Some (p, pos) \<Rightarrow>
          hsi_fn hsi = Some p \<and> pos = cp_offset (hsi_cp hsi) \<and>
          int (length (file_bytes fs p)) < 2 ^ 64 \<and> unat pos \<le> length (file_bytes fs p) \<and>
          length (window (hsi_ib hsi)) \<le> unat pos \<and>
          window (hsi_ib hsi) =
            drop (unat pos - length (window (hsi_ib hsi))) (take (unat pos) (file_bytes fs p)))"

lemma reader_okD:
  assumes "reader_ok fs hsi" and "hsi_fh hsi = Some (p, pos)"
  shows "ib_ok (hsi_ib hsi)" and "hsi_fn hsi = Some p" and "pos = cp_offset (hsi_cp hsi)"
    and "int (length (file_bytes fs p)) < 2 ^ 64" and "unat pos \<le> length (file_bytes fs p)"
    and "length (window (hsi_ib hsi)) \<le> unat pos"
    and "window (hsi_ib hsi) =
      drop (unat pos - length (window (hsi_ib hsi))) (take (unat pos) (file_bytes fs p))"
  using assms by (auto simp: reader_ok_def)

lemma reader_okI:
  "hsi_fh hsi = Some (p, pos) \<Longrightarrow> ib_ok (hsi_ib hsi) \<Longrightarrow> hsi_fn hsi = Some p \<Longrightarrow>
   pos = cp_offset (hsi_cp hsi) \<Longrightarrow> int (length (file_bytes fs p)) < 2 ^ 64 \<Longrightarrow>
   unat pos \<le> length (file_bytes fs p) \<Longrightarrow> length (window (hsi_ib hsi)) \<le> unat pos \<Longrightarrow>
   window (hsi_ib hsi) =
     drop (unat pos - length (window (hsi_ib hsi))) (take (unat pos) (file_bytes fs p)) \<Longrightarrow>
   reader_ok fs hsi"
  by (simp add: reader_ok_def)

lemma length_window:
  "ib_ok ib \<Longrightarrow> length (window ib) = unat (ib_readpos ib) - unat (ib_scanpos ib)"
  by (auto simp: window_def ib_ok_def word_le_nat_alt min_def)

lemma length_window_word:
  "ib_ok ib \<Longrightarrow> length (window ib) = unat (ib_readpos ib - ib_scanpos ib)"
  by (simp add: length_window ib_ok_def unat_sub)

lemma consumed_unat:
  assumes "reader_ok fs hsi"
  shows "unat (consumed hsi) = unat (cp_offset (hsi_cp hsi)) - length (window (hsi_ib hsi))"
proof -
  have i: "ib_ok (hsi_ib hsi)" and l: "length (window (hsi_ib hsi)) \<le> unat (cp_offset (hsi_cp hsi))"
    using assms by (auto simp: reader_ok_def split: option.splits)
  have "ib_readpos (hsi_ib hsi) - ib_scanpos (hsi_ib hsi) \<le> cp_offset (hsi_cp hsi)"
    using l length_window_word [OF i] by (simp add: word_le_nat_alt)
  then show ?thesis
    using length_window_word [OF i] by (simp add: consumed_def unat_sub)
qed

lemma length_buf_write:
  "pos + length d \<le> length buf \<Longrightarrow> length (buf_write buf pos d) = length buf"
  by (simp add: buf_write_def)

lemma window_buf_write:
  assumes "ib_ok ib" and "unat (ib_readpos ib) + length d \<le> unat (ib_size ib)"
  shows "window (ib\<lparr>ib_buf := buf_write (ib_buf ib) (unat (ib_readpos ib)) d,
                    ib_readpos := ib_readpos ib + word_of_nat (length d)\<rparr>) = window ib @ d"
    and "ib_ok (ib\<lparr>ib_buf := buf_write (ib_buf ib) (unat (ib_readpos ib)) d,
                    ib_readpos := ib_readpos ib + word_of_nat (length d)\<rparr>)"
proof -
  have le: "unat (ib_scanpos ib) \<le> unat (ib_readpos ib)" "unat (ib_readpos ib) \<le> length (ib_buf ib)"
    using assms(1) by (auto simp: ib_ok_def word_le_nat_alt)
  have d: "unat (word_of_nat (length d) :: u64) = length d"
    using assms(2) unat_u64_less [of "ib_size ib"] by (intro unat_of_nat_u64) linarith
  then have n: "unat (ib_readpos ib + word_of_nat (length d)) = unat (ib_readpos ib) + length d"
    using assms(2) unat_u64_less [of "ib_size ib"] by (subst unat_plus_u64) auto
  show "window (ib\<lparr>ib_buf := buf_write (ib_buf ib) (unat (ib_readpos ib)) d,
                    ib_readpos := ib_readpos ib + word_of_nat (length d)\<rparr>) = window ib @ d"
    using le by (simp add: window_def buf_write_def n Suc_diff_le take_append drop_take)
  show "ib_ok (ib\<lparr>ib_buf := buf_write (ib_buf ib) (unat (ib_readpos ib)) d,
                    ib_readpos := ib_readpos ib + word_of_nat (length d)\<rparr>)"
    using assms le by (simp add: ib_ok_def word_le_nat_alt n length_buf_write)
qed

text \<open>Reading moves the position and the window's end together.\<close>

lemma hs_read_file_ok:
  assumes "reader_ok fs hsi" and "expand_ok expand"
    and "hs_read_file expand fs hsi = Inr (nread, hsi')" and "hsi_fh hsi = Some (p, pos)"
  shows "reader_ok fs hsi' \<and> consumed hsi' = consumed hsi \<and>
    unat nread \<le> length (file_bytes fs p) - unat pos \<and>
    window (hsi_ib hsi') = window (hsi_ib hsi) @ take (unat nread) (drop (unat pos) (file_bytes fs p)) \<and>
    hsi_fh hsi' = Some (p, pos + nread) \<and> cp_id (hsi_cp hsi') = cp_id (hsi_cp hsi)"
proof -
  let ?c = "file_bytes fs p"
  obtain ib where e: "expand (hsi_ib hsi) (read_need (hsi_ib hsi)) = Some ib"
    using assms(3) by (auto simp: hs_read_file_def split: option.splits)
  have ok: "ib_ok (hsi_ib hsi)" and pos: "pos = cp_offset (hsi_cp hsi)" "unat pos \<le> length ?c"
    "int (length ?c) < 2 ^ 64" and fn: "hsi_fn hsi = Some p"
    and wl: "length (window (hsi_ib hsi)) \<le> unat pos"
    and w: "window (hsi_ib hsi) = drop (unat pos - length (window (hsi_ib hsi))) (take (unat pos) ?c)"
    using assms(1,4) by (auto simp: reader_ok_def)
  have ib: "ib_ok ib" "window ib = window (hsi_ib hsi)"
    using assms(2) ok e by (auto simp: expand_ok_def)
  define d where "d = fread ?c pos (unat (ib_size ib - ib_readpos ib))"
  have hsi': "hsi' = hsi\<lparr>hsi_fh := Some (p, pos + word_of_nat (length d)),
      hsi_cp := (hsi_cp hsi)\<lparr>cp_offset := cp_offset (hsi_cp hsi) + word_of_nat (length d)\<rparr>,
      hsi_ib := ib\<lparr>ib_buf := buf_write (ib_buf ib) (unat (ib_readpos ib)) d,
                   ib_readpos := ib_readpos ib + word_of_nat (length d)\<rparr>\<rparr>"
    and nread: "nread = word_of_nat (length d)"
    using assms(3,4) e by (auto simp: hs_read_file_def d_def Let_def)
  have rs: "unat (ib_readpos ib) + length d \<le> unat (ib_size ib)"
    using ib(1) by (auto simp: d_def fread_def ib_ok_def unat_sub word_le_nat_alt min_def)
  have dl: "length d \<le> length ?c - unat pos"
    and dd: "d = take (length d) (drop (unat pos) ?c)"
    by (auto simp: d_def fread_def min_def)
  have "unat pos + length d \<le> length ?c" using dl pos(2) by linarith
  moreover have "length ?c < 2 ^ 64" using pos(3) by (simp only: int_less_pow)
  ultimately have b: "unat pos + length d < 2 ^ 64" by (rule order.strict_trans1)
  then have du: "unat (word_of_nat (length d) :: u64) = length d"
    by (intro unat_of_nat_u64) simp
  have pu: "unat (pos + word_of_nat (length d)) = unat pos + length d"
    using b du by (subst unat_plus_u64) auto
  note win = window_buf_write [OF ib(1) rs]
  have w': "window (hsi_ib hsi') = window (hsi_ib hsi) @ d"
    using win(1) ib(2) by (simp add: hsi')
  have tk: "take (unat pos + length d) ?c = take (unat pos) ?c @ d"
    using dd by (metis take_add)
  have slice: "window (hsi_ib hsi) @ d =
      drop (unat pos + length d - length (window (hsi_ib hsi) @ d)) (take (unat pos + length d) ?c)"
  proof -
    have "unat pos + length d - length (window (hsi_ib hsi) @ d) = unat pos - length (window (hsi_ib hsi))"
      by simp
    moreover have "length (take (unat pos) ?c) = unat pos" using pos(2) by simp
    ultimately show ?thesis using w wl unfolding tk by (simp add: drop_append)
  qed
  have ok': "reader_ok fs hsi'"
    using win(2) fn pos pu slice w' dl wl by (simp add: reader_ok_def hsi')
  have "unat (consumed hsi') = unat (consumed hsi)"
    using consumed_unat [OF ok'] consumed_unat [OF assms(1)] w' pos(1) pu
    by (simp add: hsi')
  then have "consumed hsi' = consumed hsi" by (simp add: word_unat_eq_iff)
  then show ?thesis using ok' w' dd dl du by (simp add: nread hsi')
qed

text \<open>
  \<open>lsb_find_heka_message\<close>, called by the reading threads, moves the scan position over the bytes
  it consumes and keeps the rest: what the code relies on of it for the positions it saves.
\<close>

definition scan_step :: "lsb_input_buffer \<Rightarrow> lsb_input_buffer \<Rightarrow> nat \<Rightarrow> bool" where
  "scan_step ib ib' k \<longleftrightarrow>
     ib_ok ib' \<and> k \<le> length (window ib) \<and> window ib' = drop k (window ib)"

lemma scan_step_ok:
  assumes "reader_ok fs hsi" and "scan_step (hsi_ib hsi) ib' k"
  shows "reader_ok fs (hsi\<lparr>hsi_ib := ib'\<rparr>) \<and>
    unat (consumed (hsi\<lparr>hsi_ib := ib'\<rparr>)) = unat (consumed hsi) + k"
proof -
  obtain p pos where fh: "hsi_fh hsi = Some (p, pos)"
    using assms(1) by (auto simp: reader_ok_def split: option.splits)
  let ?w = "window (hsi_ib hsi)"
  have k: "k \<le> length ?w" and w': "window ib' = drop k ?w" and o: "ib_ok ib'"
    using assms(2) by (simp_all add: scan_step_def)
  have wl: "length ?w \<le> unat pos" and w: "?w = drop (unat pos - length ?w) (take (unat pos) (file_bytes fs p))"
    and pos: "pos = cp_offset (hsi_cp hsi)" "unat pos \<le> length (file_bytes fs p)"
      "int (length (file_bytes fs p)) < 2 ^ 64" "hsi_fn hsi = Some p"
    using assms(1) fh by (auto simp: reader_ok_def)
  have len: "length (window ib') = length ?w - k" by (simp only: w' length_drop)
  have "drop k ?w = drop (k + (unat pos - length ?w)) (take (unat pos) (file_bytes fs p))"
    using arg_cong [OF w, of "drop k"] by (simp only: drop_drop)
  moreover have "k + (unat pos - length ?w) = unat pos - (length ?w - k)" using k wl by simp
  ultimately have slice: "window ib' = drop (unat pos - length (window ib')) (take (unat pos) (file_bytes fs p))"
    unfolding len by (simp only: w')
  have "length (window ib') \<le> unat pos" using len wl by linarith
  then have ok: "reader_ok fs (hsi\<lparr>hsi_ib := ib'\<rparr>)"
    using fh o pos(2-4) slice by (simp add: reader_ok_def pos(1))
  have "unat (consumed (hsi\<lparr>hsi_ib := ib'\<rparr>)) = unat pos - (length ?w - k)"
    using consumed_unat [OF ok] w' pos(1) by simp
  moreover have "unat (consumed hsi) = unat pos - length ?w"
    using consumed_unat [OF assms(1)] pos(1) by simp
  ultimately show ?thesis using ok k wl by simp
qed

section \<open>A reader's run over one file\<close>

text \<open>
  The steps of a reader between two file changes, with the bytes it hands to its consumer: it
  reads, the scan for a message consumes some bytes, and the writer appends to the queue.
\<close>

inductive reader_steps ::
    "(lsb_input_buffer \<Rightarrow> u64 \<Rightarrow> lsb_input_buffer option) \<Rightarrow> fsys \<times> hs_input \<Rightarrow> string \<Rightarrow>
     fsys \<times> hs_input \<Rightarrow> bool"
  for expand where
  steps_done: "reader_steps expand s [] s"
| steps_read:
    "hs_read_file expand fs hsi = Inr (nread, hsi1) \<Longrightarrow> reader_steps expand (fs, hsi1) out s' \<Longrightarrow>
     reader_steps expand (fs, hsi) out s'"
| steps_scan:
    "scan_step (hsi_ib hsi) ib1 k \<Longrightarrow> reader_steps expand (fs, hsi\<lparr>hsi_ib := ib1\<rparr>) out s' \<Longrightarrow>
     reader_steps expand (fs, hsi) (take k (window (hsi_ib hsi)) @ out) s'"
| steps_grow:
    "\<forall>p. \<exists>x. file_bytes fs1 p = file_bytes fs p @ x \<and> int (length (file_bytes fs p @ x)) < 2 ^ 64 \<Longrightarrow>
     reader_steps expand (fs1, hsi) out s' \<Longrightarrow> reader_steps expand (fs, hsi) out s'"

lemma reader_ok_grow:
  assumes "reader_ok fs hsi"
    and "\<forall>p. \<exists>x. file_bytes fs1 p = file_bytes fs p @ x \<and> int (length (file_bytes fs p @ x)) < 2 ^ 64"
  shows "reader_ok fs1 hsi"
proof -
  obtain p pos where fh: "hsi_fh hsi = Some (p, pos)"
    using assms(1) by (auto simp: reader_ok_def split: option.splits)
  obtain x where x: "file_bytes fs1 p = file_bytes fs p @ x" "int (length (file_bytes fs p @ x)) < 2 ^ 64"
    using assms(2) by blast
  note r = reader_okD [OF assms(1) fh]
  have "take (unat pos) (file_bytes fs1 p) = take (unat pos) (file_bytes fs p)"
    using r(5) by (simp add: x(1))
  moreover have "length (file_bytes fs p) \<le> length (file_bytes fs1 p)" by (simp add: x(1))
  ultimately show ?thesis
    using r x(2) by (intro reader_okI [OF fh]) (simp_all only: x(1) [symmetric])
qed

text \<open>The open file's contents at and after the consumed position start with the window.\<close>

lemma window_at_consumed:
  assumes "reader_ok fs hsi" and "hsi_fh hsi = Some (p, pos)"
  shows "take (length (window (hsi_ib hsi))) (drop (unat (consumed hsi)) (file_bytes fs p)) =
         window (hsi_ib hsi)"
proof -
  let ?w = "window (hsi_ib hsi)" and ?c = "file_bytes fs p"
  have wl: "length ?w \<le> unat pos" and w: "?w = drop (unat pos - length ?w) (take (unat pos) ?c)"
    and pos: "pos = cp_offset (hsi_cp hsi)"
    using assms by (auto simp: reader_ok_def)
  have "drop (unat pos - length ?w) (take (unat pos) ?c) = take (length ?w) (drop (unat pos - length ?w) ?c)"
    using wl by (simp only: drop_take diff_diff_cancel)
  then show ?thesis using w consumed_unat [OF assms(1)] pos by simp
qed

lemma reader_steps_bytes:
  assumes "reader_steps expand s out s'" and "expand_ok expand"
  shows "s = (fs, hsi) \<Longrightarrow> reader_ok fs hsi \<Longrightarrow> hsi_fh hsi = Some (p, pos) \<Longrightarrow>
    \<exists>fs' hsi' pos'. s' = (fs', hsi') \<and> reader_ok fs' hsi' \<and> hsi_fh hsi' = Some (p, pos') \<and>
      cp_id (hsi_cp hsi') = cp_id (hsi_cp hsi) \<and>
      unat (consumed hsi') = unat (consumed hsi) + length out \<and>
      out = take (length out) (drop (unat (consumed hsi)) (file_bytes fs' p)) \<and>
      (\<exists>x. file_bytes fs' p = file_bytes fs p @ x)"
  using assms(1)
proof (induction arbitrary: fs hsi pos rule: reader_steps.induct)
  case (steps_read fs0 hsi0 nread hsi1 out s' fs hsi pos)
  then have e: "fs0 = fs" "hsi0 = hsi" by auto
  note r = hs_read_file_ok [OF steps_read.prems(2) assms(2) steps_read.hyps(1) [unfolded e] steps_read.prems(3)]
  then have "reader_ok fs hsi1" "hsi_fh hsi1 = Some (p, pos + nread)" "(fs0, hsi1) = (fs, hsi1)"
    using e by auto
  from steps_read.IH [OF this(3,1,2)] r show ?case by simp
next
  case (steps_scan hsi0 ib1 k fs0 out s' fs hsi pos)
  then have e: "fs0 = fs" "hsi0 = hsi" by auto
  let ?h = "hsi\<lparr>hsi_ib := ib1\<rparr>" and ?w = "window (hsi_ib hsi)"
  have sc: "scan_step (hsi_ib hsi) ib1 k" using steps_scan.hyps(1) e by simp
  note k = scan_step_ok [OF steps_scan.prems(2) sc]
  have kw: "k \<le> length ?w" using sc by (simp add: scan_step_def)
  from steps_scan.IH [of fs ?h pos] k steps_scan.prems(3) e
  obtain fs' hsi' pos' x where i: "s' = (fs', hsi')" "reader_ok fs' hsi'" "hsi_fh hsi' = Some (p, pos')"
    "cp_id (hsi_cp hsi') = cp_id (hsi_cp hsi)"
    "unat (consumed hsi') = unat (consumed hsi) + k + length out"
    "out = take (length out) (drop (unat (consumed hsi) + k) (file_bytes fs' p))"
    "file_bytes fs' p = file_bytes fs p @ x"
    by auto
  let ?d = "drop (unat (consumed hsi)) (file_bytes fs' p)"
  have "take k ?w = take k (drop (unat (consumed hsi)) (file_bytes fs p))"
    using window_at_consumed [OF steps_scan.prems(2,3)] kw by (metis min.absorb1 take_take)
  moreover have "unat (consumed hsi) + k \<le> length (file_bytes fs p)"
    using consumed_unat [OF steps_scan.prems(2)] steps_scan.prems(2,3) kw
    by (auto simp: reader_ok_def)
  ultimately have t: "take k ?w = take k ?d"
    using i(7) by simp
  have "take (k + length out) ?d = take k ?d @ take (length out) (drop k ?d)"
    by (rule take_add)
  also have "drop k ?d = drop (unat (consumed hsi) + k) (file_bytes fs' p)"
    by (simp add: add.commute)
  finally have "take k ?w @ out = take (k + length out) ?d" using i(6) t by simp
  moreover have "length (take k ?w @ out) = k + length out" using kw by simp
  ultimately show ?case using i e by auto
next
  case (steps_grow fs1 fs0 hsi0 out s' fs hsi pos)
  then have e: "fs0 = fs" "hsi0 = hsi" by auto
  have g: "\<forall>p. \<exists>x. file_bytes fs1 p = file_bytes fs p @ x \<and> int (length (file_bytes fs p @ x)) < 2 ^ 64"
    using steps_grow.hyps(1) e by simp
  from steps_grow.IH [of fs1 hsi pos] reader_ok_grow [OF steps_grow.prems(2) g] steps_grow.prems(3) e
  obtain fs' hsi' pos' x where i: "s' = (fs', hsi')" "reader_ok fs' hsi'" "hsi_fh hsi' = Some (p, pos')"
    "cp_id (hsi_cp hsi') = cp_id (hsi_cp hsi)"
    "unat (consumed hsi') = unat (consumed hsi) + length out"
    "out = take (length out) (drop (unat (consumed hsi)) (file_bytes fs' p))"
    "file_bytes fs' p = file_bytes fs1 p @ x"
    by blast
  moreover obtain y where "file_bytes fs1 p = file_bytes fs p @ y" using g by blast
  ultimately have "file_bytes fs' p = file_bytes fs p @ (y @ x)" by simp
  with i show ?case by blast
qed auto

section \<open>Opening a file\<close>

lemma hs_open_file_fresh:
  assumes "ib_ok (hsi_ib hsi)" and "window (hsi_ib hsi) = []" and "hsi_fn hsi = None"
    and "fopen_re fs (input_file_name (hsi_path hsi) subdir i) = Some c"
    and "length (input_file_name (hsi_path hsi) subdir i) < HS_MAX_PATH"
    and "cp_id (hsi_cp hsi) = i" and "unat (cp_offset (hsi_cp hsi)) \<le> length c"
    and "int (length c) < 2 ^ 64"
  shows "\<exists>hsi'. hs_open_file True fs hsi subdir i = Inr (True, hsi') \<and> reader_ok fs hsi' \<and>
    hsi_fh hsi' = Some (input_file_name (hsi_path hsi) subdir i, cp_offset (hsi_cp hsi)) \<and>
    consumed hsi' = cp_offset (hsi_cp hsi) \<and> hsi_cp hsi' = hsi_cp hsi"
proof -
  have c: "file_bytes fs (input_file_name (hsi_path hsi) subdir i) = c"
    using assms(4) by (simp add: fopen_re_def file_bytes_def split: if_splits)
  have "unat (ib_readpos (hsi_ib hsi) - ib_scanpos (hsi_ib hsi)) = 0"
    using length_window_word [OF assms(1)] assms(2) by simp
  then have "ib_readpos (hsi_ib hsi) - ib_scanpos (hsi_ib hsi) = 0" by (simp add: unat_eq_0)
  with assms c show ?thesis
    by (simp add: hs_open_file_def Let_def reader_ok_def consumed_def)
qed

section \<open>Properties\<close>

text \<open>C11: a reader loses, repeats and reorders nothing: over any run of reads and message scans on
  one queue file, while the writer appends to it, the bytes handed over are exactly the file's
  bytes from the position recorded before the run to the position recorded after it.\<close>

theorem reader_delivers_file:
  assumes "reader_ok fs hsi" and "expand_ok expand" and "hsi_fh hsi = Some (p, pos)"
    and "reader_steps expand (fs, hsi) out (fs', hsi')"
  shows "reader_ok fs' hsi' \<and> cp_id (hsi_cp hsi') = cp_id (hsi_cp hsi) \<and>
    unat (consumed hsi') = unat (consumed hsi) + length out \<and>
    out = take (length out) (drop (unat (consumed hsi)) (file_bytes fs' p))"
  using reader_steps_bytes [OF assms(4,2) refl assms(1,3)] by auto

definition roomy :: "lsb_input_buffer \<Rightarrow> u64 \<Rightarrow> lsb_input_buffer option" where
  "roomy ib need =
     (if int (unat (ib_size ib - ib_readpos ib)) < int (unat need) then None else Some ib)"

lemma expand_ok_roomy: "expand_ok roomy"
  by (simp add: expand_ok_def roomy_def split: if_splits)

theorem reader_delivers_file_witness:
  "let fs = \<lparr>fs_files = [(''o/input/1.log'', ''abcdef'')], fs_dirs = [], fs_denied = []\<rparr>;
       ib = \<lparr>ib_buf = ''bc______'', ib_size = 8, ib_msglen = 0, ib_scanpos = 0, ib_readpos = 2\<rparr>;
       hsi = \<lparr>hsi_fh = Some (''o/input/1.log'', 3), hsi_path = ''o'', hsi_name = ''x'',
              hsi_fn = Some ''o/input/1.log'', hsi_fn_size = 14, hsi_ib = ib,
              hsi_cp = \<lparr>cp_id = 1, cp_offset = 3\<rparr>\<rparr>
   in \<exists>hsi'. reader_steps roomy (fs, hsi) ''bcde'' (fs, hsi') \<and> unat (consumed hsi') = 5"
proof -
  let ?fs = "\<lparr>fs_files = [(''o/input/1.log'', ''abcdef'')], fs_dirs = [], fs_denied = []\<rparr> :: fsys"
  let ?ib = "\<lparr>ib_buf = ''bc______'', ib_size = 8, ib_msglen = 0, ib_scanpos = 0, ib_readpos = 2\<rparr> :: lsb_input_buffer"
  let ?hsi = "\<lparr>hsi_fh = Some (''o/input/1.log'', 3), hsi_path = ''o'', hsi_name = ''x'',
              hsi_fn = Some ''o/input/1.log'', hsi_fn_size = 14, hsi_ib = ?ib,
              hsi_cp = \<lparr>cp_id = 1, cp_offset = 3\<rparr>\<rparr> :: hs_input"
  let ?ib1 = "\<lparr>ib_buf = ''bcdef___'', ib_size = 8, ib_msglen = 0, ib_scanpos = 0, ib_readpos = 5\<rparr> :: lsb_input_buffer"
  let ?h1 = "?hsi\<lparr>hsi_fh := Some (''o/input/1.log'', 6), hsi_ib := ?ib1, hsi_cp := \<lparr>cp_id = 1, cp_offset = 6\<rparr>\<rparr>"
  let ?ib2 = "?ib1\<lparr>ib_scanpos := 4\<rparr>"
  have ok: "reader_ok ?fs ?hsi" by code_simp
  have rd: "hs_read_file roomy ?fs ?hsi = Inr (3, ?h1)" by code_simp
  have sc: "scan_step (hsi_ib ?h1) ?ib2 4" by code_simp
  have w: "take 4 (window (hsi_ib ?h1)) = ''bcde''" by code_simp
  have run: "reader_steps roomy (?fs, ?hsi) ''bcde'' (?fs, ?h1\<lparr>hsi_ib := ?ib2\<rparr>)"
    using steps_read [OF rd steps_scan [OF sc steps_done]] unfolding w by simp
  have fh: "hsi_fh ?hsi = Some (''o/input/1.log'', 3)" by simp
  note r = reader_delivers_file [OF ok expand_ok_roomy fh run]
  have "unat (consumed ?hsi) = 1" by code_simp
  with r have "unat (consumed (?h1\<lparr>hsi_ib := ?ib2\<rparr>)) = 5" by simp
  with run show ?thesis unfolding Let_def by blast
qed

text \<open>C12: a reader restarted from a saved position opens the file there: the first byte it will
  hand over is the first one its predecessor had not consumed.\<close>

theorem hs_open_file_resumes:
  assumes "ib_ok (hsi_ib hsi)" and "window (hsi_ib hsi) = []" and "hsi_fn hsi = None"
    and "fopen_re fs (input_file_name (hsi_path hsi) subdir i) = Some c"
    and "length (input_file_name (hsi_path hsi) subdir i) < HS_MAX_PATH"
    and "int (length c) < 2 ^ 64" and "unat off \<le> length c"
  shows "\<exists>hsi'. hs_open_file True fs (hsi\<lparr>hsi_cp := \<lparr>cp_id = i, cp_offset = off\<rparr>\<rparr>) subdir i = Inr (True, hsi') \<and>
    reader_ok fs hsi' \<and> consumed hsi' = off \<and> cp_id (hsi_cp hsi') = i"
  using hs_open_file_fresh [of "hsi\<lparr>hsi_cp := \<lparr>cp_id = i, cp_offset = off\<rparr>\<rparr>" fs subdir i c] assms by auto

theorem hs_open_file_resumes_witness:
  "let fs = \<lparr>fs_files = [(''o/input/1.log'', ''abcdef'')], fs_dirs = [], fs_denied = []\<rparr>;
       ib = \<lparr>ib_buf = ''____'', ib_size = 4, ib_msglen = 0, ib_scanpos = 0, ib_readpos = 0\<rparr>;
       hsi = \<lparr>hsi_fh = None, hsi_path = ''o'', hsi_name = ''x'', hsi_fn = None, hsi_fn_size = 0,
              hsi_ib = ib, hsi_cp = \<lparr>cp_id = 0, cp_offset = 0\<rparr>\<rparr>
   in \<exists>hsi'. hs_open_file True fs (hsi\<lparr>hsi_cp := \<lparr>cp_id = 1, cp_offset = 4\<rparr>\<rparr>) ''input'' 1 = Inr (True, hsi') \<and>
        consumed hsi' = 4"
proof -
  let ?fs = "\<lparr>fs_files = [(''o/input/1.log'', ''abcdef'')], fs_dirs = [], fs_denied = []\<rparr> :: fsys"
  let ?hsi = "\<lparr>hsi_fh = None, hsi_path = ''o'', hsi_name = ''x'', hsi_fn = None, hsi_fn_size = 0,
       hsi_ib = \<lparr>ib_buf = ''____'', ib_size = 4, ib_msglen = 0, ib_scanpos = 0, ib_readpos = 0\<rparr>,
       hsi_cp = \<lparr>cp_id = 0, cp_offset = 0\<rparr>\<rparr> :: hs_input"
  have "ib_ok (hsi_ib ?hsi)" "window (hsi_ib ?hsi) = []" "hsi_fn ?hsi = None"
    "fopen_re ?fs (input_file_name (hsi_path ?hsi) ''input'' 1) = Some ''abcdef''"
    "length (input_file_name (hsi_path ?hsi) ''input'' 1) < HS_MAX_PATH"
    "int (length ''abcdef'') < 2 ^ 64" "unat (4 :: u64) \<le> length ''abcdef''"
    by code_simp+
  from hs_open_file_resumes [OF this] show ?thesis unfolding Let_def by blast
qed

text \<open>When a reader moves to another file with bytes left over from the old one (the rest of a
  message that was cut off), the position a thread records wraps below zero: it lies far past
  the end of any file until those bytes are scanned away.\<close>

theorem switch_with_residue_wraps:
  assumes "ib_ok (hsi_ib hsi)" and "window (hsi_ib hsi) \<noteq> []" and "cp_id (hsi_cp hsi) \<noteq> i"
    and "hs_open_file seek_ok fs hsi subdir i = Inr (True, hsi')"
    and "hsi_fn hsi \<noteq> Some (input_file_name (hsi_path hsi) subdir i)"
  shows "int (unat (consumed hsi')) = 2 ^ 64 - int (length (window (hsi_ib hsi)))"
proof -
  let ?r = "ib_readpos (hsi_ib hsi) - ib_scanpos (hsi_ib hsi)"
  have "hsi_ib hsi' = hsi_ib hsi" "cp_offset (hsi_cp hsi') = 0"
    using assms(3-5) by (auto simp: hs_open_file_def Let_def split: if_splits option.splits)
  then have "consumed hsi' = - ?r" by (simp add: consumed_def)
  moreover have l: "unat ?r = length (window (hsi_ib hsi))"
    using length_window_word [OF assms(1)] by simp
  then have "?r \<noteq> 0" using assms(2) by (metis length_0_conv unat_0)
  ultimately show ?thesis using unat_neg_u64 [of ?r] l by simp
qed

theorem switch_with_residue_wraps_witness:
  "let fs = \<lparr>fs_files = [(''o/input/1.log'', ''abc''), (''o/input/2.log'', ''xyz'')], fs_dirs = [], fs_denied = []\<rparr>;
       ib = \<lparr>ib_buf = ''bc__'', ib_size = 4, ib_msglen = 0, ib_scanpos = 0, ib_readpos = 2\<rparr>;
       hsi = \<lparr>hsi_fh = Some (''o/input/1.log'', 3), hsi_path = ''o'', hsi_name = ''x'',
              hsi_fn = Some ''o/input/1.log'', hsi_fn_size = 14, hsi_ib = ib,
              hsi_cp = \<lparr>cp_id = 1, cp_offset = 3\<rparr>\<rparr>
   in \<exists>hsi'. hs_open_file True fs hsi ''input'' 2 = Inr (True, hsi') \<and>
        int (unat (consumed hsi')) = 18446744073709551614"
proof -
  let ?fs = "\<lparr>fs_files = [(''o/input/1.log'', ''abc''), (''o/input/2.log'', ''xyz'')], fs_dirs = [], fs_denied = []\<rparr> :: fsys"
  let ?ib = "\<lparr>ib_buf = ''bc__'', ib_size = 4, ib_msglen = 0, ib_scanpos = 0, ib_readpos = 2\<rparr> :: lsb_input_buffer"
  let ?hsi = "\<lparr>hsi_fh = Some (''o/input/1.log'', 3), hsi_path = ''o'', hsi_name = ''x'',
              hsi_fn = Some ''o/input/1.log'', hsi_fn_size = 14, hsi_ib = ?ib,
              hsi_cp = \<lparr>cp_id = 1, cp_offset = 3\<rparr>\<rparr> :: hs_input"
  let ?hsi' = "?hsi\<lparr>hsi_fh := Some (''o/input/2.log'', 0), hsi_fn := Some ''o/input/2.log'',
              hsi_cp := \<lparr>cp_id = 2, cp_offset = 0\<rparr>\<rparr>"
  have run: "hs_open_file True ?fs ?hsi ''input'' 2 = Inr (True, ?hsi')" by code_simp
  have "ib_ok (hsi_ib ?hsi)" "window (hsi_ib ?hsi) \<noteq> []" "cp_id (hsi_cp ?hsi) \<noteq> 2"
    by code_simp+
  moreover have "hsi_fn ?hsi \<noteq> Some (input_file_name (hsi_path ?hsi) ''input'' 2)" by code_simp
  ultimately have "int (unat (consumed ?hsi')) = 2 ^ 64 - int (length (window (hsi_ib ?hsi)))"
    by (rule switch_with_residue_wraps [OF _ _ _ run])
  moreover have "window (hsi_ib ?hsi) = ''bc''" by code_simp
  ultimately have "int (unat (consumed ?hsi')) = 18446744073709551614" by simp
  with run show ?thesis unfolding Let_def by blast
qed

end
