(* ===== verification/HS_Sandbox.thy ===== *)
theory HS_Sandbox
  imports HS_Load_Cfg HS_Config HS_Input
begin

text \<open>
  What \<open>create_input_plugin\<close>, \<open>create_analysis_plugin\<close> and \<open>create_output_plugin\<close> share: finding the
  Lua file, checking the message matcher, writing the run-time configuration and creating the
  sandbox, with the retry after a broken state file was removed. The sandbox library's calls are
  parameters collected in \<open>sandbox_lib\<close>. Failed allocations, which only log and give up, are left out.
\<close>

record sandbox_lib =
  sl_lua :: lua_env
  sl_matcher_ok :: "string \<Rightarrow> bool"  \<comment> \<open>\<open>lsb_create_message_matcher\<close>\<close>
  sl_emit :: "nat \<Rightarrow> string \<Rightarrow> string \<times> bool"  \<comment> \<open>an output buffer of a maximum size\<close>
  sl_create :: "char \<Rightarrow> fsys \<Rightarrow> string \<Rightarrow> string option \<Rightarrow> string \<Rightarrow> bool \<times> fsys"
    \<comment> \<open>\<open>lsb_heka_create_input\<close>, \<open>_analysis\<close>, \<open>_output_im\<close>; errors are logged to the error file\<close>
  sl_init_ib :: "u64 \<Rightarrow> lsb_input_buffer"
  sl_log_level :: int
  sl_now :: int
  sl_rnd :: int

definition null_input :: hs_input where
  "null_input =
     \<lparr>hsi_fh = None, hsi_path = [], hsi_name = [], hsi_fn = None, hsi_fn_size = 0,
      hsi_ib = \<lparr>ib_buf = [], ib_size = 0, ib_msglen = 0, ib_scanpos = 0, ib_readpos = 0\<rparr>,
      hsi_cp = \<lparr>cp_id = 0, cp_offset = 0\<rparr>\<rparr>"

text \<open>Creating the sandbox, tried again when a broken state file was the reason of the failure.\<close>

definition create_sandbox ::
    "sandbox_lib \<Rightarrow> char \<Rightarrow> fsys \<Rightarrow> string option \<Rightarrow> string \<Rightarrow> string \<Rightarrow> string option \<Rightarrow> string \<Rightarrow>
     hs_exit + (bool \<times> fsys)" where
  "create_sandbox lib type fs run_path name lua_file state_file text =
     (case sl_create lib type fs lua_file state_file text of
        (True, fs1) \<Rightarrow> Inr (True, fs1)
      | (False, fs1) \<Rightarrow>
          (case hs_is_bad_state (lua_read_file (sl_lua lib)) fs1 run_path (Some name) state_file of
             Inl e \<Rightarrow> Inl e
           | Inr (True, fs2) \<Rightarrow> Inr (sl_create lib type fs2 lua_file state_file text)
           | Inr (False, fs2) \<Rightarrow> Inr (False, fs2)))"

text \<open>The Lua file of the sandbox, or \<open>None\<close> when the plugin is not created. An input has no matcher.\<close>

definition prepare_sandbox ::
    "sandbox_lib \<Rightarrow> char \<Rightarrow> string \<Rightarrow> fsys \<Rightarrow> hs_config \<Rightarrow> hs_sandbox_config \<Rightarrow>
     hs_exit + (string option \<times> fsys)" where
  "prepare_sandbox lib type ptype fs cfg sbc =
     (case hs_find_lua fs (str_of (cfg_install_path cfg)) (str_of (sbc_dir sbc))
             (str_of (sbc_filename sbc)) ptype HS_MAX_PATH of
        None \<Rightarrow> Inr (None, fs)
      | Some lua_file \<Rightarrow>
          if type \<noteq> CHR ''i'' \<and> \<not> sl_matcher_ok lib (str_of (sbc_message_matcher sbc)) then Inr (None, fs)
          else
            let name = str_of (sbc_cfg_name sbc);
                state_file = (if sbc_preserve_data sbc
                  then Some (str_of (cfg_output_path cfg) @ ''/'' @ name @ ''.data'') else None);
                emit = sl_emit lib (length (str_of (sbc_cfg_lua sbc)) + 8 * 1024)
            in case hs_output_runtime_cfg emit (sl_log_level lib) fs type cfg sbc of
                 (False, fs1) \<Rightarrow> Inr (None, fs1)
               | (True, fs1) \<Rightarrow>
                   (case create_sandbox lib type fs1 (cfg_run_path cfg) name lua_file state_file
                           (fst (emit (runtime_cfg (sl_log_level lib) type cfg sbc))) of
                      Inl e \<Rightarrow> Inl e
                    | Inr (False, fs2) \<Rightarrow> Inr (None, fs2)
                    | Inr (True, fs2) \<Rightarrow> Inr (Some lua_file, fs2)))"

end
