(* ===== verification/HS_Slots.thy ===== *)
theory HS_Slots
  imports HS_Prelude
begin

text \<open>
  What the plugin lists of \<open>src/hs_input_plugins.c\<close>, \<open>src/hs_analysis_plugins.c\<close> and
  \<open>src/hs_output_plugins.c\<close> share: an array of pointers with free (null) slots that grows by one,
  the search of a plugin by the name of its configuration file, and the contract of a plugin
  that is stopped and later started again.
\<close>

section \<open>Arrays with free slots\<close>

fun free_slot :: "'a option list \<Rightarrow> nat" where
  "free_slot [] = 0"
| "free_slot (None # xs) = 0"
| "free_slot (Some x # xs) = Suc (free_slot xs)"

text \<open>The first free slot, or a new one at the end, gets the plugin.\<close>

definition slot_add :: "'a \<Rightarrow> 'a option list \<Rightarrow> 'a option list" where
  "slot_add x xs =
     (if free_slot xs < length xs then xs[free_slot xs := Some x] else xs @ [Some x])"

definition occupied :: "'a option list \<Rightarrow> 'a list" where
  "occupied xs = List.map_filter id xs"

lemma occupied_simps [simp]:
  "occupied [] = []" "occupied (None # xs) = occupied xs" "occupied (Some x # xs) = x # occupied xs"
  "occupied (xs @ ys) = occupied xs @ occupied ys"
  by (simp_all add: occupied_def map_filter_def)

lemma occupied_mem: "x \<in> set (occupied xs) \<longleftrightarrow> Some x \<in> set xs"
proof (induction xs)
  case (Cons y ys)
  then show ?case by (cases y) auto
qed simp

lemma occupied_map: "occupied (map (map_option f) xs) = map f (occupied xs)"
proof (induction xs)
  case (Cons y ys)
  then show ?case by (cases y) auto
qed simp

lemma occupied_none [simp]: "occupied (map (\<lambda>_. None) xs) = []"
  by (induction xs) auto

lemma free_slot_le: "free_slot xs \<le> length xs"
  by (induction xs rule: free_slot.induct) auto

lemma free_slot_None: "free_slot xs < length xs \<Longrightarrow> xs ! free_slot xs = None"
  by (induction xs rule: free_slot.induct) auto

lemma free_slot_least: "i < free_slot xs \<Longrightarrow> xs ! i \<noteq> None"
proof (induction xs arbitrary: i rule: free_slot.induct)
  case (3 x xs)
  then show ?case by (cases i) auto
qed auto

lemma slot_add_nth: "slot_add x xs ! free_slot xs = Some x"
  using free_slot_le [of xs] by (auto simp: slot_add_def nth_append)

lemma slot_add_frame:
  "i < length xs \<Longrightarrow> xs ! i \<noteq> None \<Longrightarrow> slot_add x xs ! i = xs ! i"
  using free_slot_None [of xs] by (auto simp: slot_add_def nth_append nth_list_update)

lemma slot_add_length: "length xs \<le> length (slot_add x xs)"
  by (simp add: slot_add_def)

lemma occupied_update_None:
  "i < length xs \<Longrightarrow> xs ! i = Some x \<Longrightarrow> mset (occupied xs) = add_mset x (mset (occupied (xs[i := None])))"
proof (induction xs arbitrary: i)
  case (Cons y ys)
  show ?case
  proof (cases i)
    case (Suc j)
    with Cons show ?thesis by (cases y) auto
  qed (use Cons in auto)
qed simp

lemma occupied_update_Some:
  "i < length xs \<Longrightarrow> xs ! i = None \<Longrightarrow> mset (occupied (xs[i := Some x])) = add_mset x (mset (occupied xs))"
proof (induction xs arbitrary: i)
  case (Cons y ys)
  show ?case
  proof (cases i)
    case (Suc j)
    with Cons show ?thesis by (cases y) auto
  qed (use Cons in auto)
qed simp

text \<open>Adding keeps every plugin that was there; the array is compact in its front.\<close>

lemma slot_add_occupied: "mset (occupied (slot_add x xs)) = add_mset x (mset (occupied xs))"
  using free_slot_None [of xs] by (auto simp: slot_add_def occupied_update_Some)

text \<open>A visit of every plugin that carries a state along and may end the process.\<close>

fun visit_slots ::
    "(nat \<Rightarrow> 's \<Rightarrow> 'a \<Rightarrow> hs_exit + ('s \<times> 'a)) \<Rightarrow> nat \<Rightarrow> 'a option list \<Rightarrow> 's \<Rightarrow> hs_exit + ('s \<times> 'a option list)" where
  "visit_slots f i [] s = Inr (s, [])"
| "visit_slots f i (None # xs) s =
     (case visit_slots f (Suc i) xs s of Inl e \<Rightarrow> Inl e | Inr (s', xs') \<Rightarrow> Inr (s', None # xs'))"
| "visit_slots f i (Some x # xs) s =
     (case f i s x of
        Inl e \<Rightarrow> Inl e
      | Inr (s1, y) \<Rightarrow>
          (case visit_slots f (Suc i) xs s1 of Inl e \<Rightarrow> Inl e | Inr (s', xs') \<Rightarrow> Inr (s', Some y # xs')))"

text \<open>A plugin is visited once, from the state the plugins before it left.\<close>

lemma visit_slots_invariant:
  assumes "visit_slots f i xs s = Inr (s', ys)" and "I [] s"
    and "\<And>j zs s x s1 y. I zs s \<Longrightarrow> x \<in> set (occupied xs) \<Longrightarrow> f j s x = Inr (s1, y) \<Longrightarrow> I (zs @ [x]) s1"
  shows "I (occupied xs) s'"
proof -
  have "I (zs @ occupied xs) s'"
    if "visit_slots f i xs s = Inr (s', ys)" "I zs s"
      "\<And>j zs s x s1 y. I zs s \<Longrightarrow> x \<in> set (occupied xs) \<Longrightarrow> f j s x = Inr (s1, y) \<Longrightarrow> I (zs @ [x]) s1" for zs
    using that
  proof (induction f i xs s arbitrary: zs ys rule: visit_slots.induct)
    case (2 f i xs s)
    then show ?case by (auto split: sum.splits)
  next
    case (3 f i x xs s)
    obtain s1 y ys1 where f: "f i s x = Inr (s1, y)" and r: "visit_slots f (Suc i) xs s1 = Inr (s', ys1)"
      using 3(2) by (auto split: sum.splits)
    have "I (zs @ [x]) s1" using 3(4) [OF 3(3) _ f] by simp
    from 3(1) [OF f refl r this] 3(4) show ?case by simp
  qed simp
  from this [of "[]"] assms show ?thesis by simp
qed

lemma visit_slots_slots:
  "visit_slots f i xs s = Inr (s', ys) \<Longrightarrow> length ys = length xs \<and> (\<forall>j < length xs. ys ! j = None \<longleftrightarrow> xs ! j = None)"
  by (induction f i xs s arbitrary: ys rule: visit_slots.induct)
    (auto split: sum.splits simp: nth_Cons split: nat.splits)

section \<open>Finding a plugin by file name\<close>

text \<open>
  The test of the three \<open>remove_from\<close> functions: \<open>pos\<close> is the plugin's name without its type
  prefix, \<open>name\<close> the configuration's file name with its extension.
\<close>

definition name_matches :: "string \<Rightarrow> string \<Rightarrow> bool" where
  "name_matches pos name \<longleftrightarrow> strstr name pos \<noteq> None \<and> int (length pos) = int (length name) - 4"

fun find_plugin :: "('a \<Rightarrow> string) \<Rightarrow> string \<Rightarrow> 'a option list \<Rightarrow> nat option" where
  "find_plugin stem name [] = None"
| "find_plugin stem name (None # xs) = map_option Suc (find_plugin stem name xs)"
| "find_plugin stem name (Some x # xs) =
     (if name_matches (stem x) name then Some 0 else map_option Suc (find_plugin stem name xs))"

lemma strstr_prefix: "strstr (p @ xs) p \<noteq> None"
  by (cases p; cases xs) simp_all

text \<open>A plugin answers to its own file, with any extension.\<close>

lemma name_matches_own: "length ext = 4 \<Longrightarrow> name_matches stem (stem @ ext)"
  by (simp add: name_matches_def strstr_prefix)

lemma find_plugin_Some:
  "find_plugin stem name xs = Some i \<Longrightarrow>
   i < length xs \<and> (\<exists>x. xs ! i = Some x \<and> name_matches (stem x) name)"
proof (induction stem name xs arbitrary: i rule: find_plugin.induct)
  case (3 stem name x xs)
  then show ?case by (auto split: if_splits)
qed auto

lemma find_plugin_None:
  "find_plugin stem name xs = None \<longleftrightarrow> (\<forall>x. Some x \<in> set xs \<longrightarrow> \<not> name_matches (stem x) name)"
  by (induction stem name xs rule: find_plugin.induct) auto

section \<open>Stopping and starting again\<close>

text \<open>
  A plugin saves its position in a shared store when it stops and restores it when one of the
  same name starts. \<open>same\<close> relates a new plugin to the one it continues, \<open>key\<close> is the name.
\<close>

locale resumable =
  fixes save :: "'p \<Rightarrow> 's \<Rightarrow> 's"
    and restore :: "'p \<Rightarrow> 's \<Rightarrow> 'p"
    and same :: "'p \<Rightarrow> 'p \<Rightarrow> bool"
    and key :: "'p \<Rightarrow> 'k"
    and position :: "'p \<Rightarrow> 'c"
    and storable :: "'p \<Rightarrow> bool"
  assumes resume: "storable p \<Longrightarrow> same q p \<Longrightarrow> position (restore q (save p s)) = position p"
    and frame: "key q \<noteq> key p \<Longrightarrow> position (restore q (save p s)) = position (restore q s)"
    and same_key: "same q p \<Longrightarrow> key q = key p"
begin

lemma save_all_frame:
  "key q \<notin> key ` set ps \<Longrightarrow> position (restore q (fold save ps s)) = position (restore q s)"
  by (induction ps arbitrary: s) (auto simp: frame)

text \<open>However many plugins stop, each continues where it stopped.\<close>

lemma resume_all:
  assumes "distinct (map key ps)" and "p \<in> set ps" and "storable p" and "same q p"
  shows "position (restore q (fold save ps s)) = position p"
  using assms
proof (induction ps arbitrary: s)
  case (Cons r rs)
  show ?case
  proof (cases "p = r")
    case True
    moreover have "key q \<notin> key ` set rs"
      using Cons.prems same_key [OF Cons.prems(4)] True by auto
    ultimately show ?thesis
      using save_all_frame [of q rs "save p s"] resume [OF Cons.prems(3,4)] by simp
  qed (use Cons in auto)
qed simp

end

section \<open>Which files a plugin answers to\<close>

text \<open>
  The test compares lengths and searches anywhere in the name, so a plugin answers to every file
  name that contains its own at an offset of at most four.
\<close>

lemma strstr_iff: "strstr s t \<noteq> None \<longleftrightarrow> (\<exists>k \<le> length s. take (length t) (drop k s) = t)"
proof (induction s t rule: strstr.induct)
  case (2 x xs t)
  show ?case
  proof (cases "take (length t) (x # xs) = t")
    case False
    have "(\<exists>k \<le> length (x # xs). take (length t) (drop k (x # xs)) = t) \<longleftrightarrow>
        (\<exists>k \<le> length xs. take (length t) (drop k xs) = t)"
    proof
      assume "\<exists>k \<le> length (x # xs). take (length t) (drop k (x # xs)) = t"
      then obtain k where "k \<le> length (x # xs)" "take (length t) (drop k (x # xs)) = t" by blast
      with False show "\<exists>k \<le> length xs. take (length t) (drop k xs) = t"
        by (cases k) auto
    next
      assume "\<exists>k \<le> length xs. take (length t) (drop k xs) = t"
      then obtain k where "k \<le> length xs" "take (length t) (drop k xs) = t" by blast
      then show "\<exists>k \<le> length (x # xs). take (length t) (drop k (x # xs)) = t"
        by (intro exI [of _ "Suc k"]) simp
    qed
    with False 2 show ?thesis by simp
  qed (auto intro: exI [of _ 0])
qed auto

lemma name_matches_iff:
  "4 \<le> length name \<Longrightarrow>
   name_matches pos name \<longleftrightarrow> (\<exists>k \<le> 4. pos = take (length name - 4) (drop k name))"
  unfolding name_matches_def strstr_iff
proof (intro iffI; elim conjE exE)
  fix k
  assume n: "4 \<le> length name" and l: "int (length pos) = int (length name) - 4"
    and t: "take (length pos) (drop k name) = pos"
  have len: "length pos = length name - 4" using n l by linarith
  have "min (length name - 4) (length name - k) = length pos"
    using arg_cong [OF t, of length] len by (simp add: min.commute)
  then have "k \<le> 4 \<or> length pos = 0" using n len by (auto simp: min_def split: if_splits)
  then have "k \<le> 4 \<or> pos = []" by simp
  then show "\<exists>k \<le> 4. pos = take (length name - 4) (drop k name)"
    using t len by (auto intro: exI [of _ 0])
next
  fix k
  assume n: "4 \<le> length name" and k: "k \<le> 4" and p: "pos = take (length name - 4) (drop k name)"
  then have "length pos = length name - 4" by simp
  then show "(\<exists>k \<le> length name. take (length pos) (drop k name) = pos) \<and> int (length pos) = int (length name) - 4"
    using n k p by (intro conjI exI [of _ k]) auto
qed

end
