(* ===== verification/HS_Input_Thread.thy ===== *)
theory HS_Input_Thread
  imports HS_Sandbox HS_Inject HS_Slots
begin

text \<open>
  An input plugin and its thread (\<open>src/hs_input_plugins.c\<close>): the checkpoint a sandbox hands over
  with its messages (\<open>update_checkpoint\<close>), the two halves of \<open>inject_message\<close>, the loop of
  \<open>input_thread\<close> that calls the sandbox with the checkpoint it left last, and the end of the thread.

  The sandbox is a parameter: given the checkpoint argument, one call of it is a list of steps and
  a return code. Between its injections another thread may post the shutdown semaphore, which is
  a counter. The statistics a sample stores are left out.
\<close>

section \<open>State\<close>

record hs_input_plugin =
  ip_name :: string
  ip_lua_file :: string
  ip_ticker_interval :: int
  ip_list_index :: int
  ip_cp :: hs_ip_checkpoint
  ip_shutdown :: nat
  ip_im_delta_cnt :: int
  ip_sample :: bool
  ip_shutdown_terminate :: bool

definition init_ip_checkpoint :: hs_ip_checkpoint where
  "init_ip_checkpoint = \<lparr>ipc_type = HS_CP_NONE, ipc_len = 0, ipc_cap = 0, ipc_value = Ip_d (Fin 0)\<rparr>"

definition free_ip_checkpoint :: "hs_ip_checkpoint \<Rightarrow> hs_ip_checkpoint" where
  "free_ip_checkpoint cp =
     (if ipc_type cp = HS_CP_STRING then cp\<lparr>ipc_value := Ip_s None, ipc_len := 0, ipc_cap := 0\<rparr> else cp)
       \<lparr>ipc_type := HS_CP_NONE\<rparr>"

definition init_input_plugin :: "hs_sandbox_config \<Rightarrow> string \<Rightarrow> hs_input_plugin" where
  "init_input_plugin sbc lua_file =
     \<lparr>ip_name = str_of (sbc_cfg_name sbc), ip_lua_file = lua_file,
      ip_ticker_interval = sint (sbc_ticker_interval sbc), ip_list_index = -1,
      ip_cp = init_ip_checkpoint, ip_shutdown = 0, ip_im_delta_cnt = 0, ip_sample = False,
      ip_shutdown_terminate = sbc_shutdown_terminate sbc\<rparr>"

section \<open>The checkpoint\<close>

text \<open>
  A number replaces the checkpoint unless it is not-a-number; otherwise a string does, when there
  is one. The stored length counts the terminating zero, unlike the one of \<open>hs_load_checkpoint\<close>.
\<close>

definition ip_update_checkpoint ::
    "bool \<Rightarrow> lua_number \<Rightarrow> string option \<Rightarrow> hs_ip_checkpoint \<Rightarrow> im_result \<times> hs_ip_checkpoint" where
  "ip_update_checkpoint malloc_ok d s cp =
     (if \<not> isnan d then
        let cp1 = (if ipc_type cp = HS_CP_STRING
                   then cp\<lparr>ipc_value := Ip_s None, ipc_len := 0, ipc_cap := 0\<rparr> else cp)
        in (IM_Success, cp1\<lparr>ipc_type := HS_CP_NUMERIC, ipc_value := Ip_d d\<rparr>)
      else case s of
        None \<Rightarrow> (IM_Success, cp)
      | Some t \<Rightarrow>
          let cp1 = (if ipc_type cp = HS_CP_NUMERIC then cp\<lparr>ipc_value := Ip_s None\<rparr> else cp)
                      \<lparr>ipc_type := HS_CP_STRING, ipc_len := word_of_nat (length t) + 1\<rparr>;
              bytes = t @ [CHR 0x00]; n = unat (ipc_len cp1)
          in if n \<le> HS_MAX_IP_CHECKPOINT then
               if ipc_len cp1 > ipc_cap cp1 then
                 if malloc_ok
                 then (IM_Success, cp1\<lparr>ipc_value := Ip_s (Some (take n bytes)), ipc_cap := ipc_len cp1\<rparr>)
                 else (IM_Checkpoint, cp1\<lparr>ipc_value := Ip_s None, ipc_len := 0, ipc_cap := 0\<rparr>)
               else
                 (IM_Success, cp1\<lparr>ipc_value :=
                    Ip_s (map_option (\<lambda>b. memcpy b bytes n) (value_s (ipc_value cp1)))\<rparr>)
             else (IM_Checkpoint, cp1))"

text \<open>The arguments the sandbox is called with; a null or zero-terminated string.\<close>

definition ip_arguments :: "hs_ip_checkpoint \<Rightarrow> lua_number \<times> string option" where
  "ip_arguments cp =
     (case ipc_type cp of
        HS_CP_STRING \<Rightarrow> (NaN, map_option c_str (value_s (ipc_value cp)))
      | HS_CP_NUMERIC \<Rightarrow> ((case ipc_value cp of Ip_d d \<Rightarrow> d | Ip_s _ \<Rightarrow> NaN), None)
      | HS_CP_NONE \<Rightarrow> (NaN, None))"

section \<open>Injecting messages\<close>

text \<open>
  The first half of \<open>inject_message\<close>, under the plugin's checkpoint lock, and the second, under
  the queue's lock. Between them the plugin's checkpoint is ahead of the queue. A null message
  is a synchronization point: the sandbox is asked to stop when a shutdown was signaled, and the
  semaphore keeps its value.
\<close>

definition ip_inject_checkpoint ::
    "bool \<Rightarrow> string option \<Rightarrow> lua_number \<Rightarrow> string option \<Rightarrow> hs_input_plugin \<Rightarrow>
     im_result \<times> hs_input_plugin" where
  "ip_inject_checkpoint malloc_ok pb d s p =
     (case ip_update_checkpoint malloc_ok d s (ip_cp p) of
        (rv, cp) \<Rightarrow>
          (rv, p\<lparr>ip_cp := cp, ip_sample := False,
                 ip_im_delta_cnt := ip_im_delta_cnt p + (if pb = None then 0 else 1)\<rparr>))"

definition ip_inject_queue ::
    "(nat \<Rightarrow> string) \<Rightarrow> hs_config \<Rightarrow> im_env \<Rightarrow> im_result \<Rightarrow> string option \<Rightarrow> queue \<Rightarrow> hs_exit + queue" where
  "ip_inject_queue varint cfg env rv pb q =
     (case pb of
        None \<Rightarrow> Inr q
      | Some m \<Rightarrow>
          if rv \<noteq> IM_Success then Inr q
          else (case q of (fs, ob, bp) \<Rightarrow> queue_message varint cfg env m fs ob bp))"

text \<open>The flag says that the sandbox was asked for a clean stop.\<close>

definition ip_inject ::
    "(nat \<Rightarrow> string) \<Rightarrow> hs_config \<Rightarrow> im_env \<Rightarrow> bool \<Rightarrow> string option \<Rightarrow> lua_number \<Rightarrow> string option \<Rightarrow>
     hs_input_plugin \<times> queue \<Rightarrow> hs_exit + (im_result \<times> bool \<times> hs_input_plugin \<times> queue)" where
  "ip_inject varint cfg env malloc_ok pb d s st =
     (case ip_inject_checkpoint malloc_ok pb d s (fst st) of
        (rv, p) \<Rightarrow>
          (case ip_inject_queue varint cfg env rv pb (snd st) of
             Inl e \<Rightarrow> Inl e
           | Inr q \<Rightarrow> Inr (rv, pb = None \<and> ip_shutdown p > 0, p, q)))"

section \<open>The thread\<close>

datatype ip_step =
    Ip_inject im_env bool "string option" lua_number "string option"
  | Ip_posted

definition post_shutdown :: "hs_input_plugin \<Rightarrow> hs_input_plugin" where
  "post_shutdown p = p\<lparr>ip_shutdown := ip_shutdown p + 1\<rparr>"

definition ip_do_step ::
    "(nat \<Rightarrow> string) \<Rightarrow> hs_config \<Rightarrow> ip_step \<Rightarrow> hs_input_plugin \<times> queue \<Rightarrow> hs_exit + (hs_input_plugin \<times> queue)" where
  "ip_do_step varint cfg step st =
     (case step of
        Ip_posted \<Rightarrow> Inr (post_shutdown (fst st), snd st)
      | Ip_inject env m pb d s \<Rightarrow>
          (case ip_inject varint cfg env m pb d s st of Inl e \<Rightarrow> Inl e | Inr (_, _, st') \<Rightarrow> Inr st'))"

record ip_env =
  ie_pm_input :: "lua_number \<Rightarrow> string option \<Rightarrow> ip_step list \<times> int"
  ie_posted :: bool  \<comment> \<open>the semaphore is posted during the timed wait\<close>

datatype ip_next = Ip_poll | Ip_exit bool int  \<comment> \<open>\<open>shutdown\<close> and \<open>ret\<close>\<close>

text \<open>\<open>sem_trywait\<close>, and \<open>sem_timedwait\<close> at its deadline.\<close>

definition try_shutdown :: "hs_input_plugin \<Rightarrow> bool \<times> hs_input_plugin" where
  "try_shutdown p =
     (if ip_shutdown p > 0 then (True, p\<lparr>ip_shutdown := ip_shutdown p - 1\<rparr>) else (False, p))"

definition ip_turn ::
    "(nat \<Rightarrow> string) \<Rightarrow> hs_config \<Rightarrow> ip_env \<Rightarrow> hs_input_plugin \<times> queue \<Rightarrow>
     hs_exit + (ip_next \<times> hs_input_plugin \<times> queue)" where
  "ip_turn varint cfg env st =
     (let (d, s) = ip_arguments (ip_cp (fst st)); (steps, ret) = ie_pm_input env d s in
      case fold_exit (ip_do_step varint cfg) steps st of
        Inl e \<Rightarrow> Inl e
      | Inr (p, q) \<Rightarrow>
          if ret \<le> 0 \<and> ip_ticker_interval p \<noteq> 0 then
            (case try_shutdown (if ie_posted env then post_shutdown p else p) of
               (True, p') \<Rightarrow> Inr (Ip_exit True ret, p', q)
             | (False, p') \<Rightarrow> Inr (Ip_poll, p', q))
          else
            (case try_shutdown p of (b, p') \<Rightarrow> Inr (Ip_exit b ret, p', q)))"

text \<open>The loop, over the calls the sandbox gets; \<open>None\<close> while it still polls after them.\<close>

fun ip_run ::
    "(nat \<Rightarrow> string) \<Rightarrow> hs_config \<Rightarrow> ip_env list \<Rightarrow> hs_input_plugin \<times> queue \<Rightarrow>
     hs_exit + ((bool \<times> int) option \<times> hs_input_plugin \<times> queue)" where
  "ip_run varint cfg [] st = Inr (None, st)"
| "ip_run varint cfg (e # es) st =
     (case ip_turn varint cfg e st of
        Inl x \<Rightarrow> Inl x
      | Inr (Ip_poll, st') \<Rightarrow> ip_run varint cfg es st'
      | Inr (Ip_exit b ret, st') \<Rightarrow> Inr (Some (b, ret), st'))"

section \<open>What keeps the checkpoint well formed\<close>

text \<open>
  The buffer has the recorded capacity, the stored length fits it, and the string ends within it.
  Weaker than \<open>ipc_ok\<close>: the length may count the terminating zero.
\<close>

definition ipc_safe :: "hs_ip_checkpoint \<Rightarrow> bool" where
  "ipc_safe cp =
     (case (ipc_type cp, ipc_value cp) of
        (HS_CP_STRING, Ip_s (Some b)) \<Rightarrow>
          length b = unat (ipc_cap cp) \<and> unat (ipc_len cp) \<le> unat (ipc_cap cp) \<and>
          unat (ipc_cap cp) \<le> HS_MAX_IP_CHECKPOINT \<and> CHR 0x00 \<in> set (take (Suc (unat (ipc_len cp))) b)
      | (HS_CP_STRING, Ip_s None) \<Rightarrow> ipc_len cp = 0 \<and> ipc_cap cp = 0
      | (HS_CP_NUMERIC, Ip_d d) \<Rightarrow> \<not> isnan d \<and> ipc_len cp = 0 \<and> ipc_cap cp = 0
      | (HS_CP_NONE, v) \<Rightarrow> v = Ip_d (Fin 0) \<and> ipc_len cp = 0 \<and> ipc_cap cp = 0
      | _ \<Rightarrow> False)"

lemmas ipc_splits = hs_ip_checkpoint_type.splits ip_checkpoint_value.splits option.splits

lemma ipc_safe_init [simp]: "ipc_safe init_ip_checkpoint"
  by (simp add: ipc_safe_def init_ip_checkpoint_def)

text \<open>What a sandbox may hand over: a C string that fits with its terminating zero, or a number.\<close>

definition short_cp :: "lua_number \<Rightarrow> string option \<Rightarrow> bool" where
  "short_cp d s \<longleftrightarrow> isnan d \<longrightarrow> (case s of None \<Rightarrow> True | Some t \<Rightarrow> no_nul t \<and> length t < HS_MAX_IP_CHECKPOINT)"

lemma unat_succ_len: "length t < HS_MAX_IP_CHECKPOINT \<Longrightarrow> unat (word_of_nat (length t) + 1 :: u32) = Suc (length t)"
proof -
  assume "length t < HS_MAX_IP_CHECKPOINT"
  then have "unat (word_of_nat (Suc (length t)) :: u32) = Suc (length t)"
    by (intro unat_of_nat_u32) simp
  then show ?thesis by (simp add: add.commute)
qed

lemma c_str_terminated: "no_nul t \<Longrightarrow> c_str (t @ CHR 0x00 # r) = t"
  by (induction t) (auto simp: c_str_def)

text \<open>A string handed over is stored with its zero at the front of a buffer that holds it.\<close>

lemma ip_update_string:
  assumes "ipc_safe cp" and "length t < HS_MAX_IP_CHECKPOINT"
  shows "\<exists>r c. ip_update_checkpoint True NaN (Some t) cp =
      (IM_Success, \<lparr>ipc_type = HS_CP_STRING, ipc_len = word_of_nat (length t) + 1, ipc_cap = c,
                    ipc_value = Ip_s (Some (t @ CHR 0x00 # r))\<rparr>) \<and>
    unat c = Suc (length t) + length r \<and> unat c \<le> HS_MAX_IP_CHECKPOINT"
proof (cases "(word_of_nat (length t) + 1 :: u32) > ipc_cap cp")
  case True
  then show ?thesis
    using assms(2) unat_succ_len [OF assms(2)]
    by (cases cp) (auto simp: ip_update_checkpoint_def isnan_def Let_def intro!: exI [of _ "[]"])
next
  case False
  then have le: "Suc (length t) \<le> unat (ipc_cap cp)"
    using unat_succ_len [OF assms(2)] by (simp add: not_less word_le_nat_alt)
  then obtain b where b: "ipc_type cp = HS_CP_STRING" "ipc_value cp = Ip_s (Some b)"
      "length b = unat (ipc_cap cp)" "unat (ipc_cap cp) \<le> HS_MAX_IP_CHECKPOINT"
    using assms(1) by (auto simp: ipc_safe_def split: ipc_splits)
  show ?thesis
    using False b le assms(2) unat_succ_len [OF assms(2)]
    by (cases cp) (auto simp: ip_update_checkpoint_def isnan_def Let_def memcpy_def
        intro!: exI [of _ "drop (Suc (length t)) b"])
qed

lemma ip_update_number:
  assumes "ipc_safe cp" and "\<not> isnan d"
  shows "ip_update_checkpoint m d s cp =
    (IM_Success, \<lparr>ipc_type = HS_CP_NUMERIC, ipc_len = 0, ipc_cap = 0, ipc_value = Ip_d d\<rparr>)"
  using assms by (cases cp) (auto simp: ip_update_checkpoint_def ipc_safe_def split: ipc_splits)

lemma ip_update_nothing: "ip_update_checkpoint m NaN None cp = (IM_Success, cp)"
  by (simp add: ip_update_checkpoint_def isnan_def)

lemma ip_update_safe:
  assumes "ipc_safe cp" and "short_cp d s"
  shows "ipc_safe (snd (ip_update_checkpoint m d s cp))"
proof (cases "isnan d")
  case True
  then have d: "d = NaN" by (simp add: isnan_def)
  show ?thesis
  proof (cases s)
    case None
    with assms(1) d show ?thesis by (simp add: ip_update_nothing)
  next
    case (Some t)
    with assms(2) True have t: "length t < HS_MAX_IP_CHECKPOINT" by (simp add: short_cp_def)
    note n = unat_succ_len [OF t]
    show ?thesis
    proof (cases "m \<or> \<not> ipc_cap cp < (word_of_nat (length t) + 1 :: u32)")
      case True
      then have "ip_update_checkpoint m NaN (Some t) cp = ip_update_checkpoint True NaN (Some t) cp"
        by (auto simp: ip_update_checkpoint_def Let_def)
      with ip_update_string [OF assms(1) t] d Some n show ?thesis by (auto simp: ipc_safe_def)
    next
      case False
      with t n d Some show ?thesis
        by (auto simp: ip_update_checkpoint_def isnan_def Let_def ipc_safe_def)
    qed
  qed
next
  case False
  then show ?thesis using assms(1) by (simp add: ip_update_number ipc_safe_def)
qed

text \<open>The sandbox's next call gets what was handed over last.\<close>

definition next_arguments ::
    "lua_number \<Rightarrow> string option \<Rightarrow> lua_number \<times> string option \<Rightarrow> lua_number \<times> string option" where
  "next_arguments d s old =
     (if \<not> isnan d then (d, None) else case s of None \<Rightarrow> old | Some t \<Rightarrow> (NaN, Some t))"

lemma ip_update_arguments:
  assumes "ipc_safe cp" and "short_cp d s"
  shows "fst (ip_update_checkpoint True d s cp) = IM_Success \<and>
    ip_arguments (snd (ip_update_checkpoint True d s cp)) = next_arguments d s (ip_arguments cp)"
proof (cases "isnan d")
  case True
  then have d: "d = NaN" by (simp add: isnan_def)
  show ?thesis
  proof (cases s)
    case None
    with d show ?thesis by (simp add: ip_update_nothing next_arguments_def isnan_def)
  next
    case (Some t)
    with assms(2) True have t: "no_nul t" "length t < HS_MAX_IP_CHECKPOINT" by (simp_all add: short_cp_def)
    from ip_update_string [OF assms(1) t(2)] d Some t(1) show ?thesis
      by (auto simp: ip_arguments_def next_arguments_def isnan_def c_str_terminated)
  qed
next
  case False
  then show ?thesis using assms(1) by (simp add: ip_update_number ip_arguments_def next_arguments_def)
qed

section \<open>One call of the sandbox\<close>

text \<open>The messages a list of steps injects, and the checkpoint it leaves.\<close>

fun injected :: "ip_step list \<Rightarrow> (im_env \<times> string) list" where
  "injected [] = []"
| "injected (Ip_inject env m (Some pb) d s # xs) = (env, pb) # injected xs"
| "injected (_ # xs) = injected xs"

fun handed_over :: "ip_step list \<Rightarrow> lua_number \<times> string option \<Rightarrow> lua_number \<times> string option" where
  "handed_over [] a = a"
| "handed_over (Ip_inject env m pb d s # xs) a = handed_over xs (next_arguments d s a)"
| "handed_over (Ip_posted # xs) a = handed_over xs a"

definition short_step :: "ip_step \<Rightarrow> bool" where
  "short_step x = (case x of Ip_inject env m pb d s \<Rightarrow> m \<and> short_cp d s | Ip_posted \<Rightarrow> True)"

lemma ip_do_step_inject:
  assumes "ipc_safe (ip_cp p)" and "short_cp d s"
    and "ip_do_step varint cfg (Ip_inject env True pb d s) (p, q) = Inr (p', q')"
  shows "ipc_safe (ip_cp p') \<and> ip_arguments (ip_cp p') = next_arguments d s (ip_arguments (ip_cp p)) \<and>
    ip_name p' = ip_name p \<and> ip_ticker_interval p' = ip_ticker_interval p \<and> ip_shutdown p' = ip_shutdown p \<and>
    (case pb of None \<Rightarrow> q' = q | Some m \<Rightarrow> queue_put varint cfg q (env, m) = Some q')"
proof -
  obtain cp where u: "ip_update_checkpoint True d s (ip_cp p) = (IM_Success, cp)"
      "ip_arguments cp = next_arguments d s (ip_arguments (ip_cp p))" "ipc_safe cp"
    using ip_update_arguments [OF assms(1,2)] ip_update_safe [OF assms(1,2), of True]
    by (metis prod.collapse)
  obtain fs ob bp where q: "q = (fs, ob, bp)" by (cases q)
  show ?thesis
    using assms(3) u q
    by (cases pb) (auto simp: ip_do_step_def ip_inject_def ip_inject_checkpoint_def ip_inject_queue_def
        queue_put_def split: sum.splits)
qed

lemma ip_steps:
  assumes "ipc_safe (ip_cp p)" and "\<forall>x \<in> set xs. short_step x"
    and "fold_exit (ip_do_step varint cfg) xs (p, q) = Inr (p', q')"
  shows "ipc_safe (ip_cp p') \<and> ip_arguments (ip_cp p') = handed_over xs (ip_arguments (ip_cp p)) \<and>
    ip_name p' = ip_name p \<and> ip_ticker_interval p' = ip_ticker_interval p \<and>
    queue_writer.put_all varint cfg q (injected xs) = Some q'"
  using assms
proof (induction xs arbitrary: p q)
  case Nil
  then show ?case by (simp add: queue_writer.put_all.simps)
next
  case (Cons x xs)
  obtain p1 q1 where one: "ip_do_step varint cfg x (p, q) = Inr (p1, q1)"
    and rest: "fold_exit (ip_do_step varint cfg) xs (p1, q1) = Inr (p', q')"
    using Cons.prems(3) by (auto split: sum.splits)
  show ?case
  proof (cases x)
    case (Ip_inject env m pb d s)
    then have sc: "m" "short_cp d s" using Cons.prems(2) by (simp_all add: short_step_def)
    then have "ip_do_step varint cfg (Ip_inject env True pb d s) (p, q) = Inr (p1, q1)"
      using one Ip_inject by simp
    note h = ip_do_step_inject [OF Cons.prems(1) sc(2) this]
    then have "ipc_safe (ip_cp p1)" by blast
    note IH = Cons.IH [OF this _ rest]
    show ?thesis using IH h Cons.prems(2) Ip_inject
      by (cases pb) (auto simp: queue_writer.put_all.simps)
  next
    case Ip_posted
    then have p1: "p1 = post_shutdown p" "q1 = q" using one by (simp_all add: ip_do_step_def)
    then have "ipc_safe (ip_cp p1)" using Cons.prems(1) by (simp add: post_shutdown_def)
    note IH = Cons.IH [OF this _ rest]
    show ?thesis using IH p1 Cons.prems(2) Ip_posted by (simp add: post_shutdown_def)
  qed
qed

text \<open>All the steps of a run: each call gets the checkpoint the calls before it left.\<close>

fun run_steps :: "ip_env list \<Rightarrow> lua_number \<times> string option \<Rightarrow> ip_step list" where
  "run_steps [] a = []"
| "run_steps (e # es) a =
     (let xs = fst (ie_pm_input e (fst a) (snd a)) in xs @ run_steps es (handed_over xs a))"

lemma injected_append [simp]: "injected (xs @ ys) = injected xs @ injected ys"
  by (induction xs rule: injected.induct) auto

lemma handed_over_append [simp]: "handed_over (xs @ ys) a = handed_over ys (handed_over xs a)"
  by (induction xs a rule: handed_over.induct) auto

definition short_env :: "ip_env \<Rightarrow> bool" where
  "short_env e \<longleftrightarrow> (\<forall>d s. \<forall>x \<in> set (fst (ie_pm_input e d s)). short_step x)"

lemma try_shutdown_frame:
  "try_shutdown p = (b, p') \<Longrightarrow>
   ip_cp p' = ip_cp p \<and> ip_name p' = ip_name p \<and> ip_ticker_interval p' = ip_ticker_interval p"
  by (auto simp: try_shutdown_def split: if_splits)

lemma ip_turn_steps:
  assumes "ipc_safe (ip_cp p)" and "short_env e" and "ip_turn varint cfg e (p, q) = Inr (n, p', q')"
  shows "ipc_safe (ip_cp p') \<and> ip_name p' = ip_name p \<and>
    ip_arguments (ip_cp p') = handed_over (run_steps [e] (ip_arguments (ip_cp p))) (ip_arguments (ip_cp p)) \<and>
    queue_writer.put_all varint cfg q (injected (run_steps [e] (ip_arguments (ip_cp p)))) = Some q'"
proof -
  let ?a = "ip_arguments (ip_cp p)"
  obtain d s where a: "?a = (d, s)" by (cases ?a)
  obtain xs ret where y: "ie_pm_input e d s = (xs, ret)" by fastforce
  then have x: "ie_pm_input e (fst ?a) (snd ?a) = (xs, ret)" using a by simp
  obtain p1 q1 where f: "fold_exit (ip_do_step varint cfg) xs (p, q) = Inr (p1, q1)"
    using assms(3) a y by (auto simp: ip_turn_def split: sum.splits)
  have "\<forall>x \<in> set xs. short_step x" using assms(2) x unfolding short_env_def by (metis fst_conv)
  note h = ip_steps [OF assms(1) this f]
  have "ip_cp p' = ip_cp p1 \<and> ip_name p' = ip_name p1 \<and> q' = q1"
    using assms(3) a y f
    by (auto simp: ip_turn_def post_shutdown_def split: if_splits prod.splits bool.splits dest: try_shutdown_frame)
  with h x show ?thesis by simp
qed

lemma ip_run_steps:
  assumes "ipc_safe (ip_cp p)" and "\<forall>e \<in> set es. short_env e"
    and "ip_run varint cfg es (p, q) = Inr (r, p', q')"
  shows "\<exists>n \<le> length es. (r = None \<longrightarrow> n = length es) \<and> ipc_safe (ip_cp p') \<and> ip_name p' = ip_name p \<and>
    (let xs = run_steps (take n es) (ip_arguments (ip_cp p)) in
      ip_arguments (ip_cp p') = handed_over xs (ip_arguments (ip_cp p)) \<and>
      queue_writer.put_all varint cfg q (injected xs) = Some q')"
  using assms
proof (induction es arbitrary: p q)
  case Nil
  then show ?case by (simp add: queue_writer.put_all.simps)
next
  case (Cons e es)
  obtain n p1 q1 where t: "ip_turn varint cfg e (p, q) = Inr (n, p1, q1)"
    using Cons.prems(3) by (auto split: sum.splits)
  note h = ip_turn_steps [OF Cons.prems(1) _ t]
  have e: "short_env e" using Cons.prems(2) by simp
  note h = h [OF e]
  show ?case
  proof (cases n)
    case (Ip_exit b ret)
    then have "r = Some (b, ret)" "p' = p1" "q' = q1" using Cons.prems(3) t by simp_all
    with h show ?thesis by (intro exI [of _ 1]) (simp add: Let_def)
  next
    case Ip_poll
    then have "ip_run varint cfg es (p1, q1) = Inr (r, p', q')" using Cons.prems(3) t by simp
    from Cons.IH [OF _ _ this] h Cons.prems(2) obtain m where m: "m \<le> length es" "r = None \<longrightarrow> m = length es"
      "ipc_safe (ip_cp p')" "ip_name p' = ip_name p"
      "ip_arguments (ip_cp p') = handed_over (run_steps (take m es) (ip_arguments (ip_cp p1))) (ip_arguments (ip_cp p1))"
      "queue_writer.put_all varint cfg q1 (injected (run_steps (take m es) (ip_arguments (ip_cp p1)))) = Some q'"
      by (auto simp: Let_def)
    show ?thesis
      using m h by (intro exI [of _ "Suc m"]) (simp add: Let_def queue_writer.put_all_append)
  qed
qed

section \<open>Saving and restoring\<close>

text \<open>What the end of a thread stores and what a new plugin of the name looks up.\<close>

definition ip_save :: "hs_input_plugin \<Rightarrow> hs_checkpoint_reader \<Rightarrow> hs_exit + hs_checkpoint_reader" where
  "ip_save p cpr = hs_update_checkpoint cpr (ip_name p) (ip_cp p)"

definition ip_lookup :: "bool \<Rightarrow> hs_input_plugin \<Rightarrow> hs_checkpoint_reader \<Rightarrow> hs_input_plugin" where
  "ip_lookup malloc_ok p cpr = p\<lparr>ip_cp := hs_lookup_checkpoint malloc_ok cpr (ip_name p) (ip_cp p)\<rparr>"

definition ip_saved :: "hs_input_plugin \<Rightarrow> hs_checkpoint_reader \<Rightarrow> hs_checkpoint_reader" where
  "ip_saved p cpr = (case ip_save p cpr of Inl _ \<Rightarrow> cpr | Inr c \<Rightarrow> c)"

definition ip_same :: "hs_input_plugin \<Rightarrow> hs_input_plugin \<Rightarrow> bool" where
  "ip_same q p \<longleftrightarrow> ip_name q = ip_name p \<and> ip_cp q = init_ip_checkpoint"

definition ip_position :: "hs_input_plugin \<Rightarrow> lua_number \<times> string option" where
  "ip_position p = ip_arguments (ip_cp p)"

text \<open>A stored string below the limit of the lookup, which adds a terminating zero of its own.\<close>

definition ip_storable :: "hs_input_plugin \<Rightarrow> bool" where
  "ip_storable p \<longleftrightarrow> ipc_safe (ip_cp p) \<and>
     (ipc_type (ip_cp p) = HS_CP_STRING \<longrightarrow>
        ipc_value (ip_cp p) \<noteq> Ip_s None \<and> unat (ipc_len (ip_cp p)) < HS_MAX_IP_CHECKPOINT)"

lemma c_str_take:
  "n \<le> length b \<Longrightarrow> CHR 0x00 \<in> set (take (Suc n) b) \<Longrightarrow> c_str (take n b @ [CHR 0x00]) = c_str b"
proof (induction n arbitrary: b)
  case 0
  then show ?case by (cases b) (auto simp: c_str_def)
next
  case (Suc n)
  then show ?case by (cases b) (auto simp: c_str_def)
qed

lemma ip_save_safe: "ipc_safe (ip_cp p) \<Longrightarrow> \<exists>cpr'. ip_save p cpr = Inr cpr'"
  by (auto simp: ip_save_def ipc_safe_def hs_update_checkpoint_def Let_def split: ipc_splits)

lemma ip_save_frame: "ip_save p cpr = Inr cpr' \<Longrightarrow> k \<noteq> ip_name p \<Longrightarrow> cpr_get cpr' k = cpr_get cpr k"
  by (auto simp: ip_save_def hs_update_checkpoint_def Let_def split: ipc_splits if_splits)

lemma ip_saved_frame: "k \<noteq> ip_name p \<Longrightarrow> cpr_get (ip_saved p cpr) k = cpr_get cpr k"
  by (auto simp: ip_saved_def split: sum.split dest: ip_save_frame)

lemma ip_saved_string:
  assumes "ip_storable p" and "ipc_type (ip_cp p) = HS_CP_STRING"
  obtains b where "ipc_value (ip_cp p) = Ip_s (Some b)" and "unat (ipc_len (ip_cp p)) \<le> length b"
    and "CHR 0x00 \<in> set (take (Suc (unat (ipc_len (ip_cp p)))) b)" and "unat (ipc_len (ip_cp p)) < HS_MAX_IP_CHECKPOINT"
    and "ip_saved p cpr = cpr_put cpr (ip_name p) (LString (take (unat (ipc_len (ip_cp p))) b))"
proof -
  obtain b where b: "ipc_value (ip_cp p) = Ip_s (Some b)" "unat (ipc_len (ip_cp p)) \<le> length b"
    "CHR 0x00 \<in> set (take (Suc (unat (ipc_len (ip_cp p)))) b)" "unat (ipc_len (ip_cp p)) < HS_MAX_IP_CHECKPOINT"
    using assms by (auto simp: ip_storable_def ipc_safe_def split: ipc_splits)
  then show ?thesis
    using that assms(2) by (simp add: ip_saved_def ip_save_def hs_update_checkpoint_def)
qed

lemma ip_resume:
  assumes "ip_storable p" and "ip_same q p"
  shows "ip_position (ip_lookup True q (ip_saved p cpr)) = ip_position p"
proof (cases "ipc_type (ip_cp p)")
  case HS_CP_NONE
  then show ?thesis
    using assms by (simp add: ip_position_def ip_lookup_def ip_saved_def ip_save_def ip_same_def
        hs_lookup_checkpoint_def hs_load_checkpoint_def hs_update_checkpoint_def ip_arguments_def init_ip_checkpoint_def)
next
  case HS_CP_NUMERIC
  then obtain d where "ipc_value (ip_cp p) = Ip_d d"
    using assms(1) by (auto simp: ip_storable_def ipc_safe_def split: ipc_splits)
  with HS_CP_NUMERIC show ?thesis
    using assms by (simp add: ip_position_def ip_lookup_def ip_saved_def ip_save_def ip_same_def
        hs_lookup_checkpoint_def hs_load_checkpoint_def hs_update_checkpoint_def ip_arguments_def)
next
  case HS_CP_STRING
  obtain b where b: "ipc_value (ip_cp p) = Ip_s (Some b)" "unat (ipc_len (ip_cp p)) \<le> length b"
    "CHR 0x00 \<in> set (take (Suc (unat (ipc_len (ip_cp p)))) b)" "unat (ipc_len (ip_cp p)) < HS_MAX_IP_CHECKPOINT"
    "ip_saved p cpr = cpr_put cpr (ip_name p) (LString (take (unat (ipc_len (ip_cp p))) b))"
    by (rule ip_saved_string [OF assms(1) HS_CP_STRING])
  let ?t = "take (unat (ipc_len (ip_cp p))) b"
  have "length ?t = unat (ipc_len (ip_cp p))" using b(2) by simp
  then have "hs_load_checkpoint True (LString ?t) init_ip_checkpoint =
      (False, \<lparr>ipc_type = HS_CP_STRING, ipc_len = word_of_nat (length ?t),
               ipc_cap = word_of_nat (length ?t + 1), ipc_value = Ip_s (Some (?t @ [CHR 0x00]))\<rparr>)"
    using b(4) by (simp add: hs_load_checkpoint_def init_ip_checkpoint_def Let_def)
  then have "ip_arguments (ip_cp (ip_lookup True q (ip_saved p cpr))) = (NaN, Some (c_str (?t @ [CHR 0x00])))"
    using assms(2) b(5) by (simp add: ip_lookup_def ip_same_def hs_lookup_checkpoint_def ip_arguments_def)
  then show ?thesis
    using HS_CP_STRING b(1) c_str_take [OF b(2,3)] by (simp add: ip_position_def ip_arguments_def)
qed

lemma ip_lookup_frame:
  "k \<noteq> ip_name q \<Longrightarrow> ip_lookup m q (cpr_put cpr k v) = ip_lookup m q cpr"
  by (simp add: ip_lookup_def hs_lookup_checkpoint_def)

interpretation iprun: resumable ip_saved "ip_lookup True" ip_same ip_name ip_position ip_storable
proof
  fix p q :: hs_input_plugin and s :: hs_checkpoint_reader
  assume "ip_storable p" and "ip_same q p"
  then show "ip_position (ip_lookup True q (ip_saved p s)) = ip_position p" by (rule ip_resume)
next
  fix p q :: hs_input_plugin and s :: hs_checkpoint_reader
  assume "ip_name q \<noteq> ip_name p"
  then show "ip_position (ip_lookup True q (ip_saved p s)) = ip_position (ip_lookup True q s)"
    by (simp add: ip_lookup_def hs_lookup_checkpoint_def ip_saved_frame)
qed (simp add: ip_same_def)

section \<open>Properties\<close>


definition quiet_write :: im_env where
  "quiet_write = \<lparr>env_write = True, env_statfs_roll = None, env_statfs_release = None, env_time1 = 0, env_time2 = 0\<rparr>"

text \<open>A sandbox that reads the line after its checkpoint.\<close>

definition line_reader :: ip_env where
  "line_reader = \<lparr>ie_pm_input = \<lambda>d s. ([Ip_inject quiet_write True (Some (case s of None \<Rightarrow> ''one'' | Some _ \<Rightarrow> ''two''))
       NaN (Some (case s of None \<Rightarrow> ''1'' | Some _ \<Rightarrow> ''2''))], 0), ie_posted = False\<rparr>"

definition sample_input :: hs_input_plugin where
  "sample_input = init_input_plugin (init_sandbox_config\<lparr>sbc_cfg_name := Some ''input.a'', sbc_ticker_interval := 1\<rparr>) ''a.lua''"

definition sample_input_queue :: queue where
  "sample_input_queue =
     (\<lparr>fs_files = [(''o/3.log'', ''wx'')], fs_dirs = [''o''], fs_denied = []\<rparr>,
      \<lparr>o_fh = Some ''o/3.log'', o_buf = [], o_path = ''o'', o_min_cp_id = 3, o_cp = \<lparr>cp_id = 3, cp_offset = 2\<rparr>\<rparr>,
      \<lparr>bp_last_check = 0, bp_on = False\<rparr>)"




text \<open>An input plugin that is stopped and started again, in the same process, calls its sandbox with
  the checkpoint it had, also when any number of other plugins stop around it; the string it
  stores must be shorter than the 8192 bytes the lookup allows.\<close>

theorem input_restart_resumes:
  assumes "distinct (map ip_name ps)" and "p \<in> set ps" and "ip_storable p" and "ip_same q p"
  shows "ip_arguments (ip_cp (ip_lookup True q (fold ip_saved ps cpr))) = ip_arguments (ip_cp p)"
  using iprun.resume_all [OF assms] by (simp add: ip_position_def)

theorem input_restart_resumes_witness:
  "ip_arguments (ip_cp (ip_lookup True sample_input (fold ip_saved
      [sample_input\<lparr>ip_cp := snd (ip_update_checkpoint True NaN (Some ''17'') init_ip_checkpoint)\<rparr>,
       sample_input\<lparr>ip_name := ''input.b''\<rparr>] \<lparr>cpr_values = []\<rparr>))) = (NaN, Some ''17'')"
proof -
  let ?p = "sample_input\<lparr>ip_cp := snd (ip_update_checkpoint True NaN (Some ''17'') init_ip_checkpoint)\<rparr>"
  have "distinct (map ip_name [?p, sample_input\<lparr>ip_name := ''input.b''\<rparr>])"
    "ip_storable ?p" "ip_same sample_input ?p" "ip_arguments (ip_cp ?p) = (NaN, Some ''17'')"
    by code_simp+
  with input_restart_resumes [of "[?p, sample_input\<lparr>ip_name := ''input.b''\<rparr>]" ?p sample_input "\<lparr>cpr_values = []\<rparr>"]
  show ?thesis by simp
qed

text \<open>A checkpoint string of 8191 bytes is accepted from the sandbox and saved, with its terminating
  zero, but a plugin restarted in the process is refused it: it starts from the beginning, with a
  length and no buffer, so that the next save reads outside any allocation.\<close>

theorem longest_checkpoint_lost:
  assumes "ipc_safe cp" and "no_nul t" and "length t = HS_MAX_IP_CHECKPOINT - 1"
  shows "\<exists>cp' cpr'. ip_update_checkpoint True NaN (Some t) cp = (IM_Success, cp') \<and>
    hs_update_checkpoint cpr key cp' = Inr cpr' \<and>
    ip_arguments (hs_lookup_checkpoint True cpr' key init_ip_checkpoint) = (NaN, None) \<and>
    hs_update_checkpoint cpr' key (hs_lookup_checkpoint True cpr' key init_ip_checkpoint) = Inl Undefined_behaviour"
proof -
  have len: "length t < HS_MAX_IP_CHECKPOINT" using assms(3) by simp
  obtain r c where u: "ip_update_checkpoint True NaN (Some t) cp =
      (IM_Success, \<lparr>ipc_type = HS_CP_STRING, ipc_len = word_of_nat (length t) + 1, ipc_cap = c,
                    ipc_value = Ip_s (Some (t @ CHR 0x00 # r))\<rparr>)" (is "_ = (_, ?cp)")
    using ip_update_string [OF assms(1) len] by blast
  have n: "unat (word_of_nat (length t) + 1 :: u32) = 8192" using unat_succ_len [OF len] assms(3) by simp
  let ?s = "t @ [CHR 0x00]"
  have s: "hs_update_checkpoint cpr key ?cp = Inr (cpr_put cpr key (LString ?s))"
    using n assms(3) by (simp add: hs_update_checkpoint_def)
  have l: "hs_lookup_checkpoint True (cpr_put cpr key (LString ?s)) key init_ip_checkpoint =
      \<lparr>ipc_type = HS_CP_STRING, ipc_len = 8192, ipc_cap = 0, ipc_value = Ip_d (Fin 0)\<rparr>"
    using assms(3) by (simp add: hs_lookup_checkpoint_def hs_load_checkpoint_def init_ip_checkpoint_def Let_def)
  show ?thesis
    by (rule exI [of _ ?cp], rule exI [of _ "cpr_put cpr key (LString ?s)"])
      (simp add: u s l ip_arguments_def, simp add: hs_update_checkpoint_def)
qed

theorem longest_checkpoint_lost_witness:
  "\<exists>cp' cpr'. ip_update_checkpoint True NaN (Some (replicate 8191 CHR ''x'')) init_ip_checkpoint = (IM_Success, cp') \<and>
     hs_update_checkpoint \<lparr>cpr_values = []\<rparr> ''input.a'' cp' = Inr cpr' \<and>
     ip_arguments (hs_lookup_checkpoint True cpr' ''input.a'' init_ip_checkpoint) = (NaN, None)"
  using longest_checkpoint_lost [of init_ip_checkpoint "replicate 8191 CHR ''x''" "\<lparr>cpr_values = []\<rparr>" "''input.a''"]
  by (auto simp: no_nul_def)

text \<open>A longer string is refused, but its length is stored: the next save reads past the buffer.\<close>

lemma injected_checkpoint_overread:
  assumes "ipc_safe cp" and "HS_MAX_IP_CHECKPOINT \<le> length t" and "length t < 2 ^ 32 - 1"
  shows "fst (ip_update_checkpoint m NaN (Some t) cp) = IM_Checkpoint \<and>
    hs_update_checkpoint cpr key (snd (ip_update_checkpoint m NaN (Some t) cp)) = Inl Undefined_behaviour"
proof -
  have "unat (word_of_nat (Suc (length t)) :: u32) = Suc (length t)"
    using assms(3) by (intro unat_of_nat_u32) simp
  then have "unat (word_of_nat (length t) + 1 :: u32) = Suc (length t)" by (simp add: add.commute)
  then show ?thesis using assms(1,2)
    by (auto simp: ipc_safe_def hs_update_checkpoint_def ip_update_checkpoint_def isnan_def Let_def split: ipc_splits)
qed

end
