(* ===== verification/HS_Input_Plugins.thy ===== *)
theory HS_Input_Plugins
  imports HS_Input_Thread
begin

text \<open>
  The list of input plugins (\<open>src/hs_input_plugins.c\<close>): creating a plugin and starting its thread at
  its checkpoint, what its thread does at its end, stopping it within the time limits, and the
  loading of configurations at startup and at run time.

  Joining a thread is running it: the calls its sandbox still gets within each time limit are a
  list of environments. A slot whose thread was not joined keeps the plugin.
\<close>

section \<open>State\<close>

record hs_input_plugins =
  ips_list :: "hs_input_plugin option list"
  ips_cpr :: hs_checkpoint_reader
  ips_output :: queue
  ips_list_cnt :: int

definition hs_init_input_plugins :: "hs_checkpoint_reader \<Rightarrow> queue \<Rightarrow> hs_input_plugins" where
  "hs_init_input_plugins cpr q = \<lparr>ips_list = [], ips_cpr = cpr, ips_output = q, ips_list_cnt = 0\<rparr>"

text \<open>The file system of the queue is the one the plugins' files live in.\<close>

definition ips_fs :: "hs_input_plugins \<Rightarrow> fsys" where
  "ips_fs ips = fst (ips_output ips)"

definition set_ips_fs :: "fsys \<Rightarrow> hs_input_plugins \<Rightarrow> hs_input_plugins" where
  "set_ips_fs fs ips = ips\<lparr>ips_output := (fs, snd (ips_output ips))\<rparr>"

definition ip_stem :: "hs_input_plugin \<Rightarrow> string" where
  "ip_stem p = drop (length hs_input_dir + 1) (ip_name p)"

section \<open>The end of a thread\<close>

text \<open>
  A thread that was not told to stop saves its checkpoint, writes its error when it failed, frees
  its slot and itself; the flag says whether it asks the whole process to stop.
\<close>

record ip_exit_env =
  ix_error :: "string option"
  ix_stamp :: string

definition ip_detach ::
    "hs_config \<Rightarrow> ip_exit_env \<Rightarrow> nat \<Rightarrow> hs_input_plugin \<Rightarrow> int \<Rightarrow> hs_input_plugins \<Rightarrow>
     hs_exit + (hs_input_plugins \<times> bool)" where
  "ip_detach cfg ex i p ret ips =
     (case ip_save p (ips_cpr ips) of
        Inl e \<Rightarrow> Inl e
      | Inr cpr \<Rightarrow>
          let fs = (if ret > 0
                    then hs_save_termination_err (ips_fs ips) (ix_stamp ex) (cfg_run_path cfg) (Some (ip_name p)) (ix_error ex)
                    else ips_fs ips)
          in Inr ((set_ips_fs fs ips)\<lparr>ips_list := (ips_list ips)[i := None], ips_cpr := cpr,
                                      ips_list_cnt := ips_list_cnt ips - 1\<rparr>,
                  ret > 0 \<and> ip_shutdown_terminate p))"

section \<open>Joining a thread\<close>

text \<open>
  The calls the sandbox gets within ten seconds of the signal, within two more after the forced
  stop, and whether the thread then reacts to its cancellation. \<open>ij_mid\<close> is the call under way
  when the signal was sent and that ended before the signal came.
\<close>

record ip_join_env =
  ij_mid :: "ip_env option"
  ij_clean :: "ip_env list"
  ij_forced :: "ip_env list"
  ij_cancelled :: bool

datatype ip_outcome =
    Ip_running            \<comment> \<open>the time limit has passed\<close>
  | Ip_returned           \<comment> \<open>the thread has returned\<close>
  | Ip_blocked            \<comment> \<open>it ended by itself and waits for the list's lock\<close>

text \<open>Running a thread up to its end: both kinds of end save the checkpoint first.\<close>

definition ip_run_to_end ::
    "(nat \<Rightarrow> string) \<Rightarrow> hs_config \<Rightarrow> ip_env list \<Rightarrow> hs_input_plugin \<Rightarrow> queue \<Rightarrow> hs_checkpoint_reader \<Rightarrow>
     hs_exit + (ip_outcome \<times> hs_input_plugin \<times> queue \<times> hs_checkpoint_reader)" where
  "ip_run_to_end varint cfg es p q cpr =
     (case ip_run varint cfg es (p, q) of
        Inl e \<Rightarrow> Inl e
      | Inr (None, p', q') \<Rightarrow> Inr (Ip_running, p', q', cpr)
      | Inr (Some (b, _), p', q') \<Rightarrow>
          (case ip_save p' cpr of
             Inl e \<Rightarrow> Inl e
           | Inr cpr' \<Rightarrow> Inr (if b then Ip_returned else Ip_blocked, p', q', cpr')))"

text \<open>
  \<open>join_thread\<close>: a cancelled thread ends without saving its checkpoint; a blocked one has
  disabled its cancellation. The flag is the function's result.
\<close>

definition ip_join_forced ::
    "(nat \<Rightarrow> string) \<Rightarrow> hs_config \<Rightarrow> ip_join_env \<Rightarrow> hs_input_plugin \<Rightarrow> queue \<Rightarrow> hs_checkpoint_reader \<Rightarrow>
     hs_exit + (bool \<times> hs_input_plugin \<times> queue \<times> hs_checkpoint_reader)" where
  "ip_join_forced varint cfg je p q cpr =
     (case ip_run_to_end varint cfg (ij_forced je) p q cpr of
        Inl e \<Rightarrow> Inl e
      | Inr (Ip_running, r) \<Rightarrow> Inr (ij_cancelled je, r)
      | Inr (Ip_returned, r) \<Rightarrow> Inr (True, r)
      | Inr (Ip_blocked, r) \<Rightarrow> Inr (False, r))"

definition join_thread ::
    "(nat \<Rightarrow> string) \<Rightarrow> hs_config \<Rightarrow> ip_join_env \<Rightarrow> hs_input_plugin \<Rightarrow> queue \<Rightarrow> hs_checkpoint_reader \<Rightarrow>
     hs_exit + (bool \<times> hs_input_plugin \<times> queue \<times> hs_checkpoint_reader)" where
  "join_thread varint cfg je p q cpr =
     (case ip_run_to_end varint cfg (ij_clean je) p q cpr of
        Inl e \<Rightarrow> Inl e
      | Inr (Ip_running, p', q', cpr') \<Rightarrow> ip_join_forced varint cfg je p' q' cpr'
      | Inr (Ip_returned, r) \<Rightarrow> Inr (True, r)
      | Inr (Ip_blocked, r) \<Rightarrow> Inr (False, r))"

text \<open>The signal, which the call under way may have come too early for, then the join.\<close>

definition signal_and_join ::
    "(nat \<Rightarrow> string) \<Rightarrow> hs_config \<Rightarrow> ip_join_env \<Rightarrow> hs_input_plugin \<Rightarrow> queue \<Rightarrow> hs_checkpoint_reader \<Rightarrow>
     hs_exit + (bool \<times> hs_input_plugin \<times> queue \<times> hs_checkpoint_reader)" where
  "signal_and_join varint cfg je p q cpr =
     (case ip_run_to_end varint cfg (case ij_mid je of None \<Rightarrow> [] | Some e \<Rightarrow> [e]) p q cpr of
        Inl e \<Rightarrow> Inl e
      | Inr (Ip_running, p', q', cpr') \<Rightarrow> join_thread varint cfg je (post_shutdown p') q' cpr'
      | Inr (Ip_returned, p', q', cpr') \<Rightarrow> Inr (True, post_shutdown p', q', cpr')
      | Inr (Ip_blocked, p', q', cpr') \<Rightarrow> Inr (False, post_shutdown p', q', cpr'))"

definition remove_input_plugin ::
    "(nat \<Rightarrow> string) \<Rightarrow> hs_config \<Rightarrow> ip_join_env \<Rightarrow> nat \<Rightarrow> hs_input_plugins \<Rightarrow> hs_exit + (bool \<times> hs_input_plugins)" where
  "remove_input_plugin varint cfg je i ips =
     (case ips_list ips ! i of
        None \<Rightarrow> Inl Undefined_behaviour
      | Some p \<Rightarrow>
          (case signal_and_join varint cfg je p (ips_output ips) (ips_cpr ips) of
             Inl e \<Rightarrow> Inl e
           | Inr (True, _, q, cpr) \<Rightarrow>
               Inr (True, ips\<lparr>ips_list := (ips_list ips)[i := None], ips_output := q, ips_cpr := cpr,
                              ips_list_cnt := ips_list_cnt ips - 1\<rparr>)
           | Inr (False, p', q, cpr) \<Rightarrow>
               Inr (False, ips\<lparr>ips_list := (ips_list ips)[i := Some p'], ips_output := q, ips_cpr := cpr\<rparr>)))"

definition remove_from_input_plugins ::
    "(nat \<Rightarrow> string) \<Rightarrow> hs_config \<Rightarrow> ip_join_env \<Rightarrow> string \<Rightarrow> hs_input_plugins \<Rightarrow> hs_exit + (bool \<times> hs_input_plugins)" where
  "remove_from_input_plugins varint cfg je name ips =
     (case find_plugin ip_stem name (ips_list ips) of
        None \<Rightarrow> Inr (True, ips)
      | Some i \<Rightarrow> remove_input_plugin varint cfg je i ips)"

section \<open>Starting a plugin\<close>

definition add_to_input_plugins :: "bool \<Rightarrow> hs_input_plugin \<Rightarrow> hs_input_plugins \<Rightarrow> hs_input_plugins" where
  "add_to_input_plugins malloc_ok p ips =
     (let p1 = ip_lookup malloc_ok (p\<lparr>ip_list_index := int (free_slot (ips_list ips))\<rparr>) (ips_cpr ips)
      in ips\<lparr>ips_list := slot_add p1 (ips_list ips), ips_list_cnt := ips_list_cnt ips + 1\<rparr>)"

definition create_input_plugin ::
    "sandbox_lib \<Rightarrow> fsys \<Rightarrow> hs_config \<Rightarrow> hs_sandbox_config \<Rightarrow> hs_exit + (hs_input_plugin option \<times> fsys)" where
  "create_input_plugin lib fs cfg sbc =
     (case prepare_sandbox lib (CHR ''i'') hs_input_dir fs cfg sbc of
        Inl e \<Rightarrow> Inl e
      | Inr (None, fs') \<Rightarrow> Inr (None, fs')
      | Inr (Some lua_file, fs') \<Rightarrow> Inr (Some (init_input_plugin sbc lua_file), fs'))"

text \<open>One configuration of the run directory.\<close>

definition load_input_plugin ::
    "sandbox_lib \<Rightarrow> bool \<Rightarrow> hs_config \<Rightarrow> string \<Rightarrow> string \<Rightarrow> hs_input_plugins \<Rightarrow> hs_exit + hs_input_plugins" where
  "load_input_plugin lib malloc_ok cfg dir fn ips =
     (case hs_load_sandbox_config (sl_lua lib) (ips_fs ips) dir fn (cfg_ipd cfg) (CHR ''i'') of
        Inl e \<Rightarrow> Inl e
      | Inr (fs1, None) \<Rightarrow> Inr (set_ips_fs fs1 ips)
      | Inr (fs1, Some sbc) \<Rightarrow>
          (case create_input_plugin lib fs1 cfg sbc of
             Inl e \<Rightarrow> Inl e
           | Inr (None, fs2) \<Rightarrow> Inr (set_ips_fs fs2 ips)
           | Inr (Some p, fs2) \<Rightarrow> Inr (add_to_input_plugins malloc_ok p (set_ips_fs fs2 ips))))"

definition hs_load_input_startup ::
    "sandbox_lib \<Rightarrow> bool \<Rightarrow> hs_config \<Rightarrow> hs_input_plugins \<Rightarrow> hs_exit + hs_input_plugins" where
  "hs_load_input_startup lib malloc_ok cfg ips =
     (let dir = str_of (cfg_run_path_input cfg); fs = hs_prune_err (ips_fs ips) dir
      in case readdir fs dir of
           None \<Rightarrow> Inl No_such_directory
         | Some es \<Rightarrow> fold_exit (load_input_plugin lib malloc_ok cfg dir) es (set_ips_fs fs ips))"

text \<open>A plugin that could not be stopped is not loaded again.\<close>

definition reload_input ::
    "sandbox_lib \<Rightarrow> (nat \<Rightarrow> string) \<Rightarrow> bool \<Rightarrow> hs_config \<Rightarrow> ip_join_env \<Rightarrow> string \<Rightarrow> hs_input_plugins \<Rightarrow>
     hs_exit + hs_input_plugins" where
  "reload_input lib varint malloc_ok cfg je name ips =
     (case remove_from_input_plugins varint cfg je name ips of
        Inl e \<Rightarrow> Inl e
      | Inr (False, ips1) \<Rightarrow> Inr ips1
      | Inr (True, ips1) \<Rightarrow> load_input_plugin lib malloc_ok cfg (str_of (cfg_run_path_input cfg)) name ips1)"

definition input_process_lua :: "hs_config \<Rightarrow> string \<Rightarrow> hs_input_plugins \<Rightarrow> hs_exit + hs_input_plugins" where
  "input_process_lua cfg name ips =
     (case process_lua_files (ips_fs ips) (str_of (cfg_load_path_input cfg)) (str_of (cfg_run_path_input cfg)) name
             (map (\<lambda>p. (ip_lua_file p, ip_stem p)) (occupied (ips_list ips))) of
        Inl e \<Rightarrow> Inl e
      | Inr fs \<Rightarrow> Inr (set_ips_fs fs ips))"

definition hs_load_input_dynamic ::
    "sandbox_lib \<Rightarrow> (nat \<Rightarrow> string) \<Rightarrow> bool \<Rightarrow> hs_config \<Rightarrow> ip_join_env \<Rightarrow> string \<Rightarrow> hs_input_plugins \<Rightarrow>
     hs_exit + hs_input_plugins" where
  "hs_load_input_dynamic lib varint malloc_ok cfg je name ips =
     (let lpath = str_of (cfg_load_path_input cfg); rpath = str_of (cfg_run_path_input cfg) in
      if hs_has_ext name hs_lua_ext then
        input_process_lua cfg name ips
      else
        (case hs_process_load_cfg (ips_fs ips) lpath rpath name of
           Inl e \<Rightarrow> Inl e
         | Inr (code, fs1) \<Rightarrow>
             if code = 0 then
               (case remove_from_input_plugins varint cfg je name (set_ips_fs fs1 ips) of
                  Inl e \<Rightarrow> Inl e
                | Inr (_, ips1) \<Rightarrow> Inr ips1)
             else if code = 1 then reload_input lib varint malloc_ok cfg je name (set_ips_fs fs1 ips)
             else Inr (set_ips_fs fs1 ips)))"

section \<open>Shutdown\<close>

definition hs_stop_input_plugins :: "hs_input_plugins \<Rightarrow> hs_input_plugins" where
  "hs_stop_input_plugins ips = ips\<lparr>ips_list := map (map_option post_shutdown) (ips_list ips)\<rparr>"

text \<open>
  One environment per slot; the call under way at the stop may have ended before its signal, so
  the join starts from the plugin without it. The plugins whose threads were not joined are leaked.
\<close>

definition before_signal :: "hs_input_plugin \<Rightarrow> hs_input_plugin" where
  "before_signal p = p\<lparr>ip_shutdown := ip_shutdown p - 1\<rparr>"

fun wait_slots ::
    "(nat \<Rightarrow> string) \<Rightarrow> hs_config \<Rightarrow> (nat \<Rightarrow> ip_join_env) \<Rightarrow> nat \<Rightarrow> hs_input_plugin option list \<Rightarrow>
     queue \<Rightarrow> hs_checkpoint_reader \<Rightarrow> hs_exit + (hs_input_plugin list \<times> int \<times> queue \<times> hs_checkpoint_reader)" where
  "wait_slots varint cfg jes i [] q cpr = Inr ([], 0, q, cpr)"
| "wait_slots varint cfg jes i (None # xs) q cpr = wait_slots varint cfg jes (Suc i) xs q cpr"
| "wait_slots varint cfg jes i (Some p # xs) q cpr =
     (case signal_and_join varint cfg (jes i) (before_signal p) q cpr of
        Inl e \<Rightarrow> Inl e
      | Inr (joined, p', q', cpr') \<Rightarrow>
          (case wait_slots varint cfg jes (Suc i) xs q' cpr' of
             Inl e \<Rightarrow> Inl e
           | Inr (leaked, n, r) \<Rightarrow> Inr (if joined then (leaked, n + 1, r) else (p' # leaked, n, r))))"

definition hs_wait_input_plugins ::
    "(nat \<Rightarrow> string) \<Rightarrow> hs_config \<Rightarrow> (nat \<Rightarrow> ip_join_env) \<Rightarrow> hs_input_plugins \<Rightarrow>
     hs_exit + (hs_input_plugin list \<times> hs_input_plugins)" where
  "hs_wait_input_plugins varint cfg jes ips =
     (case wait_slots varint cfg jes 0 (ips_list ips) (ips_output ips) (ips_cpr ips) of
        Inl e \<Rightarrow> Inl e
      | Inr (leaked, n, q, cpr) \<Rightarrow>
          Inr (leaked, ips\<lparr>ips_list := map (\<lambda>_. None) (ips_list ips), ips_output := q, ips_cpr := cpr,
                           ips_list_cnt := ips_list_cnt ips - n\<rparr>))"

definition hs_free_input_plugins :: "hs_input_plugins \<Rightarrow> hs_input_plugins" where
  "hs_free_input_plugins ips = ips\<lparr>ips_list := [], ips_list_cnt := 0\<rparr>"

section \<open>What a join leaves\<close>

lemma ip_saved_cong: "ip_name p = ip_name q \<Longrightarrow> ip_cp p = ip_cp q \<Longrightarrow> ip_saved p cpr = ip_saved q cpr"
  by (simp add: ip_saved_def ip_save_def)

lemma ip_saved_post [simp]: "ip_saved (post_shutdown p) cpr = ip_saved p cpr"
  by (rule ip_saved_cong) (simp_all add: post_shutdown_def)

lemma post_shutdown_simps [simp]:
  "ip_name (post_shutdown p) = ip_name p" "ip_cp (post_shutdown p) = ip_cp p"
  by (simp_all add: post_shutdown_def)

lemma before_signal_simps [simp]:
  "ip_name (before_signal p) = ip_name p" "ip_cp (before_signal p) = ip_cp p"
  by (simp_all add: before_signal_def)

lemma ip_do_step_name: "ip_do_step varint cfg x st = Inr st' \<Longrightarrow> ip_name (fst st') = ip_name (fst st)"
  by (cases x) (auto simp: ip_do_step_def ip_inject_def ip_inject_checkpoint_def split: sum.splits prod.splits)

lemma ip_steps_name: "fold_exit (ip_do_step varint cfg) xs st = Inr st' \<Longrightarrow> ip_name (fst st') = ip_name (fst st)"
  by (induction xs arbitrary: st) (auto split: sum.splits dest!: ip_do_step_name)

lemma ip_turn_name: "ip_turn varint cfg e st = Inr (n, st') \<Longrightarrow> ip_name (fst st') = ip_name (fst st)"
  by (auto simp: ip_turn_def split: sum.splits prod.splits bool.splits if_splits
      dest!: ip_steps_name try_shutdown_frame)

lemma ip_run_name: "ip_run varint cfg es st = Inr (r, st') \<Longrightarrow> ip_name (fst st') = ip_name (fst st)"
  by (induction varint cfg es st rule: ip_run.induct)
    (auto split: sum.splits ip_next.splits dest!: ip_turn_name)

lemma ip_run_to_end_saved:
  assumes "ip_run_to_end varint cfg es p q cpr = Inr (r, p', q', cpr')"
  shows "ip_name p' = ip_name p \<and> cpr' = (if r = Ip_running then cpr else ip_saved p' cpr)"
  using assms
  by (auto simp: ip_run_to_end_def ip_saved_def split: sum.splits option.splits if_splits dest!: ip_run_name)

lemma join_thread_saved:
  assumes "join_thread varint cfg je p q cpr = Inr (True, p', q', cpr')" and "\<not> ij_cancelled je"
  shows "ip_name p' = ip_name p \<and> cpr' = ip_saved p' cpr"
  using assms
  by (auto simp: join_thread_def ip_join_forced_def split: sum.splits ip_outcome.splits dest!: ip_run_to_end_saved)

lemma signal_and_join_saved:
  assumes "signal_and_join varint cfg je p q cpr = Inr (True, p', q', cpr')" and "\<not> ij_cancelled je"
  shows "ip_name p' = ip_name p \<and> cpr' = ip_saved p' cpr"
  using assms
  by (auto simp: signal_and_join_def split: sum.splits ip_outcome.splits dest!: ip_run_to_end_saved join_thread_saved)

text \<open>The states a plugin's thread may end in when it is told to stop.\<close>

definition ends_as :: "(nat \<Rightarrow> string) \<Rightarrow> hs_config \<Rightarrow> hs_input_plugin \<Rightarrow> hs_input_plugin \<Rightarrow> bool" where
  "ends_as varint cfg p p' \<longleftrightarrow>
     (\<exists>je q cpr q' cpr'. signal_and_join varint cfg je (before_signal p) q cpr = Inr (True, p', q', cpr'))"

lemma ends_as_I:
  "signal_and_join varint cfg je (before_signal p) q cpr = Inr (True, p', q', cpr') \<Longrightarrow> ends_as varint cfg p p'"
  unfolding ends_as_def by blast

lemma wait_slots_saved:
  assumes "wait_slots varint cfg jes i xs q cpr = Inr ([], n, q', cpr')" and "\<forall>i. \<not> ij_cancelled (jes i)"
  shows "\<exists>ps. list_all2 (ends_as varint cfg) (occupied xs) ps \<and>
    map ip_name ps = map ip_name (occupied xs) \<and> cpr' = fold ip_saved ps cpr \<and> n = int (length ps)"
  using assms
proof (induction varint cfg jes i xs q cpr arbitrary: n rule: wait_slots.induct)
  case (3 varint cfg jes i p xs q cpr)
  obtain p1 q1 c1 m where s: "signal_and_join varint cfg (jes i) (before_signal p) q cpr = Inr (True, p1, q1, c1)"
    and w: "wait_slots varint cfg jes (Suc i) xs q1 c1 = Inr ([], m, q', cpr')" and n: "n = m + 1"
    using 3(2) by (auto split: sum.splits if_splits)
  obtain ps where ps: "list_all2 (ends_as varint cfg) (occupied xs) ps"
    "map ip_name ps = map ip_name (occupied xs)" "cpr' = fold ip_saved ps c1" "m = int (length ps)"
    using 3(1) s w 3(3) by blast
  have "ip_name p1 = ip_name p \<and> c1 = ip_saved p1 cpr"
    using signal_and_join_saved [OF s] 3(3) by simp
  then show ?case using ends_as_I [OF s] ps n by (intro exI [of _ "p1 # ps"]) simp
qed auto

text \<open>A plugin added to the list starts at what the table holds for its name.\<close>

lemma add_to_input_plugins_list:
  "mset (occupied (ips_list (add_to_input_plugins m p ips))) =
   add_mset (ip_lookup m (p\<lparr>ip_list_index := int (free_slot (ips_list ips))\<rparr>) (ips_cpr ips)) (mset (occupied (ips_list ips)))"
  by (simp add: add_to_input_plugins_def Let_def slot_add_occupied)

lemma ip_position_index: "ip_arguments (ip_cp (ip_lookup m (p\<lparr>ip_list_index := i\<rparr>) cpr)) = ip_arguments (ip_cp (ip_lookup m p cpr))"
  by (simp add: ip_lookup_def)

section \<open>Properties\<close>

text \<open>C25: reloading an input plugin whose thread stops in time: its slot is freed, the new plugin of the name
  takes its place in the list, the others stay, and the new sandbox is called with the checkpoint
  the old one left behind.\<close>

theorem input_reload_resumes:
  assumes "i < length (ips_list ips)" and "ips_list ips ! i = Some p"
    and "signal_and_join varint cfg je p (ips_output ips) (ips_cpr ips) = Inr (True, p', q', cpr')"
    and "\<not> ij_cancelled je" and "ip_storable p'" and "ip_name new = ip_name p" and "ip_cp new = init_ip_checkpoint"
  shows "\<exists>ips1 p2. remove_input_plugin varint cfg je i ips = Inr (True, ips1) \<and>
    mset (occupied (ips_list (add_to_input_plugins True new ips1))) =
      add_mset p2 (mset (occupied (ips_list ips)) - {#p#}) \<and>
    ips_list_cnt (add_to_input_plugins True new ips1) = ips_list_cnt ips \<and>
    ips_output ips1 = q' \<and> ip_arguments (ip_cp p2) = ip_arguments (ip_cp p')"
proof -
  let ?ips1 = "ips\<lparr>ips_list := (ips_list ips)[i := None], ips_output := q', ips_cpr := cpr',
      ips_list_cnt := ips_list_cnt ips - 1\<rparr>"
  let ?new = "new\<lparr>ip_list_index := int (free_slot (ips_list ?ips1))\<rparr>"
  have r: "remove_input_plugin varint cfg je i ips = Inr (True, ?ips1)"
    using assms(2,3) by (simp add: remove_input_plugin_def)
  have c: "ip_name p' = ip_name p" "cpr' = ip_saved p' (ips_cpr ips)"
    using signal_and_join_saved [OF assms(3,4)] by simp_all
  have "ip_same new p'" using assms(6,7) c(1) by (simp add: ip_same_def)
  then have "ip_arguments (ip_cp (ip_lookup True ?new cpr')) = ip_arguments (ip_cp p')"
    using iprun.resume [OF assms(5)] c(2) ip_position_index by (simp add: ip_position_def)
  moreover have "mset (occupied ((ips_list ips)[i := None])) = mset (occupied (ips_list ips)) - {#p#}"
    using occupied_update_None [OF assms(1,2)] by simp
  ultimately show ?thesis
    using r by (intro exI [of _ ?ips1] exI [of _ "ip_lookup True ?new cpr'"])
      (simp add: add_to_input_plugins_list, simp add: add_to_input_plugins_def Let_def)
qed

definition sample_inputs :: "hs_input_plugin option list \<Rightarrow> hs_input_plugins" where
  "sample_inputs xs = \<lparr>ips_list = xs, ips_cpr = \<lparr>cpr_values = []\<rparr>, ips_output = sample_input_queue,
     ips_list_cnt = int (length (occupied xs))\<rparr>"

definition prompt_join :: ip_join_env where
  "prompt_join = \<lparr>ij_mid = Some line_reader, ij_clean = [line_reader], ij_forced = [], ij_cancelled = False\<rparr>"

theorem input_reload_resumes_witness:
  "\<exists>ips1 p2. remove_input_plugin (\<lambda>n. [char_of n]) (init_config 1) prompt_join 1 (sample_inputs [None, Some sample_input]) = Inr (True, ips1) \<and>
     mset (occupied (ips_list (add_to_input_plugins True sample_input ips1))) = {#p2#} \<and>
     ip_arguments (ip_cp p2) = (NaN, Some ''2'')"
proof -
  let ?ips = "sample_inputs [None, Some sample_input]"
  let ?j = "signal_and_join (\<lambda>n. [char_of n]) (init_config 1) prompt_join sample_input (ips_output ?ips) (ips_cpr ?ips)"
  have "case ?j of Inr (True, p', q', cpr') \<Rightarrow> ip_storable p' \<and> ip_arguments (ip_cp p') = (NaN, Some ''2'') | _ \<Rightarrow> False"
    by code_simp
  then obtain p' q' cpr' where j: "?j = Inr (True, p', q', cpr')" "ip_storable p'" "ip_arguments (ip_cp p') = (NaN, Some ''2'')"
    by (auto split: sum.splits bool.splits)
  have h: "1 < length (ips_list ?ips)" "ips_list ?ips ! 1 = Some sample_input" "\<not> ij_cancelled prompt_join"
    "ip_name sample_input = ip_name sample_input" "ip_cp sample_input = init_ip_checkpoint"
    "mset (occupied (ips_list ?ips)) - {#sample_input#} = {#}"
    by (simp_all add: sample_inputs_def prompt_join_def, simp add: sample_input_def init_input_plugin_def)
  from input_reload_resumes [OF h(1,2) j(1) h(3) j(2) h(4,5)] j(3) h(6) show ?thesis by auto
qed

text \<open>The shutdown of the input plugins, when every thread returns in time, leaves no plugin in the
  list, and in the table every plugin's checkpoint as its thread ended with it: a plugin of the
  name started on that table calls its sandbox with it.\<close>

theorem input_shutdown_saves:
  assumes "distinct (map ip_name (occupied (ips_list ips)))" and "\<forall>i. \<not> ij_cancelled (jes i)"
    and "hs_wait_input_plugins varint cfg jes (hs_stop_input_plugins ips) = Inr ([], ips')"
  shows "occupied (ips_list ips') = [] \<and>
    ips_list_cnt ips' = ips_list_cnt ips - int (length (occupied (ips_list ips))) \<and>
    (\<exists>ps. list_all2 (\<lambda>p. ends_as varint cfg (post_shutdown p)) (occupied (ips_list ips)) ps \<and>
      (\<forall>p \<in> set ps. ip_storable p \<longrightarrow>
         (\<forall>q. ip_same q p \<longrightarrow> ip_arguments (ip_cp (ip_lookup True q (ips_cpr ips'))) = ip_arguments (ip_cp p))))"
proof -
  let ?xs = "ips_list (hs_stop_input_plugins ips)"
  have occ: "occupied ?xs = map post_shutdown (occupied (ips_list ips))"
    by (simp add: hs_stop_input_plugins_def occupied_map)
  obtain n q cpr where w: "wait_slots varint cfg jes 0 ?xs (ips_output (hs_stop_input_plugins ips))
      (ips_cpr (hs_stop_input_plugins ips)) = Inr ([], n, q, cpr)"
    and i: "ips' = (hs_stop_input_plugins ips)\<lparr>ips_list := map (\<lambda>_. None) ?xs, ips_output := q, ips_cpr := cpr,
      ips_list_cnt := ips_list_cnt (hs_stop_input_plugins ips) - n\<rparr>"
    using assms(3) by (auto simp: hs_wait_input_plugins_def split: sum.splits)
  obtain ps where ps: "list_all2 (ends_as varint cfg) (occupied ?xs) ps"
    "map ip_name ps = map ip_name (occupied ?xs)" "cpr = fold ip_saved ps (ips_cpr (hs_stop_input_plugins ips))"
    "n = int (length ps)"
    using wait_slots_saved [OF w assms(2)] by blast
  have "distinct (map ip_name ps)" using ps(2) occ assms(1) by (simp add: comp_def)
  then have "\<forall>p \<in> set ps. ip_storable p \<longrightarrow>
      (\<forall>q. ip_same q p \<longrightarrow> ip_arguments (ip_cp (ip_lookup True q cpr)) = ip_arguments (ip_cp p))"
    using iprun.resume_all [of ps] ps(3) by (simp add: ip_position_def)
  moreover have "length ps = length (occupied (ips_list ips))"
    using list_all2_lengthD [OF ps(1)] occ by simp
  moreover have "list_all2 (\<lambda>p. ends_as varint cfg (post_shutdown p)) (occupied (ips_list ips)) ps"
    using ps(1) by (simp add: occ list_all2_map1)
  moreover have "occupied (ips_list ips') = []" "ips_cpr ips' = cpr" "ips_list_cnt ips' = ips_list_cnt ips - n"
    using occupied_none [of ?xs] by (simp_all add: i hs_stop_input_plugins_def del: occupied_none)
  ultimately show ?thesis using ps(4) by (intro conjI exI [of _ ps]) simp_all
qed

theorem input_shutdown_saves_witness:
  "\<exists>ips'. hs_wait_input_plugins (\<lambda>n. [char_of n]) (init_config 1) (\<lambda>_. prompt_join)
     (hs_stop_input_plugins (sample_inputs [None, Some sample_input])) = Inr ([], ips') \<and> ips_list_cnt ips' = 0"
proof -
  let ?ips = "sample_inputs [None, Some sample_input]"
  let ?w = "hs_wait_input_plugins (\<lambda>n. [char_of n]) (init_config 1) (\<lambda>_. prompt_join) (hs_stop_input_plugins ?ips)"
  have "case ?w of Inr ([], _) \<Rightarrow> True | _ \<Rightarrow> False" by code_simp
  then obtain ips' where w: "?w = Inr ([], ips')" by (auto split: sum.splits list.splits)
  have "distinct (map ip_name (occupied (ips_list ?ips)))" "\<forall>i. \<not> ij_cancelled ((\<lambda>_ :: nat. prompt_join) i)"
    "ips_list_cnt ?ips = 1" "length (occupied (ips_list ?ips)) = 1"
    by (simp_all add: sample_inputs_def prompt_join_def)
  with input_shutdown_saves [OF _ _ w] w show ?thesis by auto
qed

text \<open>
  A plugin that cannot be stopped in time is not loaded again, though its new configuration has
  been moved to the run directory: the reload is lost until the next start.
\<close>

lemma reload_pending:
  assumes "hs_has_ext name hs_cfg_ext"
    and "hs_process_load_cfg (ips_fs ips) (str_of (cfg_load_path_input cfg)) (str_of (cfg_run_path_input cfg)) name = Inr (1, fs1)"
    and "find_plugin ip_stem name (ips_list ips) = Some i" and "ips_list ips ! i = Some p"
    and "signal_and_join varint cfg je p (fs1, snd (ips_output ips)) (ips_cpr ips) = Inr (False, p', q', cpr')"
  shows "hs_load_input_dynamic lib varint m cfg je name ips =
    Inr (ips\<lparr>ips_list := (ips_list ips)[i := Some p'], ips_output := q', ips_cpr := cpr'\<rparr>)"
proof -
  have n: "\<not> hs_has_ext name hs_lua_ext" using assms(1) by (auto simp: hs_has_ext_iff)
  have "remove_from_input_plugins varint cfg je name (set_ips_fs fs1 ips) =
      Inr (False, ips\<lparr>ips_list := (ips_list ips)[i := Some p'], ips_output := q', ips_cpr := cpr'\<rparr>)"
    using assms(3-5) by (simp add: remove_from_input_plugins_def remove_input_plugin_def set_ips_fs_def)
  then show ?thesis
    using n assms(2) by (simp add: hs_load_input_dynamic_def reload_input_def)
qed

end
