(* ===== verification/HS_Delivery.thy ===== *)
theory HS_Delivery
  imports HS_Input
begin

text \<open>
  The delivery half of \<open>src/hs_output_plugins.c\<close>: an output plugin's record, its checkpoints
  (\<open>cur\<close>: the message being processed, \<open>cp\<close>: what is safe to forget, and a ring of positions
  awaiting an asynchronous acknowledgement), \<open>output_message\<close> and the acknowledgement callback.
  The sandbox is a parameter: a call of it makes some callbacks and returns a code. The running
  statistics, which only feed reports, are left out; \<open>pm_sample\<close> is kept.
\<close>

section \<open>State\<close>

record hs_output_plugin =
  op_name :: string
  op_lua_file :: string
  op_running :: bool
  op_sequence_id :: u64
  op_ack_sequence_id :: u64
  op_ticker_interval :: int
  op_ticker_expires :: int
  op_mm_delta_cnt :: int
  op_pm_delta_cnt :: int
  op_max_mps :: int
  op_list_index :: int
  op_batching :: bool
  op_stop :: bool
  op_sample :: bool
  op_pm_sample :: bool
  op_rm_cp_terminate :: bool
  op_shutdown_terminate :: bool
  op_read_queue :: char
  op_input :: hs_input
  op_analysis :: hs_input
  op_cp :: hs_checkpoint_pair
  op_cur :: hs_checkpoint_pair
  op_async_cp :: "hs_checkpoint_pair list option"
  op_async_len :: int

text \<open>The result of \<open>lsb_heka_pm_output\<close>; all but the last are the codes \<open>\<le> 0\<close>.\<close>

datatype pm_ret = PM_Sent | PM_Fail | PM_Retry | PM_Batch | PM_Async | PM_Other | PM_Fatal

text \<open>What one call of \<open>output_message\<close> meets: the matcher's verdict, the sandbox's result with
  the sequence ids it acknowledged meanwhile (0 is a null pointer), and the same for the timer.\<close>

record om_env =
  om_matched :: bool
  om_acks :: "u64 list"
  om_ret :: pm_ret
  om_te_acks :: "u64 list"
  om_te_fatal :: bool

text \<open>
  The record a new plugin starts with: zeroed by \<open>calloc\<close>, then filled from its configuration;
  \<open>now\<close> and \<open>rnd\<close> are \<open>time(NULL)\<close> and \<open>rand()\<close>, \<open>hsi\<close> the two queue readers.
\<close>

definition init_output_plugin ::
    "hs_sandbox_config \<Rightarrow> string \<Rightarrow> int \<Rightarrow> int \<Rightarrow> hs_input \<Rightarrow> hs_input \<Rightarrow> hs_output_plugin" where
  "init_output_plugin sbc lua_file now rnd hsi_i hsi_a =
     (let interval = sint (sbc_ticker_interval sbc);
          stagger = (if interval > 60 then 60 else interval);
          zero = \<lparr>cp_id = 0, cp_offset = 0\<rparr>;
          zeros = \<lparr>cpp_input = zero, cpp_analysis = zero\<rparr>;
          n = sbc_async_buffer_size sbc
      in \<lparr>op_name = str_of (sbc_cfg_name sbc), op_lua_file = lua_file,
          op_running = True, op_sequence_id = 0, op_ack_sequence_id = 0,
          op_ticker_interval = interval,
          op_ticker_expires = (if stagger \<noteq> 0 then now + rnd mod \<bar>stagger\<bar> else 0),
          op_mm_delta_cnt = 0, op_pm_delta_cnt = 0, op_max_mps = 0, op_list_index = -1, op_batching = False,
          op_stop = False, op_sample = False, op_pm_sample = True,
          op_rm_cp_terminate = sbc_rm_cp_terminate sbc,
          op_shutdown_terminate = sbc_shutdown_terminate sbc,
          op_read_queue = sbc_read_queue sbc, op_input = hsi_i, op_analysis = hsi_a,
          op_cp = zeros, op_cur = zeros,
          op_async_cp = (if n > 0 then Some (replicate (unat n) zeros) else None),
          op_async_len = (if n > 0 then sint n else 0)\<rparr>)"

section \<open>Operations\<close>

definition op_update_checkpoint :: "hs_output_plugin \<Rightarrow> hs_output_plugin" where
  "op_update_checkpoint p = p\<lparr>op_cp := op_cur p\<rparr>"

definition async_index :: "u64 \<Rightarrow> int \<Rightarrow> nat" where
  "async_index sequence_id len = nat (uint sequence_id mod len)"

definition later_position :: "hs_checkpoint \<Rightarrow> hs_checkpoint \<Rightarrow> hs_checkpoint" where
  "later_position e cp =
     (if cp_id e = cp_id cp \<and> cp_offset e > cp_offset cp \<or> cp_id e > cp_id cp then e else cp)"

definition update_checkpoint_callback :: "hs_output_plugin \<Rightarrow> u64 \<Rightarrow> hs_output_plugin" where
  "update_checkpoint_callback p sequence_id =
     (case (sequence_id \<noteq> 0, op_async_cp p) of
        (True, Some acp) \<Rightarrow>
          let p1 = (if sequence_id > op_ack_sequence_id p \<or> op_sequence_id p < op_ack_sequence_id p
                    then p\<lparr>op_ack_sequence_id := sequence_id\<rparr> else p);
              e = acp ! async_index sequence_id (op_async_len p)
          in p1\<lparr>op_cp := \<lparr>cpp_input = later_position (cpp_input e) (cpp_input (op_cp p)),
                         cpp_analysis = later_position (cpp_analysis e) (cpp_analysis (op_cp p))\<rparr>\<rparr>
      | _ \<Rightarrow> if op_batching p then (op_update_checkpoint p)\<lparr>op_batching := False\<rparr> else p)"

definition run_acks :: "u64 list \<Rightarrow> hs_output_plugin \<Rightarrow> hs_output_plugin" where
  "run_acks acks p = foldl update_checkpoint_callback p acks"

definition store_async :: "hs_output_plugin \<Rightarrow> hs_output_plugin" where
  "store_async p =
     (if op_async_len p \<noteq> 0 then
        p\<lparr>op_async_cp := map_option
            (\<lambda>acp. acp[async_index (op_sequence_id p + 1) (op_async_len p) := op_cur p]) (op_async_cp p)\<rparr>
      else p)"

text \<open>From the call of the sandbox to the end of \<open>if (matched)\<close>.\<close>

definition process_matched :: "om_env \<Rightarrow> hs_output_plugin \<Rightarrow> pm_ret \<times> hs_output_plugin" where
  "process_matched env p =
     (let p1 = (run_acks (om_acks env) (store_async p))\<lparr>op_pm_sample := False\<rparr>;
          ret = om_ret env
      in if ret = PM_Fatal then (ret, p1)
         else
           let (ret2, p2) =
                 (case ret of
                    PM_Sent \<Rightarrow> (ret, p1\<lparr>op_batching := False\<rparr>)
                  | PM_Batch \<Rightarrow> (ret, p1\<lparr>op_batching := True\<rparr>)
                  | PM_Async \<Rightarrow>
                      if op_async_len p1 = 0 then (PM_Fatal, p1\<lparr>op_running := False\<rparr>) else (ret, p1)
                  | _ \<Rightarrow> (ret, p1))
           in if ret2 \<noteq> PM_Retry
              then (ret2, p2\<lparr>op_pm_delta_cnt := op_pm_delta_cnt p2 + 1,
                            op_sequence_id := op_sequence_id p2 + 1\<rparr>)
              else (ret2, p2))"

definition advance_checkpoint :: "pm_ret \<Rightarrow> hs_output_plugin \<Rightarrow> hs_output_plugin" where
  "advance_checkpoint ret p =
     (let pending = (op_async_len p \<noteq> 0 \<and> op_sequence_id p \<noteq> op_ack_sequence_id p)
      in if ret \<noteq> PM_Fatal \<and> \<not> op_batching p \<and> \<not> pending \<and> ret \<noteq> PM_Retry
         then op_update_checkpoint p else p)"

text \<open>\<open>has_raw\<close> is false for the idle message that only drives the timer.\<close>

definition message_part ::
    "hs_output_plugin \<Rightarrow> bool \<Rightarrow> bool \<Rightarrow> om_env \<Rightarrow> pm_ret \<times> hs_output_plugin" where
  "message_part p has_raw sample env =
     (if has_raw then
        let p0 = (if sample then p\<lparr>op_pm_sample := True\<rparr> else p);
            (r, q) = (if om_matched env then process_matched env p0 else (PM_Sent, p0))
        in (r, advance_checkpoint r q)
      else (PM_Sent, p))"

definition timer_fires :: "hs_output_plugin \<Rightarrow> pm_ret \<Rightarrow> int \<Rightarrow> bool" where
  "timer_fires p ret current_t \<longleftrightarrow>
     ret \<noteq> PM_Fatal \<and> op_ticker_interval p \<noteq> 0 \<and> current_t \<ge> op_ticker_expires p"

definition timer_part :: "hs_output_plugin \<Rightarrow> pm_ret \<Rightarrow> int \<Rightarrow> om_env \<Rightarrow> hs_output_plugin" where
  "timer_part p ret current_t env =
     (if timer_fires p ret current_t
      then (run_acks (om_te_acks env) p)\<lparr>op_ticker_expires := current_t + op_ticker_interval p\<rparr>
      else p)"

definition output_message ::
    "hs_output_plugin \<Rightarrow> bool \<Rightarrow> bool \<Rightarrow> int \<Rightarrow> om_env \<Rightarrow> pm_ret \<times> hs_output_plugin" where
  "output_message p has_raw sample current_t env =
     (let (ret, p1) = message_part p has_raw sample env;
          p2 = timer_part p1 ret current_t env;
          p3 = (if sample then p2\<lparr>op_sample := False\<rparr> else p2)
      in if ret = PM_Fatal \<or> timer_fires p1 ret current_t \<and> om_te_fatal env then (PM_Fatal, p3)
         else (ret, p3))"

text \<open>The loop that resends a message the sandbox asked to retry: one element per second, with the
  time, what the call meets and the plugin's stop flag after it; \<open>None\<close> while it still retries.\<close>

fun retry_loop ::
    "hs_output_plugin \<Rightarrow> (int \<times> om_env \<times> bool) list \<Rightarrow> (pm_ret \<times> bool \<times> hs_output_plugin) option" where
  "retry_loop p [] = None"
| "retry_loop p ((t, env, stopped) # es) =
     (case output_message p True False t env of
        (ret, p') \<Rightarrow>
          if ret = PM_Retry then
            if stopped then Some (PM_Retry, True, p') else retry_loop p' es
          else Some (ret, False, p'))"

section \<open>Positions\<close>

definition cpp_le :: "hs_checkpoint_pair \<Rightarrow> hs_checkpoint_pair \<Rightarrow> bool" where
  "cpp_le a b \<longleftrightarrow> cpp_input a \<le> cpp_input b \<and> cpp_analysis a \<le> cpp_analysis b"

lemma cpp_le_refl [simp]: "cpp_le a a"
  by (simp add: cpp_le_def)

lemma cpp_le_trans: "cpp_le a b \<Longrightarrow> cpp_le b c \<Longrightarrow> cpp_le a c"
  by (auto simp: cpp_le_def)

lemma later_position_max: "later_position e cp = max cp e"
  by (auto simp: later_position_def max_def cp_le_iff intro: hs_checkpoint.equality)

text \<open>
  The invariant of a plugin between steps: the safe position and the ring's positions are not
  past the message being processed, and the ring has its configured length.
\<close>

definition op_ok :: "hs_output_plugin \<Rightarrow> bool" where
  "op_ok p \<longleftrightarrow>
     cpp_le (op_cp p) (op_cur p) \<and>
     (case op_async_cp p of
        None \<Rightarrow> op_async_len p = 0
      | Some acp \<Rightarrow> 0 < op_async_len p \<and> int (length acp) = op_async_len p \<and>
                    (\<forall>e \<in> set acp. cpp_le e (op_cur p)))"

lemma async_index_less:
  "0 < len \<Longrightarrow> int (async_index s len) < len"
  by (simp add: async_index_def)

lemma callback_ok:
  assumes "op_ok p"
  shows "op_ok (update_checkpoint_callback p s) \<and>
    cpp_le (op_cp p) (op_cp (update_checkpoint_callback p s)) \<and>
    op_cur (update_checkpoint_callback p s) = op_cur p"
proof (cases "op_async_cp p")
  case None
  with assms show ?thesis
    by (auto simp: update_checkpoint_callback_def op_update_checkpoint_def op_ok_def split: bool.split)
next
  case (Some acp)
  let ?e = "acp ! async_index s (op_async_len p)"
  have "async_index s (op_async_len p) < length acp"
    using assms Some async_index_less [of "op_async_len p" s] by (simp add: op_ok_def)
  then have "cpp_le ?e (op_cur p)" using assms Some by (simp add: op_ok_def)
  with assms Some show ?thesis
    by (auto simp: update_checkpoint_callback_def op_update_checkpoint_def op_ok_def Let_def
        later_position_max cpp_le_def split: bool.split)
qed

lemma run_acks_ok:
  "op_ok p \<Longrightarrow> op_ok (run_acks acks p) \<and> cpp_le (op_cp p) (op_cp (run_acks acks p)) \<and>
   op_cur (run_acks acks p) = op_cur p"
proof (induction acks arbitrary: p)
  case (Cons s acks)
  note c = callback_ok [OF Cons.prems, of s]
  with Cons.IH [of "update_checkpoint_callback p s"] show ?case
    by (auto simp: run_acks_def intro: cpp_le_trans)
qed (simp add: run_acks_def)

lemma run_acks_Nil [simp]: "run_acks [] p = p"
  by (simp add: run_acks_def)

lemma store_async_ok:
  "op_ok p \<Longrightarrow> op_ok (store_async p) \<and> op_cp (store_async p) = op_cp p \<and> op_cur (store_async p) = op_cur p"
  by (auto simp: store_async_def op_ok_def split: option.splits dest!: set_update_subset_insert [THEN subsetD])

lemma op_ok_frame:
  "op_cp q = op_cp p \<Longrightarrow> op_cur q = op_cur p \<Longrightarrow> op_async_cp q = op_async_cp p \<Longrightarrow>
   op_async_len q = op_async_len p \<Longrightarrow> op_ok q = op_ok p"
  by (simp add: op_ok_def split: option.split)

lemma advance_checkpoint_ok:
  "op_ok p \<Longrightarrow> op_ok (advance_checkpoint r p) \<and> cpp_le (op_cp p) (op_cp (advance_checkpoint r p)) \<and>
   op_cur (advance_checkpoint r p) = op_cur p"
  by (auto simp: advance_checkpoint_def op_update_checkpoint_def op_ok_def Let_def
      split: option.splits)

lemma process_matched_ok:
  assumes "op_ok p"
  shows "op_ok (snd (process_matched env p)) \<and>
    cpp_le (op_cp p) (op_cp (snd (process_matched env p))) \<and>
    op_cur (snd (process_matched env p)) = op_cur p"
proof -
  let ?q = "run_acks (om_acks env) (store_async p)"
  have q: "op_ok ?q" "cpp_le (op_cp p) (op_cp ?q)" "op_cur ?q = op_cur p"
    using store_async_ok [OF assms] run_acks_ok [of "store_async p" "om_acks env"] by auto
  have f: "op_cp (snd (process_matched env p)) = op_cp ?q"
    "op_cur (snd (process_matched env p)) = op_cur ?q"
    "op_async_cp (snd (process_matched env p)) = op_async_cp ?q"
    "op_async_len (snd (process_matched env p)) = op_async_len ?q"
    by (simp_all add: process_matched_def Let_def split: pm_ret.split)
  with q op_ok_frame [OF f] show ?thesis by simp
qed

lemma message_part_ok:
  assumes "op_ok p" and "message_part p has_raw sample env = (r, q)"
  shows "op_ok q \<and> cpp_le (op_cp p) (op_cp q) \<and> op_cur q = op_cur p"
proof (cases has_raw)
  case True
  define p0 where "p0 = (if sample then p\<lparr>op_pm_sample := True\<rparr> else p)"
  define rq where "rq = (if om_matched env then process_matched env p0 else (PM_Sent, p0))"
  have p0: "op_ok p0" "op_cp p0 = op_cp p" "op_cur p0 = op_cur p"
    using assms(1) op_ok_frame [of p0 p] by (auto simp: p0_def)
  have rq: "op_ok (snd rq)" "cpp_le (op_cp p) (op_cp (snd rq))" "op_cur (snd rq) = op_cur p"
    using process_matched_ok [OF p0(1), of env] p0 by (auto simp: rq_def)
  have "q = advance_checkpoint (fst rq) (snd rq)"
    using assms(2) unfolding message_part_def Let_def p0_def [symmetric] rq_def [symmetric]
    by (auto simp: True case_prod_beta)
  with advance_checkpoint_ok [OF rq(1), of "fst rq"] rq show ?thesis
    by (auto intro: cpp_le_trans)
qed (use assms in \<open>simp add: message_part_def\<close>)

lemma timer_part_ok:
  "op_ok p \<Longrightarrow> op_ok (timer_part p r t env) \<and> cpp_le (op_cp p) (op_cp (timer_part p r t env)) \<and>
   op_cur (timer_part p r t env) = op_cur p"
  using run_acks_ok [of p "om_te_acks env"]
    op_ok_frame [of "(run_acks (om_te_acks env) p)\<lparr>op_ticker_expires := t + op_ticker_interval p\<rparr>"
      "run_acks (om_te_acks env) p"]
  by (cases "timer_fires p r t") (simp_all add: timer_part_def)

lemma output_message_parts:
  assumes "output_message p has_raw sample t env = (r, p')"
  obtains r1 p1 where "message_part p has_raw sample env = (r1, p1)"
    and "p' = timer_part p1 r1 t env \<or> p' = (timer_part p1 r1 t env)\<lparr>op_sample := False\<rparr>"
    and "r = (if timer_fires p1 r1 t \<and> om_te_fatal env then PM_Fatal else r1)"
proof -
  obtain r1 p1 where m: "message_part p has_raw sample env = (r1, p1)" by fastforce
  define q where "q = timer_part p1 r1 t env"
  have "(if r1 = PM_Fatal \<or> timer_fires p1 r1 t \<and> om_te_fatal env
      then (PM_Fatal, if sample then q\<lparr>op_sample := False\<rparr> else q)
      else (r1, if sample then q\<lparr>op_sample := False\<rparr> else q)) = (r, p')"
    using assms by (simp only: output_message_def m Let_def prod.case q_def)
  then have p': "p' = (if sample then q\<lparr>op_sample := False\<rparr> else q)"
    and r: "r = (if timer_fires p1 r1 t \<and> om_te_fatal env then PM_Fatal else r1)"
    by (simp_all only: prod.inject split: if_splits) auto
  from p' have "p' = q \<or> p' = q\<lparr>op_sample := False\<rparr>" by (cases sample) simp_all
  then show ?thesis using r unfolding q_def by (rule that [OF m])
qed

lemma output_message_ok:
  assumes "op_ok p" and "output_message p has_raw sample t env = (r, p')"
  shows "op_ok p' \<and> cpp_le (op_cp p) (op_cp p') \<and> op_cur p' = op_cur p"
proof -
  from assms(2) obtain r1 p1 where m: "message_part p has_raw sample env = (r1, p1)"
    and p': "p' = timer_part p1 r1 t env \<or> p' = (timer_part p1 r1 t env)\<lparr>op_sample := False\<rparr>"
    by (rule output_message_parts)
  let ?q = "timer_part p1 r1 t env"
  have "op_cp p' = op_cp ?q" "op_cur p' = op_cur ?q" "op_async_cp p' = op_async_cp ?q"
    "op_async_len p' = op_async_len ?q" using p' by auto
  with op_ok_frame [OF this] message_part_ok [OF assms(1) m] timer_part_ok [of p1 r1 t env]
  show ?thesis by (auto intro: cpp_le_trans)
qed

section \<open>What delivery promises\<close>

text \<open>
  The specification of a plugin without an asynchronous buffer: the position up to which every
  message is settled, and the positions that wait for a batch to be flushed.
\<close>

record delivery =
  d_acked :: hs_checkpoint_pair
  d_waiting :: "hs_checkpoint_pair list"

definition settle :: "hs_checkpoint_pair \<Rightarrow> delivery \<Rightarrow> delivery" where
  "settle pos d = (if d_waiting d = [] then d\<lparr>d_acked := pos\<rparr> else d\<lparr>d_waiting := d_waiting d @ [pos]\<rparr>)"

definition flush_batch :: "hs_checkpoint_pair \<Rightarrow> delivery \<Rightarrow> delivery" where
  "flush_batch pos d = (if d_waiting d = [] then d else \<lparr>d_acked = pos, d_waiting = []\<rparr>)"

fun deliver :: "pm_ret \<Rightarrow> hs_checkpoint_pair \<Rightarrow> delivery \<Rightarrow> delivery" where
  "deliver PM_Sent pos d = \<lparr>d_acked = pos, d_waiting = []\<rparr>"
| "deliver PM_Batch pos d = d\<lparr>d_waiting := d_waiting d @ [pos]\<rparr>"
| "deliver PM_Retry pos d = d"
| "deliver PM_Async pos d = d"
| "deliver PM_Fatal pos d = d"
| "deliver PM_Fail pos d = settle pos d"
| "deliver PM_Other pos d = settle pos d"

definition delivery_step :: "om_env \<Rightarrow> bool \<Rightarrow> hs_checkpoint_pair \<Rightarrow> delivery \<Rightarrow> delivery" where
  "delivery_step env fires pos d =
     (let d1 = (if om_matched env
                then deliver (om_ret env) pos (if om_acks env = [] then d else flush_batch pos d)
                else settle pos d)
      in if fires \<and> om_te_acks env \<noteq> [] then flush_batch pos d1 else d1)"

text \<open>The plugin's fields as that specification; a batch is open exactly when something waits.\<close>

definition delivers :: "hs_output_plugin \<Rightarrow> delivery \<Rightarrow> bool" where
  "delivers p d \<longleftrightarrow>
     op_cp p = d_acked d \<and> op_batching p = (d_waiting d \<noteq> []) \<and>
     op_async_cp p = None \<and> op_async_len p = 0"

lemma delivers_acks:
  "delivers p d \<Longrightarrow> delivers (run_acks acks p) (if acks = [] then d else flush_batch (op_cur p) d) \<and>
   op_cur (run_acks acks p) = op_cur p \<and>
   op_ticker_interval (run_acks acks p) = op_ticker_interval p \<and>
   op_ticker_expires (run_acks acks p) = op_ticker_expires p"
proof (induction acks arbitrary: p d)
  case (Cons s acks)
  let ?q = "update_checkpoint_callback p s"
  have q: "?q = (if op_batching p then (op_update_checkpoint p)\<lparr>op_batching := False\<rparr> else p)"
    using Cons.prems by (auto simp: update_checkpoint_callback_def delivers_def split: bool.split)
  have "delivers ?q (flush_batch (op_cur p) d)" "op_cur ?q = op_cur p"
    "op_ticker_interval ?q = op_ticker_interval p" "op_ticker_expires ?q = op_ticker_expires p"
    using Cons.prems unfolding q by (auto simp: delivers_def flush_batch_def op_update_checkpoint_def)
  with Cons.IH [of ?q "flush_batch (op_cur p) d"] show ?case
    by (auto simp: run_acks_def flush_batch_def split: if_splits)
qed simp

lemma delivers_frame:
  "delivers p d \<Longrightarrow> op_cp q = op_cp p \<Longrightarrow> op_batching q = op_batching p \<Longrightarrow>
   op_async_cp q = op_async_cp p \<Longrightarrow> op_async_len q = op_async_len p \<Longrightarrow> delivers q d"
  by (simp add: delivers_def)

text \<open>The result code as the specification sees it: an asynchronous result without a buffer ends
  the plugin.\<close>

lemma delivers_matched:
  assumes "delivers p d" and "process_matched env p = (r, q)"
  shows "delivers (advance_checkpoint r q)
      (deliver (om_ret env) (op_cur p) (if om_acks env = [] then d else flush_batch (op_cur p) d)) \<and>
    op_cur (advance_checkpoint r q) = op_cur p \<and>
    op_ticker_interval (advance_checkpoint r q) = op_ticker_interval p \<and>
    op_ticker_expires (advance_checkpoint r q) = op_ticker_expires p \<and>
    r = (if om_ret env = PM_Async then PM_Fatal else om_ret env)"
proof -
  define d0 where "d0 = (if om_acks env = [] then d else flush_batch (op_cur p) d)"
  define p1 where "p1 = (run_acks (om_acks env) p)\<lparr>op_pm_sample := False\<rparr>"
  have st: "store_async p = p" using assms(1) by (simp add: store_async_def delivers_def)
  note a = delivers_acks [OF assms(1), of "om_acks env", folded d0_def]
  then have p1: "delivers p1 d0" "op_cur p1 = op_cur p" "op_ticker_interval p1 = op_ticker_interval p"
    "op_ticker_expires p1 = op_ticker_expires p" "op_async_len p1 = 0"
    by (auto simp: p1_def delivers_def)
  have pm: "process_matched env p = (r, q)" by (fact assms(2))
  show ?thesis
    unfolding d0_def [symmetric] using pm p1
    by (cases "om_ret env")
      (simp_all add: process_matched_def Let_def st p1_def [symmetric], auto simp: delivers_def
        advance_checkpoint_def op_update_checkpoint_def settle_def)
qed

lemma message_part_delivers:
  assumes "delivers p d" and "message_part p True sample env = (r, q)"
  shows "delivers q (if om_matched env
      then deliver (om_ret env) (op_cur p) (if om_acks env = [] then d else flush_batch (op_cur p) d)
      else settle (op_cur p) d) \<and>
    op_cur q = op_cur p \<and> op_ticker_interval q = op_ticker_interval p \<and>
    op_ticker_expires q = op_ticker_expires p \<and>
    r = (if om_matched env then if om_ret env = PM_Async then PM_Fatal else om_ret env else PM_Sent)"
proof -
  define p0 where "p0 = (if sample then p\<lparr>op_pm_sample := True\<rparr> else p)"
  have d0: "delivers p0 d" and c0: "op_cur p0 = op_cur p" "op_ticker_interval p0 = op_ticker_interval p"
    "op_ticker_expires p0 = op_ticker_expires p"
    using delivers_frame [OF assms(1), of p0] by (auto simp: p0_def)
  show ?thesis
  proof (cases "om_matched env")
    case True
    obtain r1 q1 where m: "process_matched env p0 = (r1, q1)" by fastforce
    with assms(2) True have "r = r1" "q = advance_checkpoint r1 q1"
      by (auto simp: message_part_def Let_def p0_def [symmetric])
    with delivers_matched [OF d0 m, unfolded c0] show ?thesis unfolding if_P [OF True] by blast
  next
    case False
    with assms(2) have "r = PM_Sent" "q = advance_checkpoint PM_Sent p0"
      by (auto simp: message_part_def Let_def p0_def [symmetric])
    with False d0 c0 show ?thesis
      by (auto simp: delivers_def advance_checkpoint_def op_update_checkpoint_def settle_def)
  qed
qed

lemma timer_part_delivers:
  assumes "delivers p d"
  shows "delivers (timer_part p r t env)
    (if timer_fires p r t \<and> om_te_acks env \<noteq> [] then flush_batch (op_cur p) d else d)"
  using delivers_acks [OF assms, of "om_te_acks env"] assms
  by (auto simp: timer_part_def delivers_def)

lemma output_message_delivers:
  assumes "delivers p d" and "output_message p True sample t env = (r, p')"
  shows "delivers p' (delivery_step env
      (timer_fires p (if om_matched env then if om_ret env = PM_Async then PM_Fatal else om_ret env else PM_Sent) t)
      (op_cur p) d)"
proof -
  from assms(2) obtain r1 p1 where m: "message_part p True sample env = (r1, p1)"
    and p': "p' = timer_part p1 r1 t env \<or> p' = (timer_part p1 r1 t env)\<lparr>op_sample := False\<rparr>"
    by (rule output_message_parts)
  define d1 where "d1 = (if om_matched env
      then deliver (om_ret env) (op_cur p) (if om_acks env = [] then d else flush_batch (op_cur p) d)
      else settle (op_cur p) d)"
  note md = message_part_delivers [OF assms(1) m, folded d1_def]
  from md have d: "delivers p1 d1" and c: "op_cur p1 = op_cur p" by blast+
  have tf: "timer_fires p1 r1 t = timer_fires p
      (if om_matched env then if om_ret env = PM_Async then PM_Fatal else om_ret env else PM_Sent) t"
    using md by (simp add: timer_fires_def)
  have "delivers (timer_part p1 r1 t env) (delivery_step env (timer_fires p1 r1 t) (op_cur p) d)"
    using timer_part_delivers [OF d, of r1 t env] unfolding c delivery_step_def d1_def [symmetric] Let_def .
  with p' show ?thesis unfolding tf by (auto simp: delivers_def)
qed

lemma cpp_le_zero:
  "cpp_le \<lparr>cpp_input = \<lparr>cp_id = 0, cp_offset = 0\<rparr>, cpp_analysis = \<lparr>cp_id = 0, cp_offset = 0\<rparr>\<rparr> a"
  by (auto simp: cpp_le_def cp_le_iff word_neq_0_conv)

lemma op_ok_cur: "op_ok p \<Longrightarrow> cpp_le (op_cur p) pos \<Longrightarrow> op_ok (p\<lparr>op_cur := pos\<rparr>)"
  by (auto simp: op_ok_def split: option.splits intro: cpp_le_trans)

lemma unsettled_message_cp:
  assumes "output_message p True sample t env = (r, p')"
    and "om_matched env" and "om_acks env = []" and "om_te_acks env = []"
    and "om_ret env \<in> {PM_Retry, PM_Batch, PM_Fatal} \<or>
         om_ret env = PM_Async \<and> op_sequence_id p + 1 \<noteq> op_ack_sequence_id p"
  shows "op_cp p' = op_cp p \<and> (om_ret env = PM_Retry \<longrightarrow> op_sequence_id p' = op_sequence_id p)"
proof -
  from assms(1) obtain r1 p1 where m: "message_part p True sample env = (r1, p1)"
    and p': "p' = timer_part p1 r1 t env \<or> p' = (timer_part p1 r1 t env)\<lparr>op_sample := False\<rparr>"
    by (rule output_message_parts)
  have "op_cp p' = op_cp p1 \<and> op_sequence_id p' = op_sequence_id p1"
    using p' assms(4) by (auto simp: timer_part_def)
  moreover have "op_cp p1 = op_cp p \<and> (om_ret env = PM_Retry \<longrightarrow> op_sequence_id p1 = op_sequence_id p)"
    using m assms(2,3,5)
    by (cases "om_ret env")
      (auto simp: message_part_def process_matched_def advance_checkpoint_def store_async_def Let_def
        split: if_splits)
  ultimately show ?thesis by simp
qed

section \<open>Properties\<close>


definition idle_reader :: hs_input where
  "idle_reader =
     \<lparr>hsi_fh = None, hsi_path = ''o'', hsi_name = ''x'', hsi_fn = None, hsi_fn_size = 0,
      hsi_ib = \<lparr>ib_buf = [], ib_size = 0, ib_msglen = 0, ib_scanpos = 0, ib_readpos = 0\<rparr>,
      hsi_cp = \<lparr>cp_id = 0, cp_offset = 0\<rparr>\<rparr>"

definition sample_pair :: "u64 \<Rightarrow> hs_checkpoint_pair" where
  "sample_pair n = \<lparr>cpp_input = \<lparr>cp_id = 1, cp_offset = n\<rparr>, cpp_analysis = \<lparr>cp_id = 0, cp_offset = 0\<rparr>\<rparr>"




text \<open>The safe position only moves forward and never passes the message being processed, whatever
  the sandbox returns and acknowledges, in whatever order.\<close>

theorem checkpoint_never_passes_current:
  assumes "op_ok p" and "cpp_le (op_cur p) pos"
    and "output_message (p\<lparr>op_cur := pos\<rparr>) has_raw sample t env = (r, p')"
  shows "op_ok p' \<and> cpp_le (op_cp p) (op_cp p') \<and> cpp_le (op_cp p') pos"
  using output_message_ok [OF op_ok_cur [OF assms(1,2)] assms(3)] by (auto simp: op_ok_def)

theorem checkpoint_never_passes_current_witness:
  "let p = init_output_plugin (init_sandbox_config\<lparr>sbc_async_buffer_size := 3\<rparr>) ''a.lua'' 0 0 idle_reader idle_reader;
       env = \<lparr>om_matched = True, om_acks = [7, 1, 0], om_ret = PM_Async, om_te_acks = [], om_te_fatal = False\<rparr>
   in cpp_le (op_cp (snd (output_message (p\<lparr>op_cur := sample_pair 20\<rparr>) True True 0 env))) (sample_pair 20)"
proof -
  let ?p = "init_output_plugin (init_sandbox_config\<lparr>sbc_async_buffer_size := 3\<rparr>) ''a.lua'' 0 0 idle_reader idle_reader"
  have "op_ok ?p" "cpp_le (op_cur ?p) (sample_pair 20)" by code_simp+
  then show ?thesis
    unfolding Let_def
    by (rule checkpoint_never_passes_current [OF _ _ prod.collapse [symmetric], THEN conjunct2, THEN conjunct2])
qed

text \<open>The retry loop resends the message until the sandbox settles it or the plugin is stopped;
  stopped while retrying, it leaves the safe position before the message.\<close>

theorem retry_loop_keeps_message:
  assumes "retry_loop p es = Some (r, stopped, p')"
    and "\<forall>(t, env, s) \<in> set es. om_matched env \<and> om_acks env = [] \<and> om_te_acks env = []"
  shows "(r = PM_Retry \<longleftrightarrow> stopped) \<and> (stopped \<longrightarrow> op_cp p' = op_cp p \<and> op_sequence_id p' = op_sequence_id p)"
  using assms
proof (induction p es rule: retry_loop.induct)
  case (2 p t env s es)
  obtain r1 p1 where o: "output_message p True False t env = (r1, p1)" by fastforce
  show ?case
  proof (cases "r1 = PM_Retry")
    case False
    with 2 o show ?thesis by auto
  next
    case True
    from o obtain r2 p2 where m: "message_part p True False env = (r2, p2)"
      and r: "r1 = (if timer_fires p2 r2 t \<and> om_te_fatal env then PM_Fatal else r2)"
      by (rule output_message_parts)
    from r True have "r2 = PM_Retry" by (auto split: if_splits)
    with m 2(3) have "om_ret env = PM_Retry"
      by (auto simp: message_part_def process_matched_def Let_def split: if_splits pm_ret.splits)
    with unsettled_message_cp [OF o] 2(3)
    have "op_cp p1 = op_cp p" "op_sequence_id p1 = op_sequence_id p" by auto
    with 2 o True show ?thesis by (auto split: if_splits)
  qed
qed simp

theorem retry_loop_keeps_message_witness:
  "let p = (init_output_plugin init_sandbox_config ''a.lua'' 0 0 idle_reader idle_reader)
             \<lparr>op_cp := sample_pair 10, op_cur := sample_pair 20\<rparr>;
       env = \<lparr>om_matched = True, om_acks = [], om_ret = PM_Retry, om_te_acks = [], om_te_fatal = False\<rparr>
   in \<exists>p'. retry_loop p [(1, env, False), (2, env, True)] = Some (PM_Retry, True, p') \<and> op_cp p' = sample_pair 10"
proof -
  let ?p = "(init_output_plugin init_sandbox_config ''a.lua'' 0 0 idle_reader idle_reader)
             \<lparr>op_cp := sample_pair 10, op_cur := sample_pair 20\<rparr>"
  let ?env = "\<lparr>om_matched = True, om_acks = [], om_ret = PM_Retry, om_te_acks = [], om_te_fatal = False\<rparr>"
  let ?es = "[(1, ?env, False), (2, ?env, True)]"
  have run: "retry_loop ?p ?es = Some (PM_Retry, True, ?p\<lparr>op_pm_sample := False\<rparr>)" by code_simp
  have ok: "\<forall>(t, env, s) \<in> set ?es. om_matched env \<and> om_acks env = [] \<and> om_te_acks env = []" by simp
  from retry_loop_keeps_message [OF run ok] have "op_cp (?p\<lparr>op_pm_sample := False\<rparr>) = op_cp ?p" by blast
  with run show ?thesis unfolding Let_def by auto
qed

text \<open>With an asynchronous buffer, acknowledging the message sent last makes its position the safe
  one although messages sent before it are still unacknowledged; a restart then skips those.\<close>

theorem async_ack_skips_unacknowledged:
  assumes "op_ok p" and "op_async_cp p \<noteq> None" and "op_sequence_id p \<noteq> op_ack_sequence_id p"
    and "om_matched env" and "om_ret env = PM_Async" and "om_acks env = []"
    and "op_ticker_interval p = 0" and "op_sequence_id p + 1 \<noteq> 0"
    and "op_sequence_id p + 1 \<noteq> op_ack_sequence_id p"
    and "output_message p True sample t env = (r, p')"
  shows "op_cp p' = op_cp p \<and> op_cp (update_checkpoint_callback p' (op_sequence_id p')) = op_cur p"
proof -
  from assms(10) obtain r1 p1 where m: "message_part p True sample env = (r1, p1)"
    and p': "p' = timer_part p1 r1 t env \<or> p' = (timer_part p1 r1 t env)\<lparr>op_sample := False\<rparr>"
    by (rule output_message_parts)
  obtain acp where acp: "op_async_cp p = Some acp" using assms(2) by blast
  let ?i = "async_index (op_sequence_id p + 1) (op_async_len p)"
  have len: "0 < op_async_len p" "int (length acp) = op_async_len p" "cpp_le (op_cp p) (op_cur p)"
    using assms(1) acp by (auto simp: op_ok_def)
  then have i: "?i < length acp"
    using async_index_less [of "op_async_len p" "op_sequence_id p + 1"] by simp
  have m1: "op_cp p1 = op_cp p \<and> op_sequence_id p1 = op_sequence_id p + 1 \<and>
      op_async_cp p1 = Some (acp[?i := op_cur p]) \<and> op_async_len p1 = op_async_len p \<and>
      op_ticker_interval p1 = 0"
    using m assms(4-9) acp len(1)
    by (auto simp: message_part_def process_matched_def advance_checkpoint_def store_async_def Let_def
        split: if_splits)
  then have "timer_part p1 r1 t env = p1" by (simp add: timer_part_def timer_fires_def)
  with p' m1 have p1: "op_cp p' = op_cp p" "op_sequence_id p' = op_sequence_id p + 1"
    "op_async_cp p' = Some (acp[?i := op_cur p])" "op_async_len p' = op_async_len p"
    by auto
  have "max (cpp_input (op_cp p)) (cpp_input (op_cur p)) = cpp_input (op_cur p)"
    "max (cpp_analysis (op_cp p)) (cpp_analysis (op_cur p)) = cpp_analysis (op_cur p)"
    using len(3) by (simp_all add: cpp_le_def max_absorb2)
  with p1 i assms(8) show ?thesis
    by (simp add: update_checkpoint_callback_def later_position_max Let_def)
qed

theorem async_ack_skips_unacknowledged_witness:
  "let p = (init_output_plugin (init_sandbox_config\<lparr>sbc_async_buffer_size := 4\<rparr>) ''a.lua'' 0 0 idle_reader idle_reader)
             \<lparr>op_cur := sample_pair 20, op_sequence_id := 1\<rparr>;
       env = \<lparr>om_matched = True, om_acks = [], om_ret = PM_Async, om_te_acks = [], om_te_fatal = False\<rparr>;
       p' = snd (output_message p True False 0 env)
   in op_cp (update_checkpoint_callback p' (op_sequence_id p')) = sample_pair 20"
proof -
  let ?p = "(init_output_plugin (init_sandbox_config\<lparr>sbc_async_buffer_size := 4\<rparr>) ''a.lua'' 0 0 idle_reader idle_reader)
             \<lparr>op_cur := sample_pair 20, op_sequence_id := 1\<rparr>"
  let ?env = "\<lparr>om_matched = True, om_acks = [], om_ret = PM_Async, om_te_acks = [], om_te_fatal = False\<rparr>"
  have h: "op_ok ?p" "op_async_cp ?p \<noteq> None" "op_sequence_id ?p \<noteq> op_ack_sequence_id ?p" by code_simp+
  have k: "op_ticker_interval ?p = 0" "op_sequence_id ?p + 1 \<noteq> 0" "op_sequence_id ?p + 1 \<noteq> op_ack_sequence_id ?p"
    by code_simp+
  have "om_matched ?env" "om_ret ?env = PM_Async" "om_acks ?env = []" by simp_all
  note q = async_ack_skips_unacknowledged [OF h this k prod.collapse [symmetric], of False 0, THEN conjunct2]
  have "op_cur ?p = sample_pair 20" by simp
  with q show ?thesis unfolding Let_def by simp
qed

end
