(* ===== verification/HS_Output_Thread.thy ===== *)
theory HS_Output_Thread
  imports HS_Delivery
begin

text \<open>
  The thread of an output plugin (\<open>input_thread\<close> of \<open>src/hs_output_plugins.c\<close>): it reads one
  or both queues, moves on to the next file at the end of one, delivers the older of the two
  messages it holds, and drives the timer when there is nothing to read.

  \<open>lsb_find_heka_message\<close> is a parameter (\<open>scan\<close>): it returns the decoded message, if the buffer
  holds one, and the buffer with the scanned bytes consumed; \<open>ts\<close> is a message's time stamp.
  The file system is given twice, as it is when the reader reads and when it opens the next
  file: the writer runs in between.
\<close>

section \<open>Following the files of a queue\<close>

record 'm op_poll =
  pl_msg :: "'m option"
  pl_bytes :: u64
  pl_timer :: int
  pl_next :: bool
  pl_wait :: int

record poll_env =
  pe_seek_ok :: bool
  pe_fs_read :: fsys
  pe_fs_open :: fsys

definition op_init_poll :: "'m op_poll" where
  "op_init_poll = \<lparr>pl_msg = None, pl_bytes = 0, pl_timer = 0, pl_next = False, pl_wait = 0\<rparr>"

definition skip_missing ::
    "hs_config \<Rightarrow> string \<Rightarrow> poll_env \<Rightarrow> hs_input \<Rightarrow> hs_exit + (bool \<times> hs_input)" where
  "skip_missing cfg subdir env hsi =
     (case hs_find_next_id (pe_fs_open env) (str_of (cfg_output_path cfg)) subdir (cp_id (hsi_cp hsi)) of
        Inl e \<Rightarrow> Inl e
      | Inr next_id \<Rightarrow>
          if next_id > cp_id (hsi_cp hsi) + 1
          then hs_open_file (pe_seek_ok env) (pe_fs_open env) hsi subdir next_id
          else Inr (False, hsi))"

definition op_next_file ::
    "hs_config \<Rightarrow> string \<Rightarrow> int \<Rightarrow> poll_env \<Rightarrow> hs_input \<times> 'm op_poll \<Rightarrow>
     hs_exit + (hs_input \<times> 'm op_poll)" where
  "op_next_file cfg subdir t env s =
     (let (hsi, pl) = s in
      case hs_open_file (pe_seek_ok env) (pe_fs_open env) hsi subdir (cp_id (hsi_cp hsi) + 1) of
        Inl e \<Rightarrow> Inl e
      | Inr (True, hsi1) \<Rightarrow> Inr (hsi1, pl\<lparr>pl_timer := t, pl_next := True, pl_wait := 0\<rparr>)
      | Inr (False, hsi1) \<Rightarrow>
          let w = pl_wait pl + 1 in
          if w > 60 \<or> cp_offset (hsi_cp hsi1) < ucast (cfg_output_size cfg) then
            (case skip_missing cfg subdir env hsi1 of
               Inl e \<Rightarrow> Inl e
             | Inr (opened, hsi2) \<Rightarrow> Inr (hsi2, pl\<lparr>pl_timer := t, pl_next := opened, pl_wait := 0\<rparr>))
          else Inr (hsi1, pl\<lparr>pl_timer := t, pl_next := False, pl_wait := w\<rparr>))"

text \<open>One turn on an open queue file without a message in hand.\<close>

definition op_read_queue_file ::
    "(lsb_input_buffer \<Rightarrow> 'm option \<times> lsb_input_buffer) \<Rightarrow>
     (lsb_input_buffer \<Rightarrow> u64 \<Rightarrow> lsb_input_buffer option) \<Rightarrow> hs_config \<Rightarrow> string \<Rightarrow> int \<Rightarrow> poll_env \<Rightarrow>
     hs_input \<times> 'm op_poll \<Rightarrow> hs_exit + (hs_input \<times> 'm op_poll)" where
  "op_read_queue_file scan expand cfg subdir t env s =
     (let (hsi, pl) = s; (m, ib) = scan (hsi_ib hsi); hsi1 = hsi\<lparr>hsi_ib := ib\<rparr> in
      case m of
        Some x \<Rightarrow> Inr (hsi1, pl\<lparr>pl_msg := Some x\<rparr>)
      | None \<Rightarrow>
          (case hs_read_file expand (pe_fs_read env) hsi1 of
             Inl e \<Rightarrow> Inl e
           | Inr (n, hsi2) \<Rightarrow>
               let pl1 = pl\<lparr>pl_bytes := n\<rparr> in
               if n = 0 \<and> (cp_offset (hsi_cp hsi2) \<ge> ucast (cfg_output_size cfg) \<or> pl_next pl)
                  \<and> t \<noteq> pl_timer pl
               then op_next_file cfg subdir t env (hsi2, pl1)
               else Inr (hsi2, pl1)))"

text \<open>Waiting for the first file; after 60 seconds the position is looked up again. The last
  component is the position the plugin's checkpoints are reset to.\<close>

definition op_await_file ::
    "hs_config \<Rightarrow> string \<Rightarrow> int \<Rightarrow> poll_env \<Rightarrow> hs_checkpoint_reader \<Rightarrow>
     hs_input \<times> 'm op_poll \<Rightarrow> hs_exit + (hs_input \<times> 'm op_poll \<times> hs_checkpoint option)" where
  "op_await_file cfg subdir t env cpr s =
     (let (hsi, pl) = s in
      if t = pl_timer pl then Inr (hsi, pl, None)
      else
        (case (if pl_wait pl + 1 > 60 then
                 (case hs_lookup_input_checkpoint (pe_fs_open env) cpr subdir None (cfg_output_path cfg) (hsi_cp hsi) of
                    Inl e \<Rightarrow> Inl e
                  | Inr cp \<Rightarrow> Inr (hsi\<lparr>hsi_cp := cp\<rparr>, 0, Some cp))
               else Inr (hsi, pl_wait pl + 1, None)) of
           Inl e \<Rightarrow> Inl e
         | Inr (hsi1, w, reset) \<Rightarrow>
             (case hs_open_file (pe_seek_ok env) (pe_fs_open env) hsi1 subdir (cp_id (hsi_cp hsi1)) of
                Inl e \<Rightarrow> Inl e
              | Inr (opened, hsi2) \<Rightarrow>
                  Inr (hsi2, pl\<lparr>pl_timer := t, pl_next := opened, pl_wait := (if opened then 0 else w)\<rparr>, reset))))"

definition op_poll_queue ::
    "(lsb_input_buffer \<Rightarrow> 'm option \<times> lsb_input_buffer) \<Rightarrow>
     (lsb_input_buffer \<Rightarrow> u64 \<Rightarrow> lsb_input_buffer option) \<Rightarrow> hs_config \<Rightarrow> string \<Rightarrow> int \<Rightarrow> poll_env \<Rightarrow>
     hs_checkpoint_reader \<Rightarrow> hs_input \<times> 'm op_poll \<Rightarrow>
     hs_exit + (hs_input \<times> 'm op_poll \<times> hs_checkpoint option)" where
  "op_poll_queue scan expand cfg subdir t env cpr s =
     (if hsi_fh (fst s) = None then op_await_file cfg subdir t env cpr s
      else if pl_msg (snd s) = None then
        (case op_read_queue_file scan expand cfg subdir t env s of
           Inl e \<Rightarrow> Inl e
         | Inr (hsi, pl) \<Rightarrow> Inr (hsi, pl, None))
      else Inr (fst s, snd s, None))"

section \<open>One turn of the thread\<close>

record 'm op_thread =
  th_plugin :: hs_output_plugin
  th_im :: "'m op_poll"
  th_am :: "'m op_poll"
  th_stop :: bool
  th_sample :: bool

datatype turn_end = Turn_done | Turn_fatal | Turn_retrying

record turn_env =
  te_time :: int
  te_input :: poll_env
  te_analysis :: poll_env
  te_message :: om_env
  te_retries :: "(int \<times> om_env \<times> bool) list"

definition reads_input :: "char \<Rightarrow> bool" where
  "reads_input q \<longleftrightarrow> (of_char q :: nat) \<ge> of_char (CHR ''b'')"

definition reads_analysis :: "char \<Rightarrow> bool" where
  "reads_analysis q \<longleftrightarrow> (of_char q :: nat) \<le> of_char (CHR ''b'')"

text \<open>The older message first; true is the input queue.\<close>

definition op_pick :: "('m \<Rightarrow> int) \<Rightarrow> 'm option \<Rightarrow> 'm option \<Rightarrow> bool option" where
  "op_pick ts pim pam =
     (case pim of
        Some a \<Rightarrow> (case pam of Some b \<Rightarrow> Some (ts a \<le> ts b) | None \<Rightarrow> Some True)
      | None \<Rightarrow> (case pam of Some b \<Rightarrow> Some False | None \<Rightarrow> None))"

definition reader_position :: "hs_input \<Rightarrow> hs_checkpoint" where
  "reader_position hsi = \<lparr>cp_id = cp_id (hsi_cp hsi), cp_offset = consumed hsi\<rparr>"

text \<open>Taking the message that was picked: it becomes the current one.\<close>

definition op_take :: "bool \<Rightarrow> 'm op_thread \<Rightarrow> 'm op_thread" where
  "op_take inp th =
     (let p = th_plugin th in
      if inp then
        th\<lparr>th_im := (th_im th)\<lparr>pl_msg := None\<rparr>,
           th_plugin := p\<lparr>op_cur := (op_cur p)\<lparr>cpp_input := reader_position (op_input p)\<rparr>,
                          op_mm_delta_cnt := op_mm_delta_cnt p + 1\<rparr>\<rparr>
      else
        th\<lparr>th_am := (th_am th)\<lparr>pl_msg := None\<rparr>,
           th_plugin := p\<lparr>op_cur := (op_cur p)\<lparr>cpp_analysis := reader_position (op_analysis p)\<rparr>,
                          op_mm_delta_cnt := op_mm_delta_cnt p + 1\<rparr>\<rparr>)"

definition op_reset :: "bool \<Rightarrow> hs_checkpoint option \<Rightarrow> hs_output_plugin \<Rightarrow> hs_output_plugin" where
  "op_reset inp reset p =
     (case reset of
        None \<Rightarrow> p
      | Some cp \<Rightarrow>
          if inp then p\<lparr>op_cur := (op_cur p)\<lparr>cpp_input := cp\<rparr>, op_cp := (op_cp p)\<lparr>cpp_input := cp\<rparr>\<rparr>
          else p\<lparr>op_cur := (op_cur p)\<lparr>cpp_analysis := cp\<rparr>, op_cp := (op_cp p)\<lparr>cpp_analysis := cp\<rparr>\<rparr>)"

definition op_poll_input ::
    "(lsb_input_buffer \<Rightarrow> 'm option \<times> lsb_input_buffer) \<Rightarrow>
     (lsb_input_buffer \<Rightarrow> u64 \<Rightarrow> lsb_input_buffer option) \<Rightarrow> hs_config \<Rightarrow> turn_env \<Rightarrow>
     hs_checkpoint_reader \<Rightarrow> 'm op_thread \<Rightarrow> hs_exit + 'm op_thread" where
  "op_poll_input scan expand cfg env cpr th =
     (if reads_input (op_read_queue (th_plugin th)) then
        (case op_poll_queue scan expand cfg hs_input_dir (te_time env) (te_input env) cpr
                (op_input (th_plugin th), th_im th) of
           Inl e \<Rightarrow> Inl e
         | Inr (hsi, pl, reset) \<Rightarrow>
             Inr (th\<lparr>th_plugin := op_reset True reset ((th_plugin th)\<lparr>op_input := hsi\<rparr>), th_im := pl\<rparr>))
      else Inr th)"

definition op_poll_analysis ::
    "(lsb_input_buffer \<Rightarrow> 'm option \<times> lsb_input_buffer) \<Rightarrow>
     (lsb_input_buffer \<Rightarrow> u64 \<Rightarrow> lsb_input_buffer option) \<Rightarrow> hs_config \<Rightarrow> turn_env \<Rightarrow>
     hs_checkpoint_reader \<Rightarrow> 'm op_thread \<Rightarrow> hs_exit + 'm op_thread" where
  "op_poll_analysis scan expand cfg env cpr th =
     (if reads_analysis (op_read_queue (th_plugin th)) then
        (case op_poll_queue scan expand cfg hs_analysis_dir (te_time env) (te_analysis env) cpr
                (op_analysis (th_plugin th), th_am th) of
           Inl e \<Rightarrow> Inl e
         | Inr (hsi, pl, reset) \<Rightarrow>
             Inr (th\<lparr>th_plugin := op_reset False reset ((th_plugin th)\<lparr>op_analysis := hsi\<rparr>), th_am := pl\<rparr>))
      else Inr th)"

text \<open>Delivering what was taken, with the retry loop, or the idle message.\<close>

definition op_deliver :: "turn_env \<Rightarrow> 'm op_thread \<Rightarrow> turn_end \<times> 'm op_thread" where
  "op_deliver env th =
     (case output_message (th_plugin th) True (th_sample th) (te_time env) (te_message env) of
        (ret, p) \<Rightarrow>
          if ret = PM_Retry \<and> \<not> th_stop th then
            (case retry_loop p (te_retries env) of
               None \<Rightarrow> (Turn_retrying, th\<lparr>th_plugin := p\<rparr>)
             | Some (ret2, stopped, p2) \<Rightarrow>
                 (if ret2 = PM_Fatal then Turn_fatal else Turn_done,
                  th\<lparr>th_plugin := p2, th_stop := stopped\<rparr>))
          else (if ret = PM_Fatal then Turn_fatal else Turn_done, th\<lparr>th_plugin := p\<rparr>))"

definition op_turn ::
    "(lsb_input_buffer \<Rightarrow> 'm option \<times> lsb_input_buffer) \<Rightarrow>
     (lsb_input_buffer \<Rightarrow> u64 \<Rightarrow> lsb_input_buffer option) \<Rightarrow> ('m \<Rightarrow> int) \<Rightarrow> hs_config \<Rightarrow> turn_env \<Rightarrow>
     hs_checkpoint_reader \<Rightarrow> 'm op_thread \<Rightarrow> hs_exit + (turn_end \<times> 'm op_thread)" where
  "op_turn scan expand ts cfg env cpr th0 =
     (let th = th0\<lparr>th_stop := op_stop (th_plugin th0), th_sample := op_sample (th_plugin th0)\<rparr> in
      case op_poll_input scan expand cfg env cpr th of
        Inl e \<Rightarrow> Inl e
      | Inr th1 \<Rightarrow>
          (case op_poll_analysis scan expand cfg env cpr th1 of
             Inl e \<Rightarrow> Inl e
           | Inr th2 \<Rightarrow>
               (case op_pick ts (pl_msg (th_im th2)) (pl_msg (th_am th2)) of
                  Some inp \<Rightarrow> Inr (op_deliver env (op_take inp th2))
                | None \<Rightarrow>
                    if pl_bytes (th_im th2) = 0 \<and> pl_bytes (th_am th2) = 0 then
                      Inr (Turn_done, th2\<lparr>th_plugin :=
                        snd (output_message (th_plugin th2) False (th_sample th2) (te_time env) (te_message env))\<rparr>)
                    else Inr (Turn_done, th2))))"

section \<open>When a reader leaves a file\<close>

text \<open>What the thread relies on of \<open>lsb_find_heka_message\<close>: it consumes scanned bytes only.\<close>

definition scan_ok :: "(lsb_input_buffer \<Rightarrow> 'm option \<times> lsb_input_buffer) \<Rightarrow> bool" where
  "scan_ok scan \<longleftrightarrow> (\<forall>ib. ib_ok ib \<longrightarrow> (\<exists>k. scan_step ib (snd (scan ib)) k))"

lemma hs_open_file_id:
  "hs_open_file so fs hsi subdir i = Inr (b, h) \<Longrightarrow> h = hsi \<or> b \<and> cp_id (hsi_cp h) = i"
  by (auto simp: hs_open_file_def Let_def split: if_splits option.splits)

lemma hs_read_file_eof:
  assumes "reader_ok fs hsi" and "expand_ok expand" and "hsi_fh hsi = Some (p, pos)"
    and "hs_read_file expand fs hsi = Inr (0, h)" and "read_need (hsi_ib hsi) \<noteq> 0"
  shows "unat pos = length (file_bytes fs p)"
proof -
  obtain ib where e: "expand (hsi_ib hsi) (read_need (hsi_ib hsi)) = Some ib"
    using assms(4) by (auto simp: hs_read_file_def split: option.splits)
  let ?space = "unat (ib_size ib - ib_readpos ib)"
  let ?d = "fread (file_bytes fs p) pos ?space"
  have ib: "int (unat (read_need (hsi_ib hsi))) \<le> int ?space"
    using assms(2) e reader_okD(1) [OF assms(1,3)] unfolding expand_ok_def by blast
  have "word_of_nat (length ?d) = (0 :: u64)"
    using assms(3,4) e by (auto simp: hs_read_file_def Let_def)
  moreover have "length ?d \<le> ?space" by (simp add: fread_def)
  then have "length ?d < 2 ^ 64" using unat_u64_less [of "ib_size ib - ib_readpos ib"] by linarith
  ultimately have "length ?d = 0" using unat_of_nat_u64 [of "length ?d"] by simp
  then have "?space = 0 \<or> length (file_bytes fs p) \<le> unat pos" by (auto simp: fread_def)
  moreover have "0 < unat (read_need (hsi_ib hsi))" using assms(5) by (simp add: unat_gt_0)
  ultimately show ?thesis using ib reader_okD(5) [OF assms(1,3)] by auto
qed

lemma op_next_file_id:
  assumes "op_next_file cfg subdir t env (hsi, pl) = Inr (h, pl')"
  shows "h = hsi \<or> cp_id (hsi_cp h) = cp_id (hsi_cp hsi) + 1 \<or>
    (\<exists>nid. hs_find_next_id (pe_fs_open env) (str_of (cfg_output_path cfg)) subdir (cp_id (hsi_cp hsi)) = Inr nid \<and>
       nid > cp_id (hsi_cp hsi) + 1 \<and> cp_id (hsi_cp h) = nid)"
proof -
  obtain b h1 where o: "hs_open_file (pe_seek_ok env) (pe_fs_open env) hsi subdir (cp_id (hsi_cp hsi) + 1) = Inr (b, h1)"
    using assms by (auto simp: op_next_file_def split: sum.splits)
  note h1 = hs_open_file_id [OF o]
  show ?thesis
  proof (cases b)
    case True
    with assms o h1 show ?thesis by (auto simp: op_next_file_def)
  next
    case False
    with h1 have "h1 = hsi" by simp
    with assms o False consider "h = hsi"
      | b2 where "skip_missing cfg subdir env hsi = Inr (b2, h)"
      by (auto simp: op_next_file_def Let_def split: if_splits sum.splits prod.splits)
    then show ?thesis
    proof cases
      case 2
      then show ?thesis
        by (auto simp: skip_missing_def split: sum.splits if_splits dest: hs_open_file_id)
    qed simp
  qed
qed

lemma op_read_queue_file_scan:
  assumes "reader_ok fs hsi" and "scan_ok scan" and "scan (hsi_ib hsi) = (m, ib)"
  shows "reader_ok fs (hsi\<lparr>hsi_ib := ib\<rparr>)"
proof -
  obtain p pos where "hsi_fh hsi = Some (p, pos)"
    using assms(1) by (auto simp: reader_ok_def split: option.splits)
  from reader_okD(1) [OF assms(1) this] assms(2,3) obtain k where "scan_step (hsi_ib hsi) ib k"
    unfolding scan_ok_def by (metis snd_conv)
  then show ?thesis using scan_step_ok [OF assms(1)] by blast
qed

section \<open>Properties\<close>

text \<open>C36: an output thread leaves a queue file only when its reader stands at the end the file had at
  its last read, and then moves to the next id, or, when that file is missing, to the least
  existing id above it.\<close>

theorem reader_leaves_file_at_end:
  assumes "reader_ok (pe_fs_read env) hsi" and "expand_ok expand" and "scan_ok scan"
    and "hsi_fh hsi = Some (p, pos)"
    and "op_read_queue_file scan expand cfg subdir t env (hsi, pl) = Inr (h, pl')"
    and "cp_id (hsi_cp h) \<noteq> cp_id (hsi_cp hsi)" and "read_need (snd (scan (hsi_ib hsi))) \<noteq> 0"
  shows "unat pos = length (file_bytes (pe_fs_read env) p) \<and>
    (cp_id (hsi_cp h) = cp_id (hsi_cp hsi) + 1 \<or>
     (\<forall>es i. readdir (pe_fs_open env) (str_of (cfg_output_path cfg) @ ''/'' @ subdir) = Some es \<longrightarrow>
        i \<in> ids_of es \<longrightarrow> cp_id (hsi_cp hsi) < i \<longrightarrow> i \<noteq> ULLONG_MAX \<longrightarrow> cp_id (hsi_cp h) \<le> i))"
proof -
  obtain m ib where sc: "scan (hsi_ib hsi) = (m, ib)" by fastforce
  let ?h1 = "hsi\<lparr>hsi_ib := ib\<rparr>"
  have m: "m = None" using assms(5,6) sc by (cases m) (auto simp: op_read_queue_file_def)
  obtain n h2 where rd: "hs_read_file expand (pe_fs_read env) ?h1 = Inr (n, h2)"
    using assms(5) sc m by (auto simp: op_read_queue_file_def Let_def split: sum.splits)
  have ok: "reader_ok (pe_fs_read env) ?h1" by (rule op_read_queue_file_scan [OF assms(1,3) sc])
  have fh: "hsi_fh ?h1 = Some (p, pos)" using assms(4) by simp
  note r = hs_read_file_ok [OF ok assms(2) rd fh]
  have n0: "n = 0" and nf: "op_next_file cfg subdir t env (h2, pl\<lparr>pl_bytes := n\<rparr>) = Inr (h, pl')"
    using assms(5,6) sc m rd r by (auto simp: op_read_queue_file_def Let_def split: if_splits)
  have "read_need (hsi_ib ?h1) \<noteq> 0" using assms(7) sc by simp
  from hs_read_file_eof [OF ok assms(2) fh rd [unfolded n0] this]
  have "unat pos = length (file_bytes (pe_fs_read env) p)" .
  moreover have id: "cp_id (hsi_cp h2) = cp_id (hsi_cp hsi)" using r by simp
  ultimately show ?thesis
    using op_next_file_id [OF nf] assms(6) hs_find_next_id_least [of "pe_fs_open env" "str_of (cfg_output_path cfg)" subdir]
    by auto
qed

definition scan_nothing :: "lsb_input_buffer \<Rightarrow> string option \<times> lsb_input_buffer" where
  "scan_nothing ib = (None, ib)"

lemma scan_ok_nothing: "scan_ok scan_nothing"
  by (auto simp: scan_ok_def scan_nothing_def scan_step_def intro: exI [of _ 0])

definition queue_files :: "(string \<times> string) list \<Rightarrow> fsys" where
  "queue_files fs = \<lparr>fs_files = fs, fs_dirs = [''o/input''], fs_denied = []\<rparr>"

definition reader_at_3 :: hs_input where
  "reader_at_3 =
     \<lparr>hsi_fh = Some (''o/input/1.log'', 3), hsi_path = ''o'', hsi_name = ''x'',
      hsi_fn = Some ''o/input/1.log'', hsi_fn_size = 14,
      hsi_ib = \<lparr>ib_buf = ''____'', ib_size = 4, ib_msglen = 0, ib_scanpos = 0, ib_readpos = 0\<rparr>,
      hsi_cp = \<lparr>cp_id = 1, cp_offset = 3\<rparr>\<rparr>"

definition small_cfg :: hs_config where
  "small_cfg = (init_config 1)\<lparr>cfg_output_path := Some ''o'', cfg_output_size := 3\<rparr>"

theorem reader_leaves_file_at_end_witness:
  "let env = \<lparr>pe_seek_ok = True, pe_fs_read = queue_files [(''o/input/1.log'', ''abc''), (''o/input/4.log'', ''x''), (''o/input/3.log'', ''y'')],
         pe_fs_open = queue_files [(''o/input/1.log'', ''abc''), (''o/input/4.log'', ''x''), (''o/input/3.log'', ''y'')]\<rparr>
   in \<exists>h pl'. op_read_queue_file scan_nothing roomy small_cfg ''input'' 5 env (reader_at_3, op_init_poll\<lparr>pl_wait := 60\<rparr>) = Inr (h, pl') \<and>
        cp_id (hsi_cp h) = 3 \<and> unat (3 :: u64) = length (file_bytes (pe_fs_read env) ''o/input/1.log'')"
proof -
  let ?env = "\<lparr>pe_seek_ok = True, pe_fs_read = queue_files [(''o/input/1.log'', ''abc''), (''o/input/4.log'', ''x''), (''o/input/3.log'', ''y'')],
         pe_fs_open = queue_files [(''o/input/1.log'', ''abc''), (''o/input/4.log'', ''x''), (''o/input/3.log'', ''y'')]\<rparr>"
  let ?h = "reader_at_3\<lparr>hsi_fh := Some (''o/input/3.log'', 0), hsi_fn := Some ''o/input/3.log'', hsi_cp := \<lparr>cp_id = 3, cp_offset = 0\<rparr>\<rparr>"
  have run: "op_read_queue_file scan_nothing roomy small_cfg ''input'' 5 ?env (reader_at_3, op_init_poll\<lparr>pl_wait := 60\<rparr>) =
      Inr (?h, \<lparr>pl_msg = None, pl_bytes = 0, pl_timer = 5, pl_next = True, pl_wait = 0\<rparr>)" by code_simp
  have ok: "reader_ok (pe_fs_read ?env) reader_at_3" by code_simp
  have fh: "hsi_fh reader_at_3 = Some (''o/input/1.log'', 3)" by code_simp
  have id: "cp_id (hsi_cp ?h) \<noteq> cp_id (hsi_cp reader_at_3)" by code_simp
  have need: "read_need (snd (scan_nothing (hsi_ib reader_at_3))) \<noteq> 0" by code_simp
  note q = reader_leaves_file_at_end [OF ok expand_ok_roomy scan_ok_nothing fh run id need, THEN conjunct1]
  have "cp_id (hsi_cp ?h) = 3" by simp
  with q run show ?thesis unfolding Let_def by blast
qed





end
