(* ===== verification/HS_Analysis_Thread.thy ===== *)
theory HS_Analysis_Thread
  imports HS_Output_Thread HS_Sandbox HS_Slots
begin

text \<open>
  The analysis threads of \<open>src/hs_analysis_plugins.c\<close>: a plugin's record, the injection limit, the
  dispatch of one message to every plugin of a thread (\<open>analyze_message\<close>), the termination of a
  failed sandbox, and the thread's loop over the input queue.

  The sandbox is a parameter: a call of it tries to inject some messages and returns a code.
  The thread writes to the analysis queue, the component \<open>queue\<close> of its state, whose file system
  also gets the error files; what it reads is given per turn, since the input writer runs in
  between. Running statistics are left out.
\<close>

section \<open>State\<close>

record hs_analysis_plugin =
  ap_name :: string
  ap_lua_file :: string
  ap_ticker_interval :: int
  ap_pm_delta_cnt :: int
  ap_shutdown_terminate :: bool
  ap_pm_sample :: bool
  ap_im_limit :: u32
  ap_pm_im_limit :: u32
  ap_te_im_limit :: u32
  ap_ticker_expires :: int

record hs_analysis_thread =
  at_list :: "hs_analysis_plugin option list"
  at_cp :: hs_checkpoint
  at_current_t :: int
  at_input :: hs_input
  at_list_cnt :: int
  at_tid :: nat
  at_mm_delta_cnt :: int
  at_max_mps :: int
  at_utilization :: u8
  at_stop :: bool
  at_sample :: bool

definition init_analysis_plugin ::
    "hs_sandbox_config \<Rightarrow> string \<Rightarrow> int \<Rightarrow> int \<Rightarrow> hs_analysis_plugin" where
  "init_analysis_plugin sbc lua_file now rnd =
     (let interval = sint (sbc_ticker_interval sbc);
          stagger = (if interval > 60 then 60 else interval)
      in \<lparr>ap_name = str_of (sbc_cfg_name sbc), ap_lua_file = lua_file,
          ap_ticker_interval = interval, ap_pm_delta_cnt = 0,
          ap_shutdown_terminate = sbc_shutdown_terminate sbc, ap_pm_sample = True,
          ap_im_limit = 0, ap_pm_im_limit = sbc_pm_im_limit sbc, ap_te_im_limit = sbc_te_im_limit sbc,
          ap_ticker_expires = (if stagger \<noteq> 0 then now + rnd mod \<bar>stagger\<bar> else 0)\<rparr>)"

definition analysis_name :: "nat \<Rightarrow> string" where
  "analysis_name tid = hs_analysis_dir @ dec tid"

definition init_analysis_thread ::
    "(u64 \<Rightarrow> lsb_input_buffer) \<Rightarrow> hs_config \<Rightarrow> nat \<Rightarrow> hs_exit + hs_analysis_thread" where
  "init_analysis_thread init_ib cfg tid =
     (case hs_init_input init_ib (ucast (cfg_max_message_size cfg)) (str_of (cfg_output_path cfg))
             (analysis_name tid) of
        Inl e \<Rightarrow> Inl e
      | Inr hsi \<Rightarrow>
          Inr \<lparr>at_list = [], at_cp = \<lparr>cp_id = 0, cp_offset = 0\<rparr>, at_current_t = 0, at_input = hsi,
               at_list_cnt = 0, at_tid = tid, at_mm_delta_cnt = 0, at_max_mps = 0,
               at_utilization = 0, at_stop = False, at_sample = False\<rparr>)"

section \<open>The plugin list of a thread\<close>

text \<open>Both ways the utilization is an estimate of five percent per plugin, within \<open>uint8_t\<close>.\<close>

definition at_remove_plugin :: "nat \<Rightarrow> hs_analysis_thread \<Rightarrow> hs_analysis_thread" where
  "at_remove_plugin i th =
     th\<lparr>at_list := (at_list th)[i := None], at_list_cnt := at_list_cnt th - 1,
        at_utilization := (if at_utilization th > 5 then at_utilization th - 5 else 0),
        at_max_mps := 0\<rparr>"

definition remove_from_analysis_plugins :: "string \<Rightarrow> hs_analysis_thread \<Rightarrow> hs_analysis_thread" where
  "remove_from_analysis_plugins name th =
     (case find_plugin (\<lambda>p. drop (length hs_analysis_dir + 1) (ap_name p)) name (at_list th) of
        None \<Rightarrow> th
      | Some i \<Rightarrow> at_remove_plugin i th)"

definition at_add_plugin :: "hs_analysis_plugin \<Rightarrow> hs_analysis_thread \<Rightarrow> hs_analysis_thread" where
  "at_add_plugin p th =
     th\<lparr>at_list := slot_add p (at_list th), at_list_cnt := at_list_cnt th + 1,
        at_utilization := (if UINT8_MAX - at_utilization th > 5 then at_utilization th + 5 else UINT8_MAX),
        at_max_mps := 0\<rparr>"

section \<open>Injecting messages\<close>

definition ap_inject ::
    "(nat \<Rightarrow> string) \<Rightarrow> hs_config \<Rightarrow> im_env \<times> string \<Rightarrow> hs_analysis_plugin \<times> queue \<Rightarrow>
     hs_exit + (im_result \<times> hs_analysis_plugin \<times> queue)" where
  "ap_inject varint cfg m s =
     (let (p, fs, ob, bp) = s; (env, pb) = m in
      if ap_im_limit p = 0 then Inr (IM_Limit, p, fs, ob, bp)
      else (case queue_message varint cfg env pb fs ob bp of
              Inl e \<Rightarrow> Inl e
            | Inr q \<Rightarrow> Inr (IM_Success, p\<lparr>ap_im_limit := ap_im_limit p - 1\<rparr>, q)))"

text \<open>The injections one call of the sandbox tries; a refused one may be followed by others.\<close>

definition ap_injects ::
    "(nat \<Rightarrow> string) \<Rightarrow> hs_config \<Rightarrow> (im_env \<times> string) list \<Rightarrow> hs_analysis_plugin \<times> queue \<Rightarrow>
     hs_exit + (hs_analysis_plugin \<times> queue)" where
  "ap_injects varint cfg =
     fold_exit (\<lambda>m s. case ap_inject varint cfg m s of Inl e \<Rightarrow> Inl e | Inr (_, s') \<Rightarrow> Inr s')"

section \<open>Dispatching a message\<close>

record analysis_env =
  an_matched :: bool
  an_pm_injects :: "(im_env \<times> string) list"
  an_pm_ret :: int
  an_te_injects :: "(im_env \<times> string) list"
  an_te_ret :: int
  an_error :: "string option"
  an_stamp :: string

text \<open>\<open>process_message\<close> of a plugin whose matcher accepts the message.\<close>

definition ap_process ::
    "(nat \<Rightarrow> string) \<Rightarrow> hs_config \<Rightarrow> analysis_env \<Rightarrow> hs_analysis_plugin \<times> queue \<Rightarrow>
     hs_exit + (int \<times> hs_analysis_plugin \<times> queue)" where
  "ap_process varint cfg env s =
     (let (p, q) = s;
          p1 = p\<lparr>ap_im_limit := ap_pm_im_limit p, ap_pm_delta_cnt := ap_pm_delta_cnt p + 1\<rparr>
      in case ap_injects varint cfg (an_pm_injects env) (p1, q) of
           Inl e \<Rightarrow> Inl e
         | Inr (p2, q2) \<Rightarrow> Inr (an_pm_ret env, p2\<lparr>ap_pm_sample := False\<rparr>, q2))"

definition ap_timer ::
    "(nat \<Rightarrow> string) \<Rightarrow> hs_config \<Rightarrow> int \<Rightarrow> analysis_env \<Rightarrow> hs_analysis_plugin \<times> queue \<Rightarrow>
     hs_exit + (int \<times> hs_analysis_plugin \<times> queue)" where
  "ap_timer varint cfg t env s =
     (let (p, q) = s in
      case ap_injects varint cfg (an_te_injects env) (p\<lparr>ap_im_limit := ap_te_im_limit p\<rparr>, q) of
        Inl e \<Rightarrow> Inl e
      | Inr (p1, q1) \<Rightarrow> Inr (an_te_ret env, p1\<lparr>ap_ticker_expires := t + ap_ticker_interval p1\<rparr>, q1))"

text \<open>What one plugin does with the message (or with the idle message, \<open>has_raw\<close> false).\<close>

definition ap_analyze ::
    "(nat \<Rightarrow> string) \<Rightarrow> hs_config \<Rightarrow> bool \<Rightarrow> bool \<Rightarrow> int \<Rightarrow> analysis_env \<Rightarrow> hs_analysis_plugin \<times> queue \<Rightarrow>
     hs_exit + (int \<times> hs_analysis_plugin \<times> queue)" where
  "ap_analyze varint cfg has_raw sample t env s =
     (let (p, q) = s; p0 = (if sample then p\<lparr>ap_pm_sample := True\<rparr> else p) in
      case (if has_raw \<and> an_matched env then ap_process varint cfg env (p0, q) else Inr (0, p0, q)) of
        Inl e \<Rightarrow> Inl e
      | Inr (ret, p1, q1) \<Rightarrow>
          if ret \<le> 0 \<and> ap_ticker_interval p1 \<noteq> 0 \<and> t \<ge> ap_ticker_expires p1
          then ap_timer varint cfg t env (p1, q1)
          else Inr (ret, p1, q1))"

text \<open>A thread with the queue it writes; the flag is set when the process was asked to stop.\<close>

record an_state =
  as_at :: hs_analysis_thread
  as_queue :: queue
  as_sigterm :: bool

definition terminate_sandbox ::
    "hs_config \<Rightarrow> analysis_env \<Rightarrow> nat \<Rightarrow> hs_analysis_plugin \<Rightarrow> an_state \<Rightarrow> an_state" where
  "terminate_sandbox cfg env i p s =
     (let (fs, ob, bp) = as_queue s;
          fs' = hs_save_termination_err fs (an_stamp env) (cfg_run_path cfg) (Some (ap_name p)) (an_error env)
      in s\<lparr>as_queue := (fs', ob, bp), as_sigterm := as_sigterm s \<or> ap_shutdown_terminate p,
           as_at := at_remove_plugin i (as_at s)\<rparr>)"

definition analyze_slot ::
    "(nat \<Rightarrow> string) \<Rightarrow> hs_config \<Rightarrow> bool \<Rightarrow> bool \<Rightarrow> (nat \<Rightarrow> analysis_env) \<Rightarrow> nat \<Rightarrow> an_state \<Rightarrow>
     hs_exit + an_state" where
  "analyze_slot varint cfg has_raw sample envs i s =
     (case at_list (as_at s) ! i of
        None \<Rightarrow> Inr s
      | Some p \<Rightarrow>
          (case ap_analyze varint cfg has_raw sample (at_current_t (as_at s)) (envs i) (p, as_queue s) of
             Inl e \<Rightarrow> Inl e
           | Inr (ret, p', q') \<Rightarrow>
               let s' = s\<lparr>as_at := (as_at s)\<lparr>at_list := (at_list (as_at s))[i := Some p']\<rparr>, as_queue := q'\<rparr>
               in Inr (if ret > 0 then terminate_sandbox cfg (envs i) i p' s' else s')))"

definition analyze_message ::
    "(nat \<Rightarrow> string) \<Rightarrow> hs_config \<Rightarrow> bool \<Rightarrow> bool \<Rightarrow> (nat \<Rightarrow> analysis_env) \<Rightarrow> an_state \<Rightarrow> hs_exit + an_state" where
  "analyze_message varint cfg has_raw sample envs s =
     fold_exit (analyze_slot varint cfg has_raw sample envs) [0 ..< length (at_list (as_at s))] s"

text \<open>At the end of a thread every sandbox gets a last timer event; any result but 0 terminates it.\<close>

definition shutdown_slot ::
    "(nat \<Rightarrow> string) \<Rightarrow> hs_config \<Rightarrow> (nat \<Rightarrow> analysis_env) \<Rightarrow> nat \<Rightarrow> an_state \<Rightarrow> hs_exit + an_state" where
  "shutdown_slot varint cfg envs i s =
     (case at_list (as_at s) ! i of
        None \<Rightarrow> Inr s
      | Some p \<Rightarrow>
          (case ap_injects varint cfg (an_te_injects (envs i))
                  (p\<lparr>ap_im_limit := ap_te_im_limit p\<rparr>, as_queue s) of
             Inl e \<Rightarrow> Inl e
           | Inr (p', q') \<Rightarrow>
               let s' = s\<lparr>as_at := (as_at s)\<lparr>at_list := (at_list (as_at s))[i := Some p']\<rparr>, as_queue := q'\<rparr>
               in Inr (if an_te_ret (envs i) \<noteq> 0 then terminate_sandbox cfg (envs i) i p' s' else s')))"

definition shutdown_timer_event ::
    "(nat \<Rightarrow> string) \<Rightarrow> hs_config \<Rightarrow> (nat \<Rightarrow> analysis_env) \<Rightarrow> an_state \<Rightarrow> hs_exit + an_state" where
  "shutdown_timer_event varint cfg envs s =
     fold_exit (shutdown_slot varint cfg envs) [0 ..< length (at_list (as_at s))] s"

section \<open>The thread\<close>

record at_local =
  al_bytes :: u64
  al_next :: bool
  al_wait :: int

record at_env =
  ae_time :: int
  ae_poll :: poll_env
  ae_plugins :: "nat \<Rightarrow> analysis_env"

definition at_init_local :: at_local where
  "at_init_local = \<lparr>al_bytes = 0, al_next = False, al_wait = 0\<rparr>"

text \<open>Reading on, and moving to the next file at the end of this one.\<close>

definition at_read ::
    "(lsb_input_buffer \<Rightarrow> u64 \<Rightarrow> lsb_input_buffer option) \<Rightarrow> hs_config \<Rightarrow> poll_env \<Rightarrow>
     hs_input \<times> at_local \<Rightarrow> hs_exit + (hs_input \<times> at_local)" where
  "at_read expand cfg env s =
     (let (hsi, l) = s in
      case hs_read_file expand (pe_fs_read env) hsi of
        Inl e \<Rightarrow> Inl e
      | Inr (n, hsi1) \<Rightarrow>
          let l1 = l\<lparr>al_bytes := n\<rparr> in
          if n = 0 \<and> (cp_offset (hsi_cp hsi1) \<ge> ucast (cfg_output_size cfg) \<or> al_next l) then
            (case hs_open_file (pe_seek_ok env) (pe_fs_open env) hsi1 hs_input_dir (cp_id (hsi_cp hsi1) + 1) of
               Inl e \<Rightarrow> Inl e
             | Inr (True, hsi2) \<Rightarrow> Inr (hsi2, l1\<lparr>al_next := True\<rparr>)
             | Inr (False, hsi2) \<Rightarrow>
                 let w = al_wait l + 1 in
                 if w > 60 \<or> cp_offset (hsi_cp hsi2) < ucast (cfg_output_size cfg) then
                   (case skip_missing cfg hs_input_dir env hsi2 of
                      Inl e \<Rightarrow> Inl e
                    | Inr (opened, hsi3) \<Rightarrow> Inr (hsi3, l1\<lparr>al_next := opened, al_wait := 0\<rparr>))
                 else Inr (hsi2, l1\<lparr>al_next := False, al_wait := w\<rparr>))
          else Inr (hsi1, l1))"

text \<open>Waiting for the first file, with the reset of the position after 60 turns.\<close>

definition at_await ::
    "hs_config \<Rightarrow> poll_env \<Rightarrow> hs_checkpoint_reader \<Rightarrow> hs_analysis_thread \<times> at_local \<Rightarrow>
     hs_exit + (hs_analysis_thread \<times> at_local)" where
  "at_await cfg env cpr s =
     (let (th, l) = s in
      case (if al_wait l + 1 > 60 then
              (case hs_lookup_input_checkpoint (pe_fs_open env) cpr hs_input_dir None (cfg_output_path cfg)
                      (hsi_cp (at_input th)) of
                 Inl e \<Rightarrow> Inl e
               | Inr cp \<Rightarrow> Inr (th\<lparr>at_input := (at_input th)\<lparr>hsi_cp := cp\<rparr>, at_cp := cp\<rparr>, 0))
            else Inr (th, al_wait l + 1)) of
        Inl e \<Rightarrow> Inl e
      | Inr (at1, w) \<Rightarrow>
          (case hs_open_file (pe_seek_ok env) (pe_fs_open env) (at_input at1) hs_input_dir
                  (cp_id (hsi_cp (at_input at1))) of
             Inl e \<Rightarrow> Inl e
           | Inr (opened, hsi) \<Rightarrow>
               Inr (at1\<lparr>at_input := hsi\<rparr>, l\<lparr>al_next := opened, al_wait := (if opened then 0 else w)\<rparr>)))"

text \<open>A message: every plugin gets it, then the checkpoint moves past it.\<close>

definition at_deliver ::
    "(nat \<Rightarrow> string) \<Rightarrow> hs_config \<Rightarrow> at_env \<Rightarrow> bool \<Rightarrow> an_state \<Rightarrow> hs_exit + an_state" where
  "at_deliver varint cfg env sample s =
     (case analyze_message varint cfg True sample (ae_plugins env)
             (s\<lparr>as_at := (as_at s)\<lparr>at_current_t := ae_time env\<rparr>\<rparr>) of
        Inl e \<Rightarrow> Inl e
      | Inr s1 \<Rightarrow>
          let th = as_at s1 in
          Inr (s1\<lparr>as_at := th\<lparr>at_mm_delta_cnt := at_mm_delta_cnt th + 1,
                              at_cp := reader_position (at_input th),
                              at_sample := (if sample then False else at_sample th)\<rparr>\<rparr>))"

definition at_idle ::
    "(nat \<Rightarrow> string) \<Rightarrow> hs_config \<Rightarrow> at_env \<Rightarrow> bool \<Rightarrow> an_state \<Rightarrow> hs_exit + an_state" where
  "at_idle varint cfg env sample s =
     (case analyze_message varint cfg False sample (ae_plugins env)
             (s\<lparr>as_at := (as_at s)\<lparr>at_current_t := ae_time env\<rparr>\<rparr>) of
        Inl e \<Rightarrow> Inl e
      | Inr s1 \<Rightarrow> Inr (if sample then s1\<lparr>as_at := (as_at s1)\<lparr>at_sample := False\<rparr>\<rparr> else s1))"

text \<open>One turn of \<open>input_thread\<close>; the flag is \<open>stop\<close> as read at its start.\<close>

definition at_turn ::
    "(lsb_input_buffer \<Rightarrow> 'm option \<times> lsb_input_buffer) \<Rightarrow>
     (lsb_input_buffer \<Rightarrow> u64 \<Rightarrow> lsb_input_buffer option) \<Rightarrow> (nat \<Rightarrow> string) \<Rightarrow> hs_config \<Rightarrow>
     hs_checkpoint_reader \<Rightarrow> at_env \<Rightarrow> an_state \<times> at_local \<Rightarrow> hs_exit + (bool \<times> an_state \<times> at_local)" where
  "at_turn scan expand varint cfg cpr env sl =
     (let (s, l) = sl; th = as_at s; stop = at_stop th; sample = at_sample th; hsi = at_input th in
      if hsi_fh hsi = None then
        (case at_await cfg (ae_poll env) cpr (th, l) of
           Inl e \<Rightarrow> Inl e
         | Inr (at1, l1) \<Rightarrow>
             if al_bytes l1 \<noteq> 0 then Inr (stop, s\<lparr>as_at := at1\<rparr>, l1)
             else (case at_idle varint cfg env sample (s\<lparr>as_at := at1\<rparr>) of
                     Inl e \<Rightarrow> Inl e
                   | Inr s2 \<Rightarrow> Inr (stop, s2, l1)))
      else
        (case scan (hsi_ib hsi) of
           (Some m, ib) \<Rightarrow>
             (case at_deliver varint cfg env sample (s\<lparr>as_at := th\<lparr>at_input := hsi\<lparr>hsi_ib := ib\<rparr>\<rparr>\<rparr>) of
                Inl e \<Rightarrow> Inl e
              | Inr s1 \<Rightarrow> Inr (stop, s1, l))
         | (None, ib) \<Rightarrow>
             (case at_read expand cfg (ae_poll env) (hsi\<lparr>hsi_ib := ib\<rparr>, l) of
                Inl e \<Rightarrow> Inl e
              | Inr (hsi1, l1) \<Rightarrow>
                  let s1 = s\<lparr>as_at := th\<lparr>at_input := hsi1\<rparr>\<rparr> in
                  if al_bytes l1 \<noteq> 0 then Inr (stop, s1, l1)
                  else (case at_idle varint cfg env sample s1 of
                          Inl e \<Rightarrow> Inl e
                        | Inr s2 \<Rightarrow> Inr (stop, s2, l1)))))"

text \<open>The loop, one environment per turn, then the shutdown; \<open>None\<close> while it has not returned.\<close>

fun at_run ::
    "(lsb_input_buffer \<Rightarrow> 'm option \<times> lsb_input_buffer) \<Rightarrow>
     (lsb_input_buffer \<Rightarrow> u64 \<Rightarrow> lsb_input_buffer option) \<Rightarrow> (nat \<Rightarrow> string) \<Rightarrow> hs_config \<Rightarrow>
     hs_checkpoint_reader \<Rightarrow> (nat \<Rightarrow> analysis_env) \<Rightarrow> at_env list \<Rightarrow> an_state \<times> at_local \<Rightarrow>
     hs_exit + an_state option" where
  "at_run scan expand varint cfg cpr fin [] sl = Inr None"
| "at_run scan expand varint cfg cpr fin (e # es) sl =
     (case at_turn scan expand varint cfg cpr e sl of
        Inl x \<Rightarrow> Inl x
      | Inr (stop, sl') \<Rightarrow>
          if stop then
            (case shutdown_timer_event varint cfg fin (fst sl') of Inl x \<Rightarrow> Inl x | Inr s \<Rightarrow> Inr (Some s))
          else at_run scan expand varint cfg cpr fin es sl')"

section \<open>The injection limit\<close>

lemma ap_injects_Nil [simp]: "ap_injects varint cfg [] s = Inr s"
  by (simp add: ap_injects_def)

lemma ap_injects_Cons:
  "ap_injects varint cfg (m # ms) s =
     (case ap_inject varint cfg m s of Inl e \<Rightarrow> Inl e | Inr (_, s') \<Rightarrow> ap_injects varint cfg ms s')"
  by (simp add: ap_injects_def split: sum.split prod.split)

text \<open>Trying to inject is putting the messages within the limit on the queue and refusing the rest.\<close>

lemma ap_injects_put_all:
  "ap_injects varint cfg ms (p, q) = Inr (p', q') \<Longrightarrow>
   queue_writer.put_all varint cfg q (take (unat (ap_im_limit p)) ms) = Some q' \<and>
   unat (ap_im_limit p') = unat (ap_im_limit p) - length ms \<and>
   p' = p\<lparr>ap_im_limit := ap_im_limit p'\<rparr>"
proof (induction ms arbitrary: p q)
  case (Cons m ms)
  obtain fs ob bp where q: "q = (fs, ob, bp)" by (cases q)
  obtain env pb where m: "m = (env, pb)" by (cases m)
  show ?case
  proof (cases "ap_im_limit p = 0")
    case True
    with Cons.prems have "ap_injects varint cfg ms (p, q) = Inr (p', q')"
      by (simp add: ap_injects_Cons ap_inject_def q m)
    with Cons.IH [OF this] True show ?thesis by simp
  next
    case False
    obtain q1 where q1: "queue_message varint cfg env pb fs ob bp = Inr q1"
      and r: "ap_injects varint cfg ms (p\<lparr>ap_im_limit := ap_im_limit p - 1\<rparr>, q1) = Inr (p', q')"
      using Cons.prems False by (auto simp: ap_injects_Cons ap_inject_def q m split: sum.splits)
    have u: "unat (ap_im_limit p) = Suc (unat (ap_im_limit p - 1))"
      using False by (simp add: unat_minus_one unat_gt_0)
    have put: "queue_put varint cfg q m = Some q1" by (simp add: queue_put_def q m q1)
    show ?thesis using Cons.IH [OF r] u put by (simp add: queue_writer.put_all.simps)
  qed
qed (simp add: queue_writer.put_all.simps)

section \<open>Dispatch\<close>

lemma ap_injects_delta: "ap_injects varint cfg ms (p, q) = Inr (p', q') \<Longrightarrow> ap_pm_delta_cnt p' = ap_pm_delta_cnt p"
  by (drule ap_injects_put_all) (metis hs_analysis_plugin.ext_inject hs_analysis_plugin.surjective hs_analysis_plugin.update_convs(7))

lemma ap_analyze_delta:
  "ap_analyze varint cfg has_raw sample t env (p, q) = Inr (ret, p', q') \<Longrightarrow>
   ap_pm_delta_cnt p' = ap_pm_delta_cnt p + (if has_raw \<and> an_matched env then 1 else 0)"
  by (auto simp: ap_analyze_def ap_process_def ap_timer_def Let_def dest!: ap_injects_delta
      split: if_splits sum.splits)

definition at_frame :: "hs_analysis_thread \<Rightarrow> hs_checkpoint \<times> int \<times> hs_input \<times> nat \<times> int \<times> bool \<times> bool \<times> nat" where
  "at_frame th = (at_cp th, at_current_t th, at_input th, at_tid th, at_mm_delta_cnt th, at_stop th, at_sample th,
     length (at_list th))"

lemma analyze_slot_None:
  "at_list (as_at s) ! i = None \<Longrightarrow> analyze_slot varint cfg has_raw sample envs i s = Inr s"
  by (simp add: analyze_slot_def)

lemma analyze_slot_Some:
  assumes "analyze_slot varint cfg has_raw sample envs i s = Inr s'" and "at_list (as_at s) ! i = Some p"
  obtains ret p' q' u where "ap_analyze varint cfg has_raw sample (at_current_t (as_at s)) (envs i) (p, as_queue s) = Inr (ret, p', q')"
    and "u = s\<lparr>as_at := (as_at s)\<lparr>at_list := (at_list (as_at s))[i := Some p']\<rparr>, as_queue := q'\<rparr>"
    and "s' = (if ret > 0 then terminate_sandbox cfg (envs i) i p' u else u)"
  using assms by (auto simp: analyze_slot_def Let_def split: sum.splits prod.splits)

lemma terminate_sandbox_list [simp]:
  "as_at (terminate_sandbox cfg env i p s) = at_remove_plugin i (as_at s)"
  by (simp add: terminate_sandbox_def split: prod.split)

lemma at_remove_frame [simp]: "at_frame (at_remove_plugin i th) = at_frame th"
  by (simp add: at_frame_def at_remove_plugin_def)

lemma analyze_slot_frame:
  assumes "analyze_slot varint cfg has_raw sample envs i s = Inr s'"
  shows "at_frame (as_at s') = at_frame (as_at s) \<and>
    (\<forall>j. j \<noteq> i \<longrightarrow> at_list (as_at s') ! j = at_list (as_at s) ! j)"
proof (cases "at_list (as_at s) ! i")
  case (Some p)
  obtain ret p' q' u where
    "ap_analyze varint cfg has_raw sample (at_current_t (as_at s)) (envs i) (p, as_queue s) = Inr (ret, p', q')"
    "u = s\<lparr>as_at := (as_at s)\<lparr>at_list := (at_list (as_at s))[i := Some p']\<rparr>, as_queue := q'\<rparr>"
    "s' = (if ret > 0 then terminate_sandbox cfg (envs i) i p' u else u)"
    by (rule analyze_slot_Some [OF assms Some])
  then show ?thesis by (simp add: at_remove_plugin_def at_frame_def)
qed (use assms in \<open>simp add: analyze_slot_None\<close>)

lemma fold_analyze_frame:
  assumes "fold_exit (analyze_slot varint cfg has_raw sample envs) is s = Inr s'"
  shows "at_frame (as_at s') = at_frame (as_at s) \<and>
    (\<forall>j. j \<notin> set is \<longrightarrow> at_list (as_at s') ! j = at_list (as_at s) ! j)"
  by (rule fold_exit_invariant [OF assms]) (simp, metis analyze_slot_frame)

lemma analyze_message_frame:
  "analyze_message varint cfg has_raw sample envs s = Inr s' \<Longrightarrow> at_frame (as_at s') = at_frame (as_at s)"
  by (auto simp: analyze_message_def dest: fold_analyze_frame)

lemma analyze_message_slot:
  assumes "analyze_message varint cfg has_raw sample envs s = Inr s'" and "i < length (at_list (as_at s))"
  obtains t u where "analyze_slot varint cfg has_raw sample envs i t = Inr u"
    and "at_list (as_at t) ! i = at_list (as_at s) ! i" and "at_frame (as_at t) = at_frame (as_at s)"
    and "at_list (as_at s') ! i = at_list (as_at u) ! i"
proof -
  let ?n = "length (at_list (as_at s))"
  have "[0 ..< ?n] = [0 ..< i] @ i # [Suc i ..< ?n]"
    using assms(2) by (metis upt_conv_Cons upt_add_eq_append le_add_diff_inverse less_imp_le_nat zero_le)
  with assms(1) obtain t u where
    t: "fold_exit (analyze_slot varint cfg has_raw sample envs) [0 ..< i] s = Inr t"
    and u: "analyze_slot varint cfg has_raw sample envs i t = Inr u"
    and r: "fold_exit (analyze_slot varint cfg has_raw sample envs) [Suc i ..< ?n] u = Inr s'"
    by (auto simp: analyze_message_def elim: fold_exit_split)
  show ?thesis
    using fold_analyze_frame [OF t] fold_analyze_frame [OF r] by (intro that [OF u]) auto
qed

section \<open>The plugin count\<close>

definition at_ok :: "hs_analysis_thread \<Rightarrow> bool" where
  "at_ok th \<longleftrightarrow> at_list_cnt th = int (length (occupied (at_list th)))"

lemma length_occupied_None:
  "i < length xs \<Longrightarrow> xs ! i = Some x \<Longrightarrow> length (occupied xs) = Suc (length (occupied (xs[i := None])))"
  by (drule (1) occupied_update_None) (metis size_add_mset size_mset)

lemma length_occupied_Some:
  "i < length xs \<Longrightarrow> xs ! i = Some x \<Longrightarrow> length (occupied (xs[i := Some y])) = length (occupied xs)"
  using length_occupied_None [of i xs x] length_occupied_None [of i "xs[i := Some y]" y] by simp

lemma at_remove_ok: "at_ok th \<Longrightarrow> i < length (at_list th) \<Longrightarrow> at_list th ! i = Some p \<Longrightarrow> at_ok (at_remove_plugin i th)"
  by (simp add: at_ok_def at_remove_plugin_def length_occupied_None)

lemma at_add_ok: "at_ok th \<Longrightarrow> at_ok (at_add_plugin p th)"
proof -
  assume "at_ok th"
  moreover have "length (occupied (slot_add p (at_list th))) = Suc (length (occupied (at_list th)))"
    by (metis slot_add_occupied size_add_mset size_mset)
  ultimately show ?thesis by (simp add: at_ok_def at_add_plugin_def)
qed

lemma remove_from_analysis_ok: "at_ok th \<Longrightarrow> at_ok (remove_from_analysis_plugins name th)"
  by (auto simp: remove_from_analysis_plugins_def split: option.split dest!: find_plugin_Some intro: at_remove_ok)

lemma update_slot_ok:
  "at_ok th \<Longrightarrow> i < length (at_list th) \<Longrightarrow> at_list th ! i = Some p \<Longrightarrow> at_ok (th\<lparr>at_list := (at_list th)[i := Some p']\<rparr>)"
  by (simp add: at_ok_def length_occupied_Some)

lemma analyze_slot_ok:
  assumes "analyze_slot varint cfg has_raw sample envs i s = Inr s'" and "at_ok (as_at s)" and "i < length (at_list (as_at s))"
  shows "at_ok (as_at s')"
proof (cases "at_list (as_at s) ! i")
  case (Some p)
  obtain ret p' q' u where "ap_analyze varint cfg has_raw sample (at_current_t (as_at s)) (envs i) (p, as_queue s) = Inr (ret, p', q')"
    and u: "u = s\<lparr>as_at := (as_at s)\<lparr>at_list := (at_list (as_at s))[i := Some p']\<rparr>, as_queue := q'\<rparr>"
    and s': "s' = (if ret > 0 then terminate_sandbox cfg (envs i) i p' u else u)"
    by (rule analyze_slot_Some [OF assms(1) Some])
  have "at_ok (as_at u)" using update_slot_ok [OF assms(2,3) Some] u by simp
  then show ?thesis using at_remove_ok [of "as_at u" i p'] assms(3) s' u by simp
qed (use assms in \<open>simp add: analyze_slot_None\<close>)

lemma analyze_message_ok:
  assumes "analyze_message varint cfg has_raw sample envs s = Inr s'" and "at_ok (as_at s)"
  shows "at_ok (as_at s')"
proof -
  have "at_ok (as_at s') \<and> length (at_list (as_at s')) = length (at_list (as_at s))"
    using assms(1) unfolding analyze_message_def
    by (rule fold_exit_invariant)
      (use assms(2) in \<open>auto dest: analyze_slot_ok analyze_slot_frame simp: at_frame_def\<close>)
  then show ?thesis by simp
qed

section \<open>The checkpoint\<close>

lemma at_idle_cp: "at_idle varint cfg env sample s = Inr s' \<Longrightarrow>
   at_cp (as_at s') = at_cp (as_at s) \<and> at_stop (as_at s') = at_stop (as_at s)"
  by (auto simp: at_idle_def at_frame_def dest!: analyze_message_frame split: sum.splits if_splits)


lemma at_deliver_cases:
  assumes "at_deliver varint cfg env sample s = Inr s'"
  obtains s1 where
    "analyze_message varint cfg True sample (ae_plugins env) (s\<lparr>as_at := (as_at s)\<lparr>at_current_t := ae_time env\<rparr>\<rparr>) = Inr s1"
    and "at_list (as_at s') = at_list (as_at s1)" and "at_cp (as_at s') = reader_position (at_input (as_at s))"
    and "at_stop (as_at s') = at_stop (as_at s)" and "at_input (as_at s') = at_input (as_at s)"
  using assms by (auto simp: at_deliver_def at_frame_def Let_def dest!: analyze_message_frame split: sum.splits)

lemma at_turn_stop_flag:
  "at_turn scan expand varint cfg cpr env (s, l) = Inr (stop, s', l') \<Longrightarrow> stop = at_stop (as_at s)"
  by (auto simp: at_turn_def Let_def split: if_splits sum.splits option.splits prod.splits)

lemma at_run_stop:
  assumes "at_stop (as_at s)" and "es \<noteq> []"
  shows "at_run scan expand varint cfg cpr fin es (s, l) \<noteq> Inr None"
  using assms by (cases es) (auto split: sum.split dest!: at_turn_stop_flag)

section \<open>Properties\<close>

text \<open>C32: whatever a sandbox tries during \<open>process_message\<close>, exactly the first \<open>process_message_inject_limit\<close> of its
  messages go to the queue, in order, and the others are refused without a trace.\<close>

theorem analysis_injection_limited:
  assumes "ap_process varint cfg env (p, q) = Inr (ret, p', q')"
  shows "queue_writer.put_all varint cfg q (take (unat (ap_pm_im_limit p)) (an_pm_injects env)) = Some q' \<and>
    unat (ap_im_limit p') = unat (ap_pm_im_limit p) - length (an_pm_injects env)"
proof -
  obtain p2 where "ap_injects varint cfg (an_pm_injects env)
      (p\<lparr>ap_im_limit := ap_pm_im_limit p, ap_pm_delta_cnt := ap_pm_delta_cnt p + 1\<rparr>, q) = Inr (p2, q')"
    and "p' = p2\<lparr>ap_pm_sample := False\<rparr>"
    using assms by (auto simp: ap_process_def Let_def split: sum.splits)
  with ap_injects_put_all [OF this(1)] show ?thesis by simp
qed

definition sample_analysis :: "string \<Rightarrow> hs_analysis_plugin" where
  "sample_analysis name =
     init_analysis_plugin (init_sandbox_config\<lparr>sbc_cfg_name := Some name, sbc_pm_im_limit := 1\<rparr>) ''a.lua'' 0 0"

definition sample_queue :: queue where
  "sample_queue =
     (\<lparr>fs_files = [(''o/3.log'', ''wx'')], fs_dirs = [''o''], fs_denied = []\<rparr>,
      \<lparr>o_fh = Some ''o/3.log'', o_buf = [], o_path = ''o'', o_min_cp_id = 3, o_cp = \<lparr>cp_id = 3, cp_offset = 2\<rparr>\<rparr>,
      \<lparr>bp_last_check = 0, bp_on = False\<rparr>)"

definition sample_an_env :: analysis_env where
  "sample_an_env =
     (let w = \<lparr>env_write = True, env_statfs_roll = None, env_statfs_release = None, env_time1 = 0, env_time2 = 0\<rparr>
      in \<lparr>an_matched = True, an_pm_injects = [(w, ''abc''), (w, ''de'')], an_pm_ret = 0,
          an_te_injects = [], an_te_ret = 0, an_error = None, an_stamp = []\<rparr>)"

theorem analysis_injection_limited_witness:
  "\<exists>p' q'. ap_process (\<lambda>n. [char_of n]) (init_config 1) sample_an_env (sample_analysis ''analysis.a'', sample_queue) = Inr (0, p', q') \<and>
     queue_writer.put_all (\<lambda>n. [char_of n]) (init_config 1) sample_queue (take 1 (an_pm_injects sample_an_env)) = Some q' \<and>
     ap_im_limit p' = 0"
proof -
  let ?r = "ap_process (\<lambda>n. [char_of n]) (init_config 1) sample_an_env (sample_analysis ''analysis.a'', sample_queue)"
  have "case ?r of Inr (r, _) \<Rightarrow> r = 0 | Inl _ \<Rightarrow> False" by code_simp
  then obtain p' q' where r: "?r = Inr (0, p', q')" by (auto split: sum.splits)
  have "unat (ap_pm_im_limit (sample_analysis ''analysis.a'')) = 1" "length (an_pm_injects sample_an_env) = 2"
    by code_simp+
  with analysis_injection_limited [OF r] r show ?thesis
    by (intro exI [of _ p'] exI [of _ q']) (simp add: unat_eq_0)
qed


definition scan_all :: "lsb_input_buffer \<Rightarrow> string option \<times> lsb_input_buffer" where
  "scan_all ib = (Some ''m'', ib\<lparr>ib_scanpos := ib_readpos ib\<rparr>)"

definition sample_thread :: hs_analysis_thread where
  "sample_thread =
     \<lparr>at_list = [None, Some (sample_analysis ''analysis.a'')], at_cp = \<lparr>cp_id = 1, cp_offset = 0\<rparr>, at_current_t = 0,
      at_input = reader_at_3, at_list_cnt = 1, at_tid = 0, at_mm_delta_cnt = 0, at_max_mps = 0,
      at_utilization = 5, at_stop = True, at_sample = False\<rparr>"

definition sample_at_env :: at_env where
  "sample_at_env =
     \<lparr>ae_time = 0, ae_poll = \<lparr>pe_seek_ok = True, pe_fs_read = queue_files [], pe_fs_open = queue_files []\<rparr>,
      ae_plugins = (\<lambda>_. sample_an_env\<lparr>an_pm_ret := 1\<rparr>)\<rparr>"


text \<open>The plugin count of an analysis thread is the number of plugins in its list, through loading,
  unloading and the failures met while a message is dispatched.\<close>

theorem analysis_list_count:
  assumes "at_ok (as_at s)"
  shows "at_ok (at_add_plugin p (as_at s)) \<and> at_ok (remove_from_analysis_plugins name (as_at s)) \<and>
    (case analyze_message varint cfg has_raw sample envs s of Inl e \<Rightarrow> True | Inr s' \<Rightarrow> at_ok (as_at s'))"
  using assms by (auto simp: at_add_ok remove_from_analysis_ok split: sum.split dest: analyze_message_ok)

theorem analysis_list_count_witness:
  "at_ok (remove_from_analysis_plugins ''a.off'' sample_thread) \<and>
   at_list_cnt (remove_from_analysis_plugins ''a.off'' sample_thread) = 0"
proof -
  have ok: "at_ok (as_at \<lparr>as_at = sample_thread, as_queue = sample_queue, as_sigterm = False\<rparr>)"
    by (simp add: at_ok_def sample_thread_def)
  have "at_list_cnt (remove_from_analysis_plugins ''a.off'' sample_thread) = 0" by code_simp
  then show ?thesis using analysis_list_count [OF ok] by simp
qed

text \<open>An analysis thread that was told to stop returns after the turn it is in, whatever the sandboxes
  do, or ends the process.\<close>

theorem analysis_thread_stops:
  assumes "at_stop (as_at s)" and "es \<noteq> []"
  shows "at_run scan expand varint cfg cpr fin es (s, l) \<noteq> Inr None"
  by (rule at_run_stop [OF assms])

theorem analysis_thread_stops_witness:
  "at_run scan_all roomy (\<lambda>n. [char_of n]) (init_config 1) \<lparr>cpr_values = []\<rparr> (\<lambda>_. sample_an_env) [sample_at_env]
     (\<lparr>as_at = sample_thread, as_queue = sample_queue, as_sigterm = False\<rparr>, at_init_local) \<noteq> Inr None"
  by (rule analysis_thread_stops) (simp_all add: sample_thread_def)

end
