(* ===== verification/HS_Analysis_Plugins.thy ===== *)
theory HS_Analysis_Plugins
  imports HS_Analysis_Thread
begin

text \<open>
  Loading analysis plugins onto threads (\<open>src/hs_analysis_plugins.c\<close>): where a plugin ran before
  (\<open>get_previous_tid\<close>), which thread a new one gets, the checks of a configuration that arrives at
  run time, the start and the stop of the threads.

  \<open>lua_tointeger\<close> is a parameter (\<open>toint\<close>): it converts a whole number exactly.
\<close>

section \<open>State\<close>

record hs_analysis_plugins =
  aps_list :: "hs_analysis_thread list"
  aps_cpr :: hs_checkpoint_reader
  aps_output :: hs_output

fun init_threads ::
    "(u64 \<Rightarrow> lsb_input_buffer) \<Rightarrow> hs_config \<Rightarrow> nat list \<Rightarrow> hs_exit + hs_analysis_thread list" where
  "init_threads init_ib cfg [] = Inr []"
| "init_threads init_ib cfg (i # is) =
     (case init_analysis_thread init_ib cfg i of
        Inl e \<Rightarrow> Inl e
      | Inr th \<Rightarrow> (case init_threads init_ib cfg is of Inl e \<Rightarrow> Inl e | Inr ths \<Rightarrow> Inr (th # ths)))"

definition hs_init_analysis_plugins ::
    "(u64 \<Rightarrow> lsb_input_buffer) \<Rightarrow> hs_config \<Rightarrow> hs_checkpoint_reader \<Rightarrow> fsys \<Rightarrow>
     hs_exit + (fsys \<times> hs_analysis_plugins)" where
  "hs_init_analysis_plugins init_ib cfg cpr fs =
     (case hs_init_output fs (str_of (cfg_output_path cfg)) hs_analysis_dir of
        Inl e \<Rightarrow> Inl e
      | Inr (fs', ob) \<Rightarrow>
          (case init_threads init_ib cfg [0 ..< unat (cfg_analysis_threads cfg)] of
             Inl e \<Rightarrow> Inl e
           | Inr ths \<Rightarrow> Inr (fs', \<lparr>aps_list = ths, aps_cpr = cpr, aps_output = ob\<rparr>)))"

definition add_to_analysis_plugins ::
    "hs_config \<Rightarrow> hs_sandbox_config \<Rightarrow> hs_analysis_plugin \<Rightarrow> hs_analysis_plugins \<Rightarrow> hs_analysis_plugins" where
  "add_to_analysis_plugins cfg sbc p aps =
     (let i = unat (sbc_thread sbc mod ucast (cfg_analysis_threads cfg))
      in aps\<lparr>aps_list := (aps_list aps)[i := at_add_plugin p (aps_list aps ! i)]\<rparr>)"

section \<open>The thread a plugin runs on\<close>

definition get_tid ::
    "lua_env \<Rightarrow> (lua_number \<Rightarrow> int) \<Rightarrow> fsys \<Rightarrow> string \<Rightarrow> string \<Rightarrow> u32" where
  "get_tid lenv toint fs path name =
     (case hs_get_fqfn path name HS_MAX_PATH of
        None \<Rightarrow> UINT_MAX
      | Some fqfn \<Rightarrow>
          (case fopen_re fs fqfn of
             None \<Rightarrow> UINT_MAX
           | Some chunk \<Rightarrow>
               (case lua_run lenv chunk of
                  Inl _ \<Rightarrow> UINT_MAX
                | Inr L \<Rightarrow>
                    (case map_of (ls_globals L) (LString ''thread'') of
                       Some (LNumber d) \<Rightarrow> word_of_int (toint d)
                     | _ \<Rightarrow> UINT_MAX))))"

text \<open>The thread in the run-time configuration the plugin last ran with.\<close>

definition get_previous_tid ::
    "lua_env \<Rightarrow> (lua_number \<Rightarrow> int) \<Rightarrow> fsys \<Rightarrow> string \<Rightarrow> string \<Rightarrow> u32" where
  "get_previous_tid lenv toint fs opath name =
     get_tid lenv toint fs opath (swap_ext (hs_analysis_dir @ ''.'' @ name) hs_rtc_ext)"

definition ext_exists :: "fsys \<Rightarrow> string \<Rightarrow> string \<Rightarrow> string \<Rightarrow> hs_exit + bool" where
  "ext_exists fs dir name ext =
     (case hs_get_fqfn dir name HS_MAX_PATH of
        None \<Rightarrow> Inl Path_too_long
      | Some path \<Rightarrow> Inr (hs_file_exists fs (swap_ext path ext)))"

text \<open>
  Whether a file of the load directory may be processed, and on which thread. The \<open>.err\<close> flag is
  looked for only when there is no \<open>.off\<close> flag.
\<close>

definition cfg_thread_id ::
    "lua_env \<Rightarrow> (lua_number \<Rightarrow> int) \<Rightarrow> hs_config \<Rightarrow> fsys \<Rightarrow> string \<Rightarrow> hs_exit + (bool \<times> u32 \<times> fsys)" where
  "cfg_thread_id lenv toint cfg fs name =
     (let lpath = str_of (cfg_load_path_analysis cfg); rpath = str_of (cfg_run_path_analysis cfg);
          tid = get_tid lenv toint fs lpath name
      in case ext_exists fs rpath name hs_off_ext of
           Inl e \<Rightarrow> Inl e
         | Inr off \<Rightarrow>
             (case (if off then Inr True else ext_exists fs rpath name hs_err_ext) of
                Inl e \<Rightarrow> Inl e
              | Inr stopped \<Rightarrow>
                  let otid = (if stopped then tid
                              else get_previous_tid lenv toint fs (str_of (cfg_output_path cfg)) name);
                      tid1 = (if \<not> stopped \<and> tid = UINT_MAX then otid else tid)
                  in if otid \<noteq> tid1 then Inr (False, tid1, snd (hs_remove_file fs lpath name))
                     else Inr (True, tid1, fs)))"

definition get_thread_id ::
    "lua_env \<Rightarrow> (lua_number \<Rightarrow> int) \<Rightarrow> hs_config \<Rightarrow> fsys \<Rightarrow> string \<Rightarrow> hs_exit + (bool \<times> u32 \<times> fsys)" where
  "get_thread_id lenv toint cfg fs name =
     (if hs_has_ext name hs_cfg_ext then cfg_thread_id lenv toint cfg fs name
      else if hs_has_ext name hs_off_ext then
        (let tid = get_previous_tid lenv toint fs (str_of (cfg_output_path cfg)) (swap_ext name hs_cfg_ext)
         in if tid \<noteq> UINT_MAX then Inr (True, tid, fs)
            else Inr (False, tid, snd (hs_remove_file fs (str_of (cfg_load_path_analysis cfg)) name)))
      else Inr (False, UINT_MAX, fs))"

definition INT_MAX :: int where "INT_MAX = 2147483647"

fun least_loop :: "nat \<Rightarrow> hs_analysis_thread list \<Rightarrow> nat \<times> u8 \<times> int \<Rightarrow> nat \<times> u8 \<times> int" where
  "least_loop i [] m = m"
| "least_loop i (th # ths) (tid, min_util, min_cnt) =
     least_loop (Suc i) ths
       (if at_utilization th < min_util \<or> at_utilization th = min_util \<and> at_list_cnt th < min_cnt
        then (i, at_utilization th, at_list_cnt th) else (tid, min_util, min_cnt))"

definition least_used_thread_id :: "hs_config \<Rightarrow> hs_analysis_plugins \<Rightarrow> u32" where
  "least_used_thread_id cfg aps =
     (case least_loop 0 (aps_list aps) (0, UINT8_MAX, INT_MAX) of
        (tid, min_util, min_cnt) \<Rightarrow>
          if cfg_analysis_utilization_limit cfg \<noteq> 0 \<and> min_util \<ge> cfg_analysis_utilization_limit cfg
          then UINT_MAX else word_of_nat tid)"

text \<open>At startup: the first thread without plugins, or the one with the fewest.\<close>

fun pick_loop :: "nat \<Rightarrow> int list \<Rightarrow> int \<Rightarrow> u32 \<Rightarrow> u32" where
  "pick_loop i [] min_cnt tid = tid"
| "pick_loop i (c # cs) min_cnt tid =
     (if c = 0 then word_of_nat i
      else if c < min_cnt then pick_loop (Suc i) cs c (word_of_nat i)
      else pick_loop (Suc i) cs min_cnt tid)"

definition pick_thread :: "int list \<Rightarrow> u32" where
  "pick_thread counts = pick_loop 0 counts INT_MAX UINT_MAX"

section \<open>Startup\<close>

text \<open>
  The migration of old run-time configurations: a rename, or a copy when the rename fails. The
  copy truncates the new file even when the old one cannot be read.
\<close>

definition migrate_rtc :: "hs_config \<Rightarrow> string \<Rightarrow> string \<Rightarrow> fsys \<Rightarrow> hs_exit + fsys" where
  "migrate_rtc cfg dir e fs =
     (if hs_has_ext e hs_rtc_ext then
        (case hs_get_fqfn dir e HS_MAX_PATH of
           None \<Rightarrow> Inl Path_too_long
         | Some ofn \<Rightarrow>
             let nfn = str_of (cfg_output_path cfg) @ ''/'' @ hs_analysis_dir @ ''.'' @ e in
             if length nfn > HS_MAX_PATH - 1 then Inl Path_too_long
             else (case rename fs ofn nfn of
                     (True, fs') \<Rightarrow> Inr fs'
                   | (False, fs') \<Rightarrow>
                       (case fopen_we fs' nfn of
                          None \<Rightarrow> Inr fs'
                        | Some fs2 \<Rightarrow>
                            (case fopen_re fs' ofn of
                               None \<Rightarrow> Inr fs2
                             | Some c \<Rightarrow> Inr (fs_append fs2 nfn c)))))
      else Inr fs)"

definition bump :: "int list \<Rightarrow> u32 \<Rightarrow> int list" where
  "bump counts tid =
     (let i = unat (tid mod word_of_nat (length counts)) in counts[i := counts ! i + 1])"

definition count_provisioned ::
    "lua_env \<Rightarrow> (lua_number \<Rightarrow> int) \<Rightarrow> hs_config \<Rightarrow> fsys \<Rightarrow> string \<Rightarrow> string \<Rightarrow> int list \<Rightarrow> int list" where
  "count_provisioned lenv toint cfg fs dir e counts =
     (if hs_has_ext e hs_cfg_ext then
        let t = get_tid lenv toint fs dir e;
            tid = (if t = UINT_MAX then get_previous_tid lenv toint fs (str_of (cfg_output_path cfg)) e else t)
        in if tid \<noteq> UINT_MAX then bump counts tid else counts
      else counts)"

definition create_analysis_plugin ::
    "sandbox_lib \<Rightarrow> fsys \<Rightarrow> hs_config \<Rightarrow> hs_sandbox_config \<Rightarrow> hs_exit + (hs_analysis_plugin option \<times> fsys)" where
  "create_analysis_plugin lib fs cfg sbc =
     (case prepare_sandbox lib (CHR ''a'') hs_analysis_dir fs cfg sbc of
        Inl e \<Rightarrow> Inl e
      | Inr (None, fs') \<Rightarrow> Inr (None, fs')
      | Inr (Some lua_file, fs') \<Rightarrow> Inr (Some (init_analysis_plugin sbc lua_file (sl_now lib) (sl_rnd lib)), fs'))"

text \<open>Giving a plugin without a thread one, and counting it.\<close>

definition assign_thread ::
    "lua_env \<Rightarrow> (lua_number \<Rightarrow> int) \<Rightarrow> hs_config \<Rightarrow> fsys \<Rightarrow> string \<Rightarrow> hs_sandbox_config \<Rightarrow> int list \<Rightarrow>
     hs_sandbox_config \<times> int list" where
  "assign_thread lenv toint cfg fs e sbc counts =
     (if sbc_thread sbc = UINT_MAX then
        let t = get_previous_tid lenv toint fs (str_of (cfg_output_path cfg)) e in
        if t = UINT_MAX then
          let tid = pick_thread counts in (sbc\<lparr>sbc_thread := tid\<rparr>, bump counts tid)
        else (sbc\<lparr>sbc_thread := t\<rparr>, counts)
      else (sbc, counts))"

definition load_analysis_entry ::
    "sandbox_lib \<Rightarrow> (lua_number \<Rightarrow> int) \<Rightarrow> hs_config \<Rightarrow> string \<Rightarrow> string \<Rightarrow>
     fsys \<times> hs_analysis_plugins \<times> int list \<Rightarrow> hs_exit + (fsys \<times> hs_analysis_plugins \<times> int list)" where
  "load_analysis_entry lib toint cfg dir e s =
     (let (fs, aps, counts) = s in
      case hs_load_sandbox_config (sl_lua lib) fs dir e (cfg_apd cfg) (CHR ''a'') of
        Inl x \<Rightarrow> Inl x
      | Inr (fs1, None) \<Rightarrow> Inr (fs1, aps, counts)
      | Inr (fs1, Some sbc) \<Rightarrow>
          let (sbc1, counts1) = assign_thread (sl_lua lib) toint cfg fs1 e sbc counts in
          (case create_analysis_plugin lib fs1 cfg sbc1 of
             Inl x \<Rightarrow> Inl x
           | Inr (None, fs2) \<Rightarrow> Inr (fs2, aps, counts1)
           | Inr (Some p, fs2) \<Rightarrow> Inr (fs2, add_to_analysis_plugins cfg sbc1 p aps, counts1)))"

definition hs_load_analysis_startup ::
    "sandbox_lib \<Rightarrow> (lua_number \<Rightarrow> int) \<Rightarrow> hs_config \<Rightarrow> fsys \<Rightarrow> hs_analysis_plugins \<Rightarrow>
     hs_exit + (fsys \<times> hs_analysis_plugins)" where
  "hs_load_analysis_startup lib toint cfg fs aps =
     (let dir = str_of (cfg_run_path_analysis cfg); fs1 = hs_prune_err fs dir
      in case readdir fs1 dir of
           None \<Rightarrow> Inl No_such_directory
         | Some es \<Rightarrow>
             (case fold_exit (migrate_rtc cfg dir) es fs1 of
                Inl x \<Rightarrow> Inl x
              | Inr fs2 \<Rightarrow>
                  let es2 = (case readdir fs2 dir of None \<Rightarrow> [] | Some es2 \<Rightarrow> es2);
                      counts = fold (count_provisioned (sl_lua lib) toint cfg fs2 dir) es2
                                 (replicate (length (aps_list aps)) 0)
                  in (case fold_exit (load_analysis_entry lib toint cfg dir) es2 (fs2, aps, counts) of
                        Inl x \<Rightarrow> Inl x
                      | Inr (fs3, aps3, _) \<Rightarrow> Inr (fs3, aps3))))"

section \<open>Loading at run time\<close>

definition analysis_stem :: "hs_analysis_plugin \<Rightarrow> string" where
  "analysis_stem p = drop (length hs_analysis_dir + 1) (ap_name p)"

text \<open>The Lua file is installed once; the plugins of all threads that run it are restarted.\<close>

definition analysis_process_lua ::
    "hs_config \<Rightarrow> fsys \<Rightarrow> string \<Rightarrow> hs_analysis_plugins \<Rightarrow> hs_exit + fsys" where
  "analysis_process_lua cfg fs name aps =
     process_lua_files fs (str_of (cfg_load_path_analysis cfg)) (str_of (cfg_run_path_analysis cfg)) name
       (map (\<lambda>p. (ap_lua_file p, analysis_stem p)) (concat (map (\<lambda>th. occupied (at_list th)) (aps_list aps))))"

definition update_thread ::
    "nat \<Rightarrow> (hs_analysis_thread \<Rightarrow> hs_analysis_thread) \<Rightarrow> hs_analysis_plugins \<Rightarrow> hs_analysis_plugins" where
  "update_thread i f aps = aps\<lparr>aps_list := (aps_list aps)[i := f (aps_list aps ! i)]\<rparr>"

definition load_analysis_plugin ::
    "sandbox_lib \<Rightarrow> hs_config \<Rightarrow> fsys \<Rightarrow> string \<Rightarrow> u32 \<Rightarrow> hs_analysis_plugins \<Rightarrow>
     hs_exit + (fsys \<times> hs_analysis_plugins)" where
  "load_analysis_plugin lib cfg fs name tid aps =
     (case hs_load_sandbox_config (sl_lua lib) fs (str_of (cfg_run_path_analysis cfg)) name (cfg_apd cfg) (CHR ''a'') of
        Inl x \<Rightarrow> Inl x
      | Inr (fs1, None) \<Rightarrow> Inr (fs1, aps)
      | Inr (fs1, Some sbc) \<Rightarrow>
          let sbc1 = (if sbc_thread sbc = UINT_MAX then sbc\<lparr>sbc_thread := tid\<rparr> else sbc) in
          (case create_analysis_plugin lib fs1 cfg sbc1 of
             Inl x \<Rightarrow> Inl x
           | Inr (None, fs2) \<Rightarrow> Inr (fs2, aps)
           | Inr (Some p, fs2) \<Rightarrow> Inr (fs2, add_to_analysis_plugins cfg sbc1 p aps)))"

definition hs_load_analysis_dynamic ::
    "sandbox_lib \<Rightarrow> (lua_number \<Rightarrow> int) \<Rightarrow> hs_config \<Rightarrow> string \<Rightarrow> fsys \<Rightarrow> hs_analysis_plugins \<Rightarrow>
     hs_exit + (fsys \<times> hs_analysis_plugins)" where
  "hs_load_analysis_dynamic lib toint cfg name fs aps =
     (let lpath = str_of (cfg_load_path_analysis cfg); rpath = str_of (cfg_run_path_analysis cfg) in
      if hs_has_ext name hs_lua_ext then
        (case analysis_process_lua cfg fs name aps of Inl x \<Rightarrow> Inl x | Inr fs' \<Rightarrow> Inr (fs', aps))
      else
        (case get_thread_id (sl_lua lib) toint cfg fs name of
           Inl x \<Rightarrow> Inl x
         | Inr (False, _, fs1) \<Rightarrow> Inr (snd (hs_remove_file fs1 lpath name), aps)
         | Inr (True, tid0, fs1) \<Rightarrow>
             let dynamic = (tid0 = UINT_MAX); tid = (if dynamic then least_used_thread_id cfg aps else tid0) in
             if tid = UINT_MAX then Inr (snd (hs_remove_file fs1 lpath name), aps)
             else
               let i = unat (tid mod word_of_nat (length (aps_list aps))) in
               (case hs_process_load_cfg fs1 lpath rpath name of
                  Inl x \<Rightarrow> Inl x
                | Inr (code, fs2) \<Rightarrow>
                    if code = 0 then Inr (fs2, update_thread i (remove_from_analysis_plugins name) aps)
                    else if code = 1 then
                      load_analysis_plugin lib cfg fs2 name tid
                        (if dynamic then aps else update_thread i (remove_from_analysis_plugins name) aps)
                    else Inr (fs2, aps))))"

section \<open>Starting and stopping the threads\<close>

definition start_analysis_thread ::
    "fsys \<Rightarrow> hs_config \<Rightarrow> hs_checkpoint_reader \<Rightarrow> hs_analysis_thread \<Rightarrow> hs_exit + hs_analysis_thread" where
  "start_analysis_thread fs cfg cpr th =
     (case hs_lookup_input_checkpoint fs cpr hs_input_dir (Some (hsi_name (at_input th))) (cfg_output_path cfg)
             (hsi_cp (at_input th)) of
        Inl e \<Rightarrow> Inl e
      | Inr cp \<Rightarrow> Inr (th\<lparr>at_input := (at_input th)\<lparr>hsi_cp := cp\<rparr>, at_cp := cp\<rparr>))"

fun start_analysis_list ::
    "fsys \<Rightarrow> hs_config \<Rightarrow> hs_checkpoint_reader \<Rightarrow> hs_analysis_thread list \<Rightarrow> hs_exit + hs_analysis_thread list" where
  "start_analysis_list fs cfg cpr [] = Inr []"
| "start_analysis_list fs cfg cpr (th # ths) =
     (case start_analysis_thread fs cfg cpr th of
        Inl e \<Rightarrow> Inl e
      | Inr th' \<Rightarrow>
          (case start_analysis_list fs cfg cpr ths of Inl e \<Rightarrow> Inl e | Inr ths' \<Rightarrow> Inr (th' # ths')))"

definition hs_start_analysis_threads ::
    "fsys \<Rightarrow> hs_config \<Rightarrow> hs_analysis_plugins \<Rightarrow> hs_exit + hs_analysis_plugins" where
  "hs_start_analysis_threads fs cfg aps =
     (case start_analysis_list fs cfg (aps_cpr aps) (aps_list aps) of
        Inl e \<Rightarrow> Inl e
      | Inr ths \<Rightarrow> Inr (aps\<lparr>aps_list := ths\<rparr>))"

definition hs_stop_analysis_plugins :: "hs_analysis_plugins \<Rightarrow> hs_analysis_plugins" where
  "hs_stop_analysis_plugins aps = aps\<lparr>aps_list := map (\<lambda>th. th\<lparr>at_stop := True\<rparr>) (aps_list aps)\<rparr>"

section \<open>Choosing a thread\<close>

text \<open>The order the scan compares by: utilization first, then the number of plugins.\<close>

definition lighter :: "u8 \<times> int \<Rightarrow> u8 \<times> int \<Rightarrow> bool" where
  "lighter a b \<longleftrightarrow> fst a < fst b \<or> fst a = fst b \<and> snd a < snd b"

definition thread_load :: "hs_analysis_thread \<Rightarrow> u8 \<times> int" where
  "thread_load th = (at_utilization th, at_list_cnt th)"

lemma lighter_trans: "lighter a b \<Longrightarrow> lighter b c \<Longrightarrow> lighter a c"
  by (auto simp: lighter_def)

lemma lighter_irrefl [simp]: "\<not> lighter a a"
  by (simp add: lighter_def)

lemma lighter_neg_trans: "\<not> lighter a b \<Longrightarrow> lighter c b \<Longrightarrow> lighter c a"
  by (auto simp: lighter_def)

text \<open>The first of the lightest threads, or the start value when none is lighter.\<close>

definition scan_result :: "hs_analysis_thread list \<Rightarrow> nat \<Rightarrow> nat \<times> u8 \<times> int \<Rightarrow> nat \<times> u8 \<times> int \<Rightarrow> bool" where
  "scan_result ths n m r \<longleftrightarrow>
     (r = m \<and> (\<forall>th \<in> set ths. \<not> lighter (thread_load th) (snd m)) \<or>
      (\<exists>k < length ths. fst r = n + k \<and> snd r = thread_load (ths ! k) \<and> lighter (snd r) (snd m) \<and>
         (\<forall>th \<in> set ths. \<not> lighter (thread_load th) (snd r)) \<and>
         (\<forall>j < k. lighter (snd r) (thread_load (ths ! j)))))"

lemma least_loop_step:
  "least_loop n (th # ths) m =
     least_loop (Suc n) ths (if lighter (thread_load th) (snd m) then (n, thread_load th) else m)"
  by (cases m) (simp add: lighter_def thread_load_def)

lemma scan_result_Cons:
  assumes "scan_result ths (Suc n) (if lighter (thread_load th) (snd m) then (n, thread_load th) else m) r"
  shows "scan_result (th # ths) n m r"
proof (cases "lighter (thread_load th) (snd m)")
  case True
  then have "scan_result ths (Suc n) (n, thread_load th) r" using assms by simp
  then consider (same) "r = (n, thread_load th)" "\<forall>t \<in> set ths. \<not> lighter (thread_load t) (thread_load th)"
    | (later) k where "k < length ths" "fst r = Suc n + k" "snd r = thread_load (ths ! k)"
        "lighter (snd r) (thread_load th)" "\<forall>t \<in> set ths. \<not> lighter (thread_load t) (snd r)"
        "\<forall>j < k. lighter (snd r) (thread_load (ths ! j))"
    by (auto simp: scan_result_def)
  then show ?thesis
  proof cases
    case same
    then show ?thesis using True by (auto simp: scan_result_def intro!: exI [of _ 0])
  next
    case later
    have "\<not> lighter (thread_load th) (snd r)" using later(4) by (auto simp: lighter_def)
    moreover have "\<forall>j < Suc k. lighter (snd r) (thread_load ((th # ths) ! j))"
      using later(4,6) by (simp add: All_less_Suc2)
    ultimately show ?thesis
      using later True lighter_trans [OF later(4) True]
      unfolding scan_result_def by (intro disjI2 exI [of _ "Suc k"]) simp
  qed
next
  case False
  then have "scan_result ths (Suc n) m r" using assms by simp
  then consider (same) "r = m" "\<forall>t \<in> set ths. \<not> lighter (thread_load t) (snd m)"
    | (later) k where "k < length ths" "fst r = Suc n + k" "snd r = thread_load (ths ! k)"
        "lighter (snd r) (snd m)" "\<forall>t \<in> set ths. \<not> lighter (thread_load t) (snd r)"
        "\<forall>j < k. lighter (snd r) (thread_load (ths ! j))"
    by (auto simp: scan_result_def)
  then show ?thesis
  proof cases
    case same
    then show ?thesis using False by (simp add: scan_result_def)
  next
    case later
    have l: "lighter (snd r) (thread_load th)" by (rule lighter_neg_trans [OF False later(4)])
    moreover have "\<not> lighter (thread_load th) (snd r)" using l by (auto simp: lighter_def)
    moreover have "\<forall>j < Suc k. lighter (snd r) (thread_load ((th # ths) ! j))"
      using l later(6) by (simp add: All_less_Suc2)
    ultimately show ?thesis
      using later unfolding scan_result_def by (intro disjI2 exI [of _ "Suc k"]) simp
  qed
qed

lemma least_loop_result: "scan_result ths n m (least_loop n ths m)"
proof (induction ths arbitrary: n m)
  case Nil
  then show ?case by (cases m) (simp add: scan_result_def)
next
  case (Cons th ths)
  show ?case unfolding least_loop_step by (rule scan_result_Cons [OF Cons.IH])
qed

lemma thread_below_start:
  assumes "at_list_cnt th < INT_MAX"
  shows "lighter (thread_load th) (UINT8_MAX, INT_MAX)"
proof (cases "at_utilization th = UINT8_MAX")
  case False
  then have "at_utilization th < UINT8_MAX" by (meson word_n1_ge order.not_eq_order_implies_strict)
  then show ?thesis by (simp add: lighter_def thread_load_def)
qed (use assms in \<open>simp add: lighter_def thread_load_def\<close>)

text \<open>The thread for a new plugin: none when all are at the limit, else the first of the lightest.\<close>

lemma least_used_spec:
  assumes "aps_list aps \<noteq> []" and "\<forall>th \<in> set (aps_list aps). at_list_cnt th < INT_MAX"
  obtains i where "i < length (aps_list aps)"
    and "\<forall>th \<in> set (aps_list aps). \<not> lighter (thread_load th) (thread_load (aps_list aps ! i))"
    and "\<forall>j < i. lighter (thread_load (aps_list aps ! i)) (thread_load (aps_list aps ! j))"
    and "least_used_thread_id cfg aps =
      (if cfg_analysis_utilization_limit cfg \<noteq> 0 \<and>
          cfg_analysis_utilization_limit cfg \<le> at_utilization (aps_list aps ! i) then UINT_MAX else word_of_nat i)"
proof -
  let ?r = "least_loop 0 (aps_list aps) (0, UINT8_MAX, INT_MAX)"
  have first: "lighter (thread_load (hd (aps_list aps))) (UINT8_MAX, INT_MAX)"
    using assms by (auto intro: thread_below_start)
  have "scan_result (aps_list aps) 0 (0, UINT8_MAX, INT_MAX) ?r" by (rule least_loop_result)
  then obtain k where k: "k < length (aps_list aps)" "fst ?r = k" "snd ?r = thread_load (aps_list aps ! k)"
    "\<forall>th \<in> set (aps_list aps). \<not> lighter (thread_load th) (thread_load (aps_list aps ! k))"
    "\<forall>j < k. lighter (thread_load (aps_list aps ! k)) (thread_load (aps_list aps ! j))"
    using first assms(1) by (auto simp: scan_result_def)
  have r: "?r = (k, at_utilization (aps_list aps ! k), at_list_cnt (aps_list aps ! k))"
    using k(2,3) by (simp add: prod_eq_iff thread_load_def)
  show ?thesis
    by (rule that [OF k(1,4,5)]) (simp add: least_used_thread_id_def r)
qed

section \<open>Startup distribution\<close>

lemma pick_loop_spec:
  assumes "\<forall>c \<in> set cs. 0 \<le> c"
  shows "pick_loop n cs m t = t \<and> (\<forall>c \<in> set cs. m \<le> c \<and> c \<noteq> 0) \<or>
    (\<exists>k < length cs. pick_loop n cs m t = word_of_nat (n + k) \<and> (\<forall>c \<in> set cs. cs ! k \<le> c) \<and>
       (\<forall>j < k. cs ! k < cs ! j) \<and> (cs ! k = 0 \<or> cs ! k < m))"
  using assms
proof (induction cs arbitrary: n m t)
  case (Cons c cs)
  consider (zero) "c = 0" | (less) "c \<noteq> 0" "c < m" | (skip) "c \<noteq> 0" "m \<le> c" by linarith
  then show ?case
  proof cases
    case zero
    with Cons.prems show ?thesis by (intro disjI2 exI [of _ 0]) auto
  next
    case less
    from Cons.IH [of "Suc n" c "word_of_nat n"] Cons.prems
    consider (same) "pick_loop (Suc n) cs c (word_of_nat n) = word_of_nat n" "\<forall>d \<in> set cs. c \<le> d \<and> d \<noteq> 0"
      | (later) k where "k < length cs" "pick_loop (Suc n) cs c (word_of_nat n) = word_of_nat (Suc n + k)"
          "\<forall>d \<in> set cs. cs ! k \<le> d" "\<forall>j < k. cs ! k < cs ! j" "cs ! k = 0 \<or> cs ! k < c"
      by auto
    then show ?thesis
    proof cases
      case same
      with less show ?thesis by (intro disjI2 exI [of _ 0]) auto
    next
      case later
      have "cs ! k < c" using later(5) Cons.prems less(1) by auto
      with later less show ?thesis
        by (intro disjI2 exI [of _ "Suc k"]) (auto simp: All_less_Suc2)
    qed
  next
    case skip
    from Cons.IH [of "Suc n" m t] Cons.prems
    consider (same) "pick_loop (Suc n) cs m t = t" "\<forall>d \<in> set cs. m \<le> d \<and> d \<noteq> 0"
      | (later) k where "k < length cs" "pick_loop (Suc n) cs m t = word_of_nat (Suc n + k)"
          "\<forall>d \<in> set cs. cs ! k \<le> d" "\<forall>j < k. cs ! k < cs ! j" "cs ! k = 0 \<or> cs ! k < m"
      by auto
    then show ?thesis
    proof cases
      case same
      with skip show ?thesis by simp
    next
      case later
      have "cs ! k < c" using later(5) Cons.prems skip by auto
      with later skip show ?thesis
        by (intro disjI2 exI [of _ "Suc k"]) (auto simp: All_less_Suc2)
    qed
  qed
qed simp

lemma pick_thread_spec:
  assumes "counts \<noteq> []" and "\<forall>c \<in> set counts. 0 \<le> c \<and> c < INT_MAX"
  obtains k where "k < length counts" and "pick_thread counts = word_of_nat k"
    and "\<forall>c \<in> set counts. counts ! k \<le> c" and "\<forall>j < k. counts ! k < counts ! j"
proof -
  have "\<exists>c \<in> set counts. \<not> INT_MAX \<le> c" using assms by (cases counts) auto
  then obtain k where "k < length counts" "pick_thread counts = word_of_nat k"
    "\<forall>c \<in> set counts. counts ! k \<le> c" "\<forall>j < k. counts ! k < counts ! j"
    using pick_loop_spec [of counts 0 INT_MAX UINT_MAX] assms(2) by (auto simp: pick_thread_def)
  then show ?thesis by (rule that)
qed

lemma bump_index:
  assumes "k < length counts" and "length counts < 2 ^ 32"
  shows "bump counts (word_of_nat k) = counts[k := counts ! k + 1]"
proof -
  have "unat (word_of_nat k mod word_of_nat (length counts) :: u32) = k"
    using assms by (simp add: unat_mod unat_of_nat)
  then show ?thesis by (simp add: bump_def)
qed

lemma assign_thread_new:
  assumes "sbc_thread sbc = UINT_MAX"
    and "get_previous_tid lenv toint fs (str_of (cfg_output_path cfg)) e = UINT_MAX"
    and "counts \<noteq> []" and "\<forall>c \<in> set counts. 0 \<le> c \<and> c < INT_MAX" and "length counts < 2 ^ 32"
  obtains k where "k < length counts" and "\<forall>c \<in> set counts. counts ! k \<le> c"
    and "assign_thread lenv toint cfg fs e sbc counts =
      (sbc\<lparr>sbc_thread := word_of_nat k\<rparr>, counts[k := counts ! k + 1])"
proof -
  obtain k where k: "k < length counts" "pick_thread counts = word_of_nat k" "\<forall>c \<in> set counts. counts ! k \<le> c"
    using pick_thread_spec [OF assms(3,4)] by metis
  then show ?thesis
    using assms(1,2) by (intro that [of k]) (simp_all add: assign_thread_def bump_index [OF _ assms(5)])
qed

text \<open>The spread of the plugin counts.\<close>

definition spread_at_most_one :: "int list \<Rightarrow> bool" where
  "spread_at_most_one counts \<longleftrightarrow> (\<forall>c \<in> set counts. \<forall>d \<in> set counts. c \<le> d + 1)"

lemma spread_bump_least:
  assumes "spread_at_most_one counts" and "k < length counts" and "\<forall>c \<in> set counts. counts ! k \<le> c"
  shows "spread_at_most_one (counts[k := counts ! k + 1])"
proof -
  have "c \<le> d + 1" if c: "c \<in> set (counts[k := counts ! k + 1])" and d: "d \<in> set (counts[k := counts ! k + 1])" for c d
  proof -
    have "c = counts ! k + 1 \<or> c \<in> set counts" "d = counts ! k + 1 \<or> d \<in> set counts"
      using c d set_update_subset_insert by fastforce+
    moreover have "counts ! k \<in> set counts" using assms(2) by simp
    ultimately show ?thesis using assms(1,3) unfolding spread_at_most_one_def by force
  qed
  then show ?thesis by (simp add: spread_at_most_one_def)
qed

lemma bump_sum: "k < length cs \<Longrightarrow> sum_list (cs[k := cs ! k + (1 :: int)]) = sum_list cs + 1"
proof (induction cs arbitrary: k)
  case (Cons c cs)
  then show ?case by (cases k) auto
qed simp

lemma sum_bounds_members:
  "\<forall>c \<in> set cs. 0 \<le> c \<Longrightarrow> c \<in> set cs \<Longrightarrow> (c :: int) \<le> sum_list cs"
  by (rule member_le_sum_list) auto

lemma startup_spread:
  assumes "\<forall>(e, sbc) \<in> set es. sbc_thread sbc = UINT_MAX \<and>
      get_previous_tid lenv toint fs (str_of (cfg_output_path cfg)) e = UINT_MAX"
    and "counts \<noteq> []" and "length counts < 2 ^ 32" and "\<forall>c \<in> set counts. 0 \<le> c"
    and "sum_list counts + int (length es) < INT_MAX" and "spread_at_most_one counts"
  shows "spread_at_most_one (fold (\<lambda>(e, sbc) c. snd (assign_thread lenv toint cfg fs e sbc c)) es counts) \<and>
    sum_list (fold (\<lambda>(e, sbc) c. snd (assign_thread lenv toint cfg fs e sbc c)) es counts) =
      sum_list counts + int (length es)"
  using assms
proof (induction es arbitrary: counts)
  case (Cons x es)
  obtain e sbc where x: "x = (e, sbc)" by fastforce
  have lt: "\<forall>c \<in> set counts. 0 \<le> c \<and> c < INT_MAX"
    using Cons.prems(4,5) sum_bounds_members [OF Cons.prems(4)] by fastforce
  obtain k where k: "k < length counts" "\<forall>c \<in> set counts. counts ! k \<le> c"
    "assign_thread lenv toint cfg fs e sbc counts = (sbc\<lparr>sbc_thread := word_of_nat k\<rparr>, counts[k := counts ! k + 1])"
    by (rule assign_thread_new [of sbc lenv toint fs cfg e counts])
      (use Cons.prems(1,2,3) lt x in auto)
  let ?c = "counts[k := counts ! k + 1]"
  have "\<forall>c \<in> set ?c. 0 \<le> c"
    using Cons.prems(4) k(1) nth_mem [OF k(1)] set_update_subset_insert [of counts k "counts ! k + 1"] by fastforce
  moreover have "?c \<noteq> []" "length ?c < 2 ^ 32" using Cons.prems(2,3) by auto
  moreover have "sum_list ?c + int (length es) < INT_MAX" using Cons.prems(5) bump_sum [OF k(1)] by simp
  moreover have "spread_at_most_one ?c" by (rule spread_bump_least [OF Cons.prems(6) k(1,2)])
  moreover have "\<forall>(e, sbc) \<in> set es. sbc_thread sbc = UINT_MAX \<and>
      get_previous_tid lenv toint fs (str_of (cfg_output_path cfg)) e = UINT_MAX"
    using Cons.prems(1) by simp
  ultimately show ?case using Cons.IH [of ?c] bump_sum [OF k(1)] k(3) x by simp
qed simp

section \<open>Properties\<close>

text \<open>C34: a plugin loaded at run time without a thread gets the first of the least loaded threads, by
  utilization and then by the number of plugins, and is turned away exactly when an
  \<open>analysis_utilization_limit\<close> is set and even that thread has reached it.\<close>

theorem least_used_thread_spec:
  assumes "aps_list aps \<noteq> []" and "\<forall>th \<in> set (aps_list aps). at_list_cnt th < INT_MAX"
  shows "\<exists>i < length (aps_list aps).
    (\<forall>th \<in> set (aps_list aps). \<not> lighter (thread_load th) (thread_load (aps_list aps ! i))) \<and>
    (\<forall>j < i. lighter (thread_load (aps_list aps ! i)) (thread_load (aps_list aps ! j))) \<and>
    least_used_thread_id cfg aps =
      (if cfg_analysis_utilization_limit cfg \<noteq> 0 \<and>
          cfg_analysis_utilization_limit cfg \<le> at_utilization (aps_list aps ! i) then UINT_MAX else word_of_nat i)"
  by (rule least_used_spec [OF assms]) blast

definition sample_threads :: "(u8 \<times> int) list \<Rightarrow> hs_analysis_plugins" where
  "sample_threads us =
     \<lparr>aps_list = map (\<lambda>(u, c). sample_thread\<lparr>at_utilization := u, at_list_cnt := c\<rparr>) us,
      aps_cpr = \<lparr>cpr_values = []\<rparr>, aps_output = fst (snd sample_queue)\<rparr>"

theorem least_used_thread_spec_witness:
  "\<exists>i < 3. least_used_thread_id ((init_config 1)\<lparr>cfg_analysis_utilization_limit := 80\<rparr>)
     (sample_threads [(90, 2), (10, 3), (10, 1)]) = word_of_nat i"
proof -
  let ?aps = "sample_threads [(90, 2), (10, 3), (10, 1)]" and ?cfg = "(init_config 1)\<lparr>cfg_analysis_utilization_limit := 80\<rparr>"
  have "aps_list ?aps \<noteq> []" "\<forall>th \<in> set (aps_list ?aps). at_list_cnt th < INT_MAX" "length (aps_list ?aps) = 3"
    "least_used_thread_id ?cfg ?aps \<noteq> UINT_MAX"
    by code_simp+
  then show ?thesis using least_used_thread_spec [of ?aps ?cfg] by (auto split: if_splits)
qed

text \<open>The plugins without a thread of their own are spread evenly at startup: with the threads' counts
  at most one apart, as they are at the start, they stay at most one apart however many new
  plugins are placed, and every plugin is counted once.\<close>

theorem startup_spreads_plugins:
  assumes "\<forall>(e, sbc) \<in> set es. sbc_thread sbc = UINT_MAX \<and>
      get_previous_tid lenv toint fs (str_of (cfg_output_path cfg)) e = UINT_MAX"
    and "counts \<noteq> []" and "length counts < 2 ^ 32" and "\<forall>c \<in> set counts. 0 \<le> c"
    and "sum_list counts + int (length es) < INT_MAX" and "spread_at_most_one counts"
  shows "spread_at_most_one (fold (\<lambda>(e, sbc) c. snd (assign_thread lenv toint cfg fs e sbc c)) es counts) \<and>
    sum_list (fold (\<lambda>(e, sbc) c. snd (assign_thread lenv toint cfg fs e sbc c)) es counts) =
      sum_list counts + int (length es)"
  by (rule startup_spread [OF assms])

definition no_lua :: lua_env where
  "no_lua = \<lparr>lua_read_file = fs_get, lua_run = \<lambda>_. Inl ''error'', lua_num_str = \<lambda>_. [], lua_stamp = []\<rparr>"

theorem startup_spreads_plugins_witness:
  "spread_at_most_one (fold (\<lambda>(e, sbc) c. snd (assign_thread no_lua (\<lambda>_. 0) (init_config 2) (queue_files []) e sbc c))
     [(''a.cfg'', init_sandbox_config), (''b.cfg'', init_sandbox_config), (''c.cfg'', init_sandbox_config)] [0, 0])"
proof -
  let ?es = "[(''a.cfg'', init_sandbox_config), (''b.cfg'', init_sandbox_config), (''c.cfg'', init_sandbox_config)]"
  have "\<forall>(e, sbc) \<in> set ?es. sbc_thread sbc = UINT_MAX \<and>
      get_previous_tid no_lua (\<lambda>_. 0) (queue_files []) (str_of (cfg_output_path (init_config 2))) e = UINT_MAX"
    by code_simp
  moreover have "spread_at_most_one [0, 0]" by (simp add: spread_at_most_one_def)
  ultimately show ?thesis
    using startup_spreads_plugins [of ?es no_lua "\<lambda>_. 0" "queue_files []" "init_config 2" "[0, 0]"]
    by (simp add: INT_MAX_def del: fold_simps)
qed

text \<open>A configuration that pins a plugin to a thread is refused when it arrives at run time and the plugin
  has never run: without a run-time configuration to compare with, the check that a plugin stays
  on its thread takes the missing thread for a different one and deletes the file.\<close>

theorem pinned_plugin_refused:
  assumes "hs_has_ext name hs_cfg_ext"
    and "get_tid (sl_lua lib) toint fs (str_of (cfg_load_path_analysis cfg)) name = t" and "t \<noteq> UINT_MAX"
    and "ext_exists fs (str_of (cfg_run_path_analysis cfg)) name hs_off_ext = Inr False"
    and "ext_exists fs (str_of (cfg_run_path_analysis cfg)) name hs_err_ext = Inr False"
    and "get_previous_tid (sl_lua lib) toint fs (str_of (cfg_output_path cfg)) name = UINT_MAX"
    and "hs_get_fqfn (str_of (cfg_load_path_analysis cfg)) name HS_MAX_PATH = Some path"
    and "path \<notin> set (fs_denied fs)"
  shows "\<exists>fs'. hs_load_analysis_dynamic lib toint cfg name fs aps = Inr (fs', aps) \<and>
    fs_get fs' = (fs_get fs)(path := None)"
proof -
  let ?l = "str_of (cfg_load_path_analysis cfg)"
  have n: "\<not> hs_has_ext name hs_lua_ext" using assms(1) by (auto simp: hs_has_ext_iff)
  have "get_thread_id (sl_lua lib) toint cfg fs name = Inr (False, t, snd (hs_remove_file fs ?l name))"
    using assms(1-6) by (simp add: get_thread_id_def cfg_thread_id_def Let_def)
  then have r: "hs_load_analysis_dynamic lib toint cfg name fs aps =
      Inr (snd (hs_remove_file (snd (hs_remove_file fs ?l name)) ?l name), aps)"
    using n by (simp add: hs_load_analysis_dynamic_def Let_def)
  have "fs_get (snd (hs_remove_file (snd (hs_remove_file fs ?l name)) ?l name)) = (fs_get fs)(path := None)"
    using assms(7,8) by (simp add: hs_remove_file_def unlink_def fun_eq_iff split: option.split)
  with r show ?thesis by blast
qed

definition pinning_lua :: lua_env where
  "pinning_lua = \<lparr>lua_read_file = fs_get,
     lua_run = \<lambda>_. Inr \<lparr>ls_stack = [], ls_globals = [(LString ''thread'', LNumber (Fin 1))], ls_tables = []\<rparr>,
     lua_num_str = \<lambda>_. [], lua_stamp = []\<rparr>"

definition pinning_lib :: sandbox_lib where
  "pinning_lib = \<lparr>sl_lua = pinning_lua, sl_matcher_ok = \<lambda>_. True, sl_emit = \<lambda>n s. (s, True),
     sl_create = \<lambda>t fs l s x. (True, fs), sl_init_ib = \<lambda>n. hsi_ib null_input, sl_log_level = 6, sl_now = 0, sl_rnd = 0\<rparr>"

definition pinning_cfg :: hs_config where
  "pinning_cfg = (init_config 2)\<lparr>cfg_load_path_analysis := Some ''l'', cfg_run_path_analysis := Some ''r'', cfg_output_path := Some ''o''\<rparr>"

theorem pinned_plugin_refused_witness:
  "\<exists>fs'. hs_load_analysis_dynamic pinning_lib (\<lambda>_. 1) pinning_cfg ''a.cfg''
      (queue_files [(''l/a.cfg'', ''thread = 1'')]) (sample_threads [(0, 0), (0, 0)]) =
    Inr (fs', sample_threads [(0, 0), (0, 0)]) \<and> fs_get fs' ''l/a.cfg'' = None"
proof -
  let ?fs = "queue_files [(''l/a.cfg'', ''thread = 1'')]"
  have h: "hs_has_ext ''a.cfg'' hs_cfg_ext"
    "get_tid (sl_lua pinning_lib) (\<lambda>_. 1) ?fs (str_of (cfg_load_path_analysis pinning_cfg)) ''a.cfg'' = 1"
    "(1 :: u32) \<noteq> UINT_MAX"
    "ext_exists ?fs (str_of (cfg_run_path_analysis pinning_cfg)) ''a.cfg'' hs_off_ext = Inr False"
    "ext_exists ?fs (str_of (cfg_run_path_analysis pinning_cfg)) ''a.cfg'' hs_err_ext = Inr False"
    "get_previous_tid (sl_lua pinning_lib) (\<lambda>_. 1) ?fs (str_of (cfg_output_path pinning_cfg)) ''a.cfg'' = UINT_MAX"
    "hs_get_fqfn (str_of (cfg_load_path_analysis pinning_cfg)) ''a.cfg'' HS_MAX_PATH = Some ''l/a.cfg''"
    "''l/a.cfg'' \<notin> set (fs_denied ?fs)"
    by code_simp+
  from pinned_plugin_refused [OF this, of "sample_threads [(0, 0), (0, 0)]"] show ?thesis by auto
qed

end
