(* ===== verification/HS_Output_Plugins.thy ===== *)
theory HS_Output_Plugins
  imports HS_Output_Thread HS_Sandbox HS_Slots
begin

text \<open>
  The list of output plugins (\<open>src/hs_output_plugins.c\<close>): creating a plugin, starting its thread
  at its saved positions, stopping it, what its thread does at its end, and the loading of
  configurations at startup and at run time.

  A list slot holds the whole state of a plugin's thread. Joining a thread is running it: the
  turns it still takes are a list of environments, and the result is \<open>None\<close> when it has not
  returned after them. The sandbox library's calls are parameters collected in \<open>sandbox_lib\<close>.
\<close>

section \<open>State\<close>

record 'm thread_lib =
  tl_scan :: "lsb_input_buffer \<Rightarrow> 'm option \<times> lsb_input_buffer"
  tl_expand :: "lsb_input_buffer \<Rightarrow> u64 \<Rightarrow> lsb_input_buffer option"
  tl_ts :: "'m \<Rightarrow> int"
  tl_fmt_f :: "nat \<Rightarrow> string"

record 'm hs_output_plugins =
  ops_list :: "'m op_thread option list"
  ops_cpr :: hs_checkpoint_reader
  ops_list_cnt :: int

definition hs_init_output_plugins :: "hs_checkpoint_reader \<Rightarrow> 'm hs_output_plugins" where
  "hs_init_output_plugins cpr = \<lparr>ops_list = [], ops_cpr = cpr, ops_list_cnt = 0\<rparr>"

definition start_thread :: "hs_output_plugin \<Rightarrow> 'm op_thread" where
  "start_thread p =
     \<lparr>th_plugin = p, th_im = op_init_poll, th_am = op_init_poll, th_stop = False, th_sample = False\<rparr>"

text \<open>The name without its type prefix: \<open>p->name + tlen\<close>.\<close>

definition op_stem :: "'m op_thread \<Rightarrow> string" where
  "op_stem th = drop (length hs_output_dir + 1) (op_name (th_plugin th))"

section \<open>The end of a thread\<close>

text \<open>\<open>snprintf\<close> into \<open>HS_MAX_PATH\<close> bytes.\<close>

definition path_key :: "string \<Rightarrow> string" where
  "path_key s = take (HS_MAX_PATH - 1) s"

definition remove_checkpoint_q ::
    "hs_checkpoint_reader \<Rightarrow> string \<Rightarrow> char \<Rightarrow> hs_checkpoint_reader" where
  "remove_checkpoint_q cpr name q =
     (let c1 = (if reads_input q
                then hs_remove_checkpoint cpr (path_key (hs_input_dir @ ''->'' @ name)) else cpr)
      in if reads_analysis q
         then hs_remove_checkpoint c1 (path_key (hs_analysis_dir @ ''->'' @ name)) else c1)"

text \<open>\<open>shutdown_timer_event\<close>; the sandbox may acknowledge messages from it.\<close>

definition op_shutdown_timer :: "bool \<Rightarrow> u64 list \<Rightarrow> hs_output_plugin \<Rightarrow> hs_output_plugin" where
  "op_shutdown_timer running acks p = (if running then run_acks acks p else p)"

definition op_save_positions ::
    "(nat \<Rightarrow> string) \<Rightarrow> hs_output_plugin \<Rightarrow> hs_checkpoint_reader \<Rightarrow> hs_checkpoint_reader" where
  "op_save_positions fmt_f p cpr =
     (let c1 = (if reads_input (op_read_queue p)
                then hs_update_input_checkpoint fmt_f cpr hs_input_dir (Some (op_name p)) (cpp_input (op_cp p))
                else cpr)
      in if reads_analysis (op_read_queue p)
         then hs_update_input_checkpoint fmt_f c1 hs_analysis_dir (Some (op_name p)) (cpp_analysis (op_cp p))
         else c1)"

record exit_env =
  ex_running :: bool
  ex_acks :: "u64 list"
  ex_error :: "string option"
  ex_stamp :: string

text \<open>From the loop to \<open>if (stop)\<close>: the plugin after its last timer event and the table.\<close>

definition op_leave ::
    "(nat \<Rightarrow> string) \<Rightarrow> exit_env \<Rightarrow> 'm op_thread \<Rightarrow> hs_checkpoint_reader \<Rightarrow>
     hs_output_plugin \<times> hs_checkpoint_reader" where
  "op_leave fmt_f ex th cpr =
     (let p = op_shutdown_timer (ex_running ex) (ex_acks ex) (th_plugin th)
      in (p, op_save_positions fmt_f p cpr))"

text \<open>
  The end of a thread that was not asked to stop: its error is saved, it frees its slot and
  itself; the last component says whether it asks the whole process to stop.
\<close>

definition op_detach ::
    "(nat \<Rightarrow> string) \<Rightarrow> string option \<Rightarrow> exit_env \<Rightarrow> nat \<Rightarrow> 'm op_thread \<Rightarrow> fsys \<Rightarrow>
     'm hs_output_plugins \<Rightarrow> fsys \<times> 'm hs_output_plugins \<times> bool" where
  "op_detach fmt_f run_path ex i th fs ops =
     (let (p, c1) = op_leave fmt_f ex th (ops_cpr ops);
          fs1 = hs_save_termination_err fs (ex_stamp ex) run_path (Some (op_name p)) (ex_error ex);
          c2 = (if op_rm_cp_terminate p then remove_checkpoint_q c1 (op_name p) (op_read_queue p) else c1)
      in (fs1,
          ops\<lparr>ops_list := (ops_list ops)[i := None], ops_cpr := c2, ops_list_cnt := ops_list_cnt ops - 1\<rparr>,
          op_shutdown_terminate p))"

section \<open>Running and joining a thread\<close>

text \<open>The loop of \<open>input_thread\<close>; a fatal turn ends it whatever \<open>stop\<close> is.\<close>

fun op_run ::
    "'m thread_lib \<Rightarrow> hs_config \<Rightarrow> hs_checkpoint_reader \<Rightarrow> turn_env list \<Rightarrow> 'm op_thread \<Rightarrow>
     hs_exit + 'm op_thread option" where
  "op_run lib cfg cpr [] th = Inr (if th_stop th then Some th else None)"
| "op_run lib cfg cpr (e # es) th =
     (if th_stop th then Inr (Some th)
      else case op_turn (tl_scan lib) (tl_expand lib) (tl_ts lib) cfg e cpr th of
        Inl x \<Rightarrow> Inl x
      | Inr (Turn_fatal, th') \<Rightarrow> Inr (Some th')
      | Inr (Turn_retrying, th') \<Rightarrow> Inr None
      | Inr (Turn_done, th') \<Rightarrow> op_run lib cfg cpr es th')"

record join_env =
  je_mid :: "turn_env option"  \<comment> \<open>the turn under way when the joiner took the list's lock\<close>
  je_turns :: "turn_env list"
  je_exit :: exit_env

text \<open>
  \<open>pthread_join\<close> by a caller that holds the list's lock; \<open>stop\<close> is the flag the thread finds
  once the turn under way, which has not seen it, is over. A thread that ends fatally without
  having seen the flag waits for the lock its joiner holds, so the call never returns.
\<close>

definition with_stop :: "bool \<Rightarrow> 'm op_thread \<Rightarrow> 'm op_thread" where
  "with_stop b th = th\<lparr>th_plugin := (th_plugin th)\<lparr>op_stop := b\<rparr>\<rparr>"

definition op_finish ::
    "'m thread_lib \<Rightarrow> hs_config \<Rightarrow> join_env \<Rightarrow> 'm op_thread \<Rightarrow> hs_checkpoint_reader \<Rightarrow>
     hs_exit + ('m op_thread \<times> hs_checkpoint_reader) option" where
  "op_finish lib cfg je th cpr =
     (case op_run lib cfg cpr (je_turns je) th of
        Inl x \<Rightarrow> Inl x
      | Inr None \<Rightarrow> Inr None
      | Inr (Some th') \<Rightarrow>
          if th_stop th' then
            (case op_leave (tl_fmt_f lib) (je_exit je) th' cpr of
               (p, cpr') \<Rightarrow> Inr (Some (th'\<lparr>th_plugin := p\<rparr>, cpr')))
          else Inr None)"

definition op_join ::
    "'m thread_lib \<Rightarrow> hs_config \<Rightarrow> join_env \<Rightarrow> bool \<Rightarrow> 'm op_thread \<Rightarrow> hs_checkpoint_reader \<Rightarrow>
     hs_exit + ('m op_thread \<times> hs_checkpoint_reader) option" where
  "op_join lib cfg je stop th cpr =
     (case (case je_mid je of
              None \<Rightarrow> Inr (Turn_done, th)
            | Some e \<Rightarrow> op_turn (tl_scan lib) (tl_expand lib) (tl_ts lib) cfg e cpr (with_stop False th)) of
        Inl x \<Rightarrow> Inl x
      | Inr (Turn_done, th1) \<Rightarrow> op_finish lib cfg je (with_stop stop th1) cpr
      | Inr (_, _) \<Rightarrow> Inr None)"

definition remove_plugin ::
    "'m thread_lib \<Rightarrow> hs_config \<Rightarrow> join_env \<Rightarrow> nat \<Rightarrow> 'm hs_output_plugins \<Rightarrow>
     hs_exit + 'm hs_output_plugins option" where
  "remove_plugin lib cfg je i ops =
     (case ops_list ops ! i of
        None \<Rightarrow> Inl Undefined_behaviour
      | Some th \<Rightarrow>
          (case op_join lib cfg je True th (ops_cpr ops) of
             Inl x \<Rightarrow> Inl x
           | Inr None \<Rightarrow> Inr None
           | Inr (Some (_, cpr')) \<Rightarrow>
               Inr (Some (ops\<lparr>ops_list := (ops_list ops)[i := None], ops_cpr := cpr',
                              ops_list_cnt := ops_list_cnt ops - 1\<rparr>))))"

definition remove_from_output_plugins ::
    "'m thread_lib \<Rightarrow> hs_config \<Rightarrow> join_env \<Rightarrow> string \<Rightarrow> 'm hs_output_plugins \<Rightarrow>
     hs_exit + (bool \<times> 'm hs_output_plugins) option" where
  "remove_from_output_plugins lib cfg je name ops =
     (case find_plugin op_stem name (ops_list ops) of
        None \<Rightarrow> Inr (Some (False, ops))
      | Some i \<Rightarrow>
          (case remove_plugin lib cfg je i ops of
             Inl x \<Rightarrow> Inl x
           | Inr None \<Rightarrow> Inr None
           | Inr (Some ops') \<Rightarrow> Inr (Some (True, ops'))))"

section \<open>Starting a plugin\<close>

text \<open>The read and the saved position of one queue, looked up in the table.\<close>

definition op_sync_input ::
    "fsys \<Rightarrow> string option \<Rightarrow> hs_output_plugin \<Rightarrow> hs_checkpoint_reader \<Rightarrow>
     hs_exit + (hs_output_plugin \<times> hs_checkpoint_reader)" where
  "op_sync_input fs path p cpr =
     (if reads_input (op_read_queue p) then
        (case hs_lookup_input_checkpoint fs cpr hs_input_dir (Some (op_name p)) path (hsi_cp (op_input p)) of
           Inl e \<Rightarrow> Inl e
         | Inr cp \<Rightarrow>
             Inr (p\<lparr>op_input := (op_input p)\<lparr>hsi_cp := cp\<rparr>,
                    op_cp := (op_cp p)\<lparr>cpp_input := cp\<rparr>,
                    op_cur := (op_cur p)\<lparr>cpp_input := cp\<rparr>\<rparr>, cpr))
      else Inr (p, remove_checkpoint_q cpr (op_name p) (CHR ''i'')))"

definition op_sync_analysis ::
    "fsys \<Rightarrow> string option \<Rightarrow> hs_output_plugin \<Rightarrow> hs_checkpoint_reader \<Rightarrow>
     hs_exit + (hs_output_plugin \<times> hs_checkpoint_reader)" where
  "op_sync_analysis fs path p cpr =
     (if reads_analysis (op_read_queue p) then
        (case hs_lookup_input_checkpoint fs cpr hs_analysis_dir (Some (op_name p)) path (hsi_cp (op_analysis p)) of
           Inl e \<Rightarrow> Inl e
         | Inr cp \<Rightarrow>
             Inr (p\<lparr>op_analysis := (op_analysis p)\<lparr>hsi_cp := cp\<rparr>,
                    op_cp := (op_cp p)\<lparr>cpp_analysis := cp\<rparr>,
                    op_cur := (op_cur p)\<lparr>cpp_analysis := cp\<rparr>\<rparr>, cpr))
      else Inr (p, remove_checkpoint_q cpr (op_name p) (CHR ''a'')))"

definition op_sync ::
    "fsys \<Rightarrow> string option \<Rightarrow> hs_output_plugin \<Rightarrow> hs_checkpoint_reader \<Rightarrow>
     hs_exit + (hs_output_plugin \<times> hs_checkpoint_reader)" where
  "op_sync fs path p cpr =
     (case op_sync_input fs path p cpr of
        Inl e \<Rightarrow> Inl e
      | Inr (p1, cpr1) \<Rightarrow> op_sync_analysis fs path p1 cpr1)"

definition add_to_output_plugins ::
    "fsys \<Rightarrow> hs_config \<Rightarrow> hs_output_plugin \<Rightarrow> bool \<Rightarrow> 'm hs_output_plugins \<Rightarrow>
     hs_exit + 'm hs_output_plugins" where
  "add_to_output_plugins fs cfg p dynamic ops =
     (let p1 = p\<lparr>op_list_index := int (free_slot (ops_list ops))\<rparr>;
          path = (if dynamic then None else cfg_output_path cfg)
      in case op_sync fs path p1 (ops_cpr ops) of
           Inl e \<Rightarrow> Inl e
         | Inr (p2, cpr2) \<Rightarrow>
             Inr (ops\<lparr>ops_list := slot_add (start_thread p2) (ops_list ops), ops_cpr := cpr2,
                      ops_list_cnt := ops_list_cnt ops + 1\<rparr>))"

section \<open>Creating a plugin\<close>

definition create_output_plugin ::
    "sandbox_lib \<Rightarrow> fsys \<Rightarrow> hs_config \<Rightarrow> hs_sandbox_config \<Rightarrow> hs_exit + (hs_output_plugin option \<times> fsys)" where
  "create_output_plugin lib fs cfg sbc =
     (case prepare_sandbox lib (CHR ''o'') hs_output_dir fs cfg sbc of
        Inl e \<Rightarrow> Inl e
      | Inr (None, fs') \<Rightarrow> Inr (None, fs')
      | Inr (Some lua_file, fs') \<Rightarrow>
          Inr (Some (init_output_plugin sbc lua_file (sl_now lib) (sl_rnd lib) null_input null_input), fs'))"

section \<open>Loading configurations\<close>

text \<open>
  One configuration of the run directory, at startup and at run time; the flags say whether the
  plugin runs and what its \<open>remove_checkpoints_on_terminate\<close> is.
\<close>

definition load_output_plugin ::
    "sandbox_lib \<Rightarrow> fsys \<Rightarrow> hs_config \<Rightarrow> string \<Rightarrow> string \<Rightarrow> bool \<Rightarrow> 'm hs_output_plugins \<Rightarrow>
     hs_exit + (fsys \<times> 'm hs_output_plugins \<times> bool \<times> bool)" where
  "load_output_plugin lib fs cfg dir fn dynamic ops =
     (case hs_load_sandbox_config (sl_lua lib) fs dir fn (cfg_opd cfg) (CHR ''o'') of
        Inl e \<Rightarrow> Inl e
      | Inr (fs1, None) \<Rightarrow> Inr (fs1, ops, False, False)
      | Inr (fs1, Some sbc) \<Rightarrow>
          (case create_output_plugin lib fs1 cfg sbc of
             Inl e \<Rightarrow> Inl e
           | Inr (None, fs2) \<Rightarrow> Inr (fs2, ops, False, sbc_rm_cp_terminate sbc)
           | Inr (Some p, fs2) \<Rightarrow>
               (case hs_init_input (sl_init_ib lib) (ucast (cfg_max_message_size cfg))
                       (str_of (cfg_output_path cfg)) (op_name p) of
                  Inl e \<Rightarrow> Inl e
                | Inr hsi \<Rightarrow>
                    (case add_to_output_plugins fs2 cfg (p\<lparr>op_input := hsi, op_analysis := hsi\<rparr>) dynamic ops of
                       Inl e \<Rightarrow> Inl e
                     | Inr ops' \<Rightarrow> Inr (fs2, ops', True, sbc_rm_cp_terminate sbc)))))"

fun load_output_entries ::
    "sandbox_lib \<Rightarrow> hs_config \<Rightarrow> string \<Rightarrow> string list \<Rightarrow> fsys \<Rightarrow> 'm hs_output_plugins \<Rightarrow>
     hs_exit + (fsys \<times> 'm hs_output_plugins)" where
  "load_output_entries lib cfg dir [] fs ops = Inr (fs, ops)"
| "load_output_entries lib cfg dir (e # es) fs ops =
     (case load_output_plugin lib fs cfg dir e False ops of
        Inl x \<Rightarrow> Inl x
      | Inr (fs', ops', _, _) \<Rightarrow> load_output_entries lib cfg dir es fs' ops')"

definition hs_load_output_startup ::
    "sandbox_lib \<Rightarrow> hs_config \<Rightarrow> fsys \<Rightarrow> 'm hs_output_plugins \<Rightarrow>
     hs_exit + (fsys \<times> 'm hs_output_plugins)" where
  "hs_load_output_startup lib cfg fs ops =
     (let dir = str_of (cfg_run_path_output cfg); fs1 = hs_prune_err fs dir
      in case readdir fs1 dir of
           None \<Rightarrow> Inl No_such_directory
         | Some es \<Rightarrow> load_output_entries lib cfg dir es fs1 ops)"

definition remove_checkpoints :: "hs_checkpoint_reader \<Rightarrow> string \<Rightarrow> hs_checkpoint_reader" where
  "remove_checkpoints cpr filename =
     (let n = hs_output_dir @ ''.'' @ take (length filename - HS_EXT_LEN) filename
      in hs_remove_checkpoint (hs_remove_checkpoint cpr (path_key (hs_input_dir @ ''->'' @ n)))
           (path_key (hs_analysis_dir @ ''->'' @ n)))"

definition forget_checkpoints :: "string \<Rightarrow> 'm hs_output_plugins \<Rightarrow> 'm hs_output_plugins" where
  "forget_checkpoints filename ops = ops\<lparr>ops_cpr := remove_checkpoints (ops_cpr ops) filename\<rparr>"

definition reload_output ::
    "sandbox_lib \<Rightarrow> 'm thread_lib \<Rightarrow> hs_config \<Rightarrow> join_env \<Rightarrow> string \<Rightarrow> fsys \<Rightarrow> 'm hs_output_plugins \<Rightarrow>
     hs_exit + (fsys \<times> 'm hs_output_plugins) option" where
  "reload_output lib tlib cfg je filename fs ops =
     (case remove_from_output_plugins tlib cfg je filename ops of
        Inl x \<Rightarrow> Inl x
      | Inr None \<Rightarrow> Inr None
      | Inr (Some (removed, ops1)) \<Rightarrow>
          (case load_output_plugin lib fs cfg (str_of (cfg_run_path_output cfg)) filename True ops1 of
             Inl x \<Rightarrow> Inl x
           | Inr (fs2, ops2, loaded, rm_cp) \<Rightarrow>
               Inr (Some (fs2, if removed \<and> \<not> loaded \<and> rm_cp
                               then forget_checkpoints filename ops2 else ops2))))"

definition hs_load_output_dynamic ::
    "sandbox_lib \<Rightarrow> 'm thread_lib \<Rightarrow> hs_config \<Rightarrow> join_env \<Rightarrow> string \<Rightarrow> fsys \<Rightarrow> 'm hs_output_plugins \<Rightarrow>
     hs_exit + (fsys \<times> 'm hs_output_plugins) option" where
  "hs_load_output_dynamic lib tlib cfg je filename fs ops =
     (let lpath = str_of (cfg_load_path_output cfg); rpath = str_of (cfg_run_path_output cfg) in
      if hs_has_ext filename hs_lua_ext then
        (case process_lua_files fs lpath rpath filename
                (map (\<lambda>th. (op_lua_file (th_plugin th), op_stem th)) (occupied (ops_list ops))) of
           Inl x \<Rightarrow> Inl x
         | Inr fs' \<Rightarrow> Inr (Some (fs', ops)))
      else
        (case hs_process_load_cfg fs lpath rpath filename of
           Inl x \<Rightarrow> Inl x
         | Inr (code, fs1) \<Rightarrow>
             if code = 0 then
               (case remove_from_output_plugins tlib cfg je filename ops of
                  Inl x \<Rightarrow> Inl x
                | Inr None \<Rightarrow> Inr None
                | Inr (Some (removed, ops1)) \<Rightarrow>
                    Inr (Some (fs1, if removed then forget_checkpoints filename ops1 else ops1)))
             else if code = 1 then reload_output lib tlib cfg je filename fs1 ops
             else Inr (Some (fs1, ops))))"

section \<open>Shutdown\<close>

definition hs_stop_output_plugins :: "'m hs_output_plugins \<Rightarrow> 'm hs_output_plugins" where
  "hs_stop_output_plugins ops = ops\<lparr>ops_list := map (map_option (with_stop True)) (ops_list ops)\<rparr>"

text \<open>One environment per slot; the list's lock is held throughout.\<close>

fun join_slots ::
    "'m thread_lib \<Rightarrow> hs_config \<Rightarrow> join_env list \<Rightarrow> 'm op_thread option list \<Rightarrow> hs_checkpoint_reader \<Rightarrow>
     hs_exit + (int \<times> hs_checkpoint_reader) option" where
  "join_slots lib cfg (je # jes) (Some th # xs) cpr =
     (case op_join lib cfg je (op_stop (th_plugin th)) th cpr of
        Inl x \<Rightarrow> Inl x
      | Inr None \<Rightarrow> Inr None
      | Inr (Some (_, cpr')) \<Rightarrow>
          (case join_slots lib cfg jes xs cpr' of
             Inl x \<Rightarrow> Inl x
           | Inr None \<Rightarrow> Inr None
           | Inr (Some (n, c)) \<Rightarrow> Inr (Some (n + 1, c))))"
| "join_slots lib cfg jes (None # xs) cpr = join_slots lib cfg jes xs cpr"
| "join_slots lib cfg jes [] cpr = Inr (Some (0, cpr))"
| "join_slots lib cfg [] (Some th # xs) cpr = Inr None"

definition hs_wait_output_plugins ::
    "'m thread_lib \<Rightarrow> hs_config \<Rightarrow> join_env list \<Rightarrow> 'm hs_output_plugins \<Rightarrow>
     hs_exit + 'm hs_output_plugins option" where
  "hs_wait_output_plugins lib cfg jes ops =
     (case join_slots lib cfg jes (ops_list ops) (ops_cpr ops) of
        Inl x \<Rightarrow> Inl x
      | Inr None \<Rightarrow> Inr None
      | Inr (Some (n, cpr)) \<Rightarrow>
          Inr (Some (ops\<lparr>ops_list := map (\<lambda>_. None) (ops_list ops), ops_cpr := cpr,
                         ops_list_cnt := ops_list_cnt ops - n\<rparr>)))"

definition hs_free_output_plugins :: "'m hs_output_plugins \<Rightarrow> 'm hs_output_plugins" where
  "hs_free_output_plugins ops = ops\<lparr>ops_list := [], ops_list_cnt := 0\<rparr>"

section \<open>What a turn leaves alone\<close>

definition op_fixed :: "hs_output_plugin \<Rightarrow> string \<times> char \<times> bool \<times> string \<times> int" where
  "op_fixed p = (op_name p, op_read_queue p, op_stop p, op_lua_file p, op_list_index p)"

lemma callback_fixed [simp]: "op_fixed (update_checkpoint_callback p s) = op_fixed p"
  by (simp add: op_fixed_def update_checkpoint_callback_def op_update_checkpoint_def Let_def
      split: bool.split option.split)

lemma run_acks_fixed [simp]: "op_fixed (run_acks acks p) = op_fixed p"
  by (induction acks arbitrary: p) (simp_all add: run_acks_def)

lemma op_fixed_upd [simp]:
  "op_fixed (p\<lparr>op_sample := b\<rparr>) = op_fixed p" "op_fixed (p\<lparr>op_pm_sample := b\<rparr>) = op_fixed p"
  "op_fixed (p\<lparr>op_ticker_expires := t\<rparr>) = op_fixed p" "op_fixed (p\<lparr>op_cp := c\<rparr>) = op_fixed p"
  "op_fixed (p\<lparr>op_cur := c\<rparr>) = op_fixed p" "op_fixed (p\<lparr>op_batching := b\<rparr>) = op_fixed p"
  "op_fixed (p\<lparr>op_running := b\<rparr>) = op_fixed p" "op_fixed (p\<lparr>op_async_cp := a\<rparr>) = op_fixed p"
  "op_fixed (p\<lparr>op_pm_delta_cnt := i\<rparr>) = op_fixed p" "op_fixed (p\<lparr>op_sequence_id := i'\<rparr>) = op_fixed p"
  "op_fixed (p\<lparr>op_mm_delta_cnt := i\<rparr>) = op_fixed p"
  "op_fixed (p\<lparr>op_input := h\<rparr>) = op_fixed p" "op_fixed (p\<lparr>op_analysis := h\<rparr>) = op_fixed p"
  by (simp_all add: op_fixed_def)

lemma process_matched_fixed [simp]: "op_fixed (snd (process_matched env p)) = op_fixed p"
proof -
  have "op_fixed (store_async p) = op_fixed p" by (simp add: store_async_def)
  then show ?thesis by (simp add: process_matched_def Let_def split: pm_ret.split)
qed

lemma message_part_fixed [simp]: "op_fixed (snd (message_part p has_raw sample env)) = op_fixed p"
proof -
  have a: "op_fixed (advance_checkpoint r q) = op_fixed q" for r q
    by (simp add: advance_checkpoint_def op_update_checkpoint_def Let_def)
  show ?thesis by (simp add: message_part_def Let_def a case_prod_beta)
qed

lemma output_message_fixed: "output_message p has_raw sample t env = (r, p') \<Longrightarrow> op_fixed p' = op_fixed p"
proof (erule output_message_parts)
  fix r1 p1
  assume m: "message_part p has_raw sample env = (r1, p1)"
    and p': "p' = timer_part p1 r1 t env \<or> p' = (timer_part p1 r1 t env)\<lparr>op_sample := False\<rparr>"
  have "op_fixed p1 = op_fixed p" using message_part_fixed [of p has_raw sample env] m by simp
  moreover have "op_fixed (timer_part p1 r1 t env) = op_fixed p1" by (simp add: timer_part_def)
  ultimately show ?thesis using p' by auto
qed

lemma retry_loop_fixed:
  "retry_loop p es = Some (r, st, p') \<Longrightarrow> op_fixed p' = op_fixed p"
proof (induction p es rule: retry_loop.induct)
  case (2 p t e s es)
  obtain r1 q1 where o1: "output_message p True False t e = (r1, q1)" by fastforce
  with 2 output_message_fixed [OF o1] show ?case by (auto split: if_splits)
qed simp

lemma op_deliver_fixed:
  assumes "op_deliver env th = (e, th')"
  shows "op_fixed (th_plugin th') = op_fixed (th_plugin th) \<and>
    (th_stop th \<longrightarrow> th_stop th' \<and> e \<noteq> Turn_retrying)"
proof -
  obtain ret p where o: "output_message (th_plugin th) True (th_sample th) (te_time env) (te_message env) = (ret, p)"
    by fastforce
  note f = output_message_fixed [OF o]
  show ?thesis
  proof (cases "ret = PM_Retry \<and> \<not> th_stop th")
    case True
    show ?thesis
    proof (cases "retry_loop p (te_retries env)")
      case (Some rsp)
      obtain r2 st p2 where "rsp = (r2, st, p2)" by (cases rsp)
      with Some retry_loop_fixed [of p "te_retries env" r2 st p2] True assms o f show ?thesis
        by (auto simp: op_deliver_def)
    qed (use True assms o f in \<open>auto simp: op_deliver_def\<close>)
  qed (use assms o f in \<open>auto simp: op_deliver_def split: if_splits\<close>)
qed

lemma op_poll_input_fixed:
  "op_poll_input scan expand cfg env cpr th = Inr th' \<Longrightarrow>
   op_fixed (th_plugin th') = op_fixed (th_plugin th) \<and> th_stop th' = th_stop th"
  by (auto simp: op_poll_input_def op_reset_def op_fixed_def split: if_splits sum.splits option.splits)

lemma op_poll_analysis_fixed:
  "op_poll_analysis scan expand cfg env cpr th = Inr th' \<Longrightarrow>
   op_fixed (th_plugin th') = op_fixed (th_plugin th) \<and> th_stop th' = th_stop th"
  by (auto simp: op_poll_analysis_def op_reset_def op_fixed_def split: if_splits sum.splits option.splits)

text \<open>A turn that starts with the stop flag set is the last one and does not retry.\<close>

lemma op_turn_fixed:
  assumes "op_turn scan expand ts cfg env cpr th = Inr (e, th')"
  shows "op_fixed (th_plugin th') = op_fixed (th_plugin th) \<and>
    (op_stop (th_plugin th) \<longrightarrow> th_stop th' \<and> e \<noteq> Turn_retrying)"
proof -
  let ?th = "th\<lparr>th_stop := op_stop (th_plugin th), th_sample := op_sample (th_plugin th)\<rparr>"
  obtain th1 where 1: "op_poll_input scan expand cfg env cpr ?th = Inr th1"
    using assms by (auto simp: op_turn_def Let_def split: sum.splits)
  with assms obtain th2 where 2: "op_poll_analysis scan expand cfg env cpr th1 = Inr th2"
    by (auto simp: op_turn_def Let_def split: sum.splits)
  note f = op_poll_input_fixed [OF 1] op_poll_analysis_fixed [OF 2]
  show ?thesis
  proof (cases "op_pick ts (pl_msg (th_im th2)) (pl_msg (th_am th2))")
    case None
    obtain r q where "output_message (th_plugin th2) False (th_sample th2) (te_time env) (te_message env) = (r, q)"
      by fastforce
    with None assms 1 2 f output_message_fixed [OF this] show ?thesis
      by (auto simp: op_turn_def Let_def split: if_splits)
  next
    case (Some inp)
    have t: "op_fixed (th_plugin (op_take inp th2)) = op_fixed (th_plugin th2)"
      "th_stop (op_take inp th2) = th_stop th2"
      by (simp_all add: op_take_def Let_def op_fixed_def)
    have "op_deliver env (op_take inp th2) = (e, th')"
      using Some assms 1 2 by (auto simp: op_turn_def Let_def)
    from op_deliver_fixed [OF this] f t show ?thesis by auto
  qed
qed


section \<open>Joining a thread\<close>

lemma op_run_fixed:
  "op_run lib cfg cpr es th = Inr (Some th') \<Longrightarrow> op_fixed (th_plugin th') = op_fixed (th_plugin th)"
  by (induction lib cfg cpr es th rule: op_run.induct)
    (auto split: if_splits sum.splits turn_end.splits dest: op_turn_fixed)

lemma op_run_stop:
  assumes "op_stop (th_plugin th)" and "es \<noteq> []" and "op_run lib cfg cpr es th = Inr r"
  shows "\<exists>th'. r = Some th' \<and> th_stop th'"
proof (cases "th_stop th")
  case True
  then show ?thesis using assms by (cases es) auto
next
  case False
  obtain e es' where es: "es = e # es'" using assms(2) by (cases es) auto
  with False assms(3) obtain x th1 where
    t: "op_turn (tl_scan lib) (tl_expand lib) (tl_ts lib) cfg e cpr th = Inr (x, th1)"
    by (auto split: sum.splits)
  from op_turn_fixed [OF t] assms(1) have s: "th_stop th1" "x \<noteq> Turn_retrying" by auto
  have "op_run lib cfg cpr es' th1 = Inr (Some th1)" using s by (cases es') auto
  with s es False assms(3) t show ?thesis by (cases x) auto
qed

lemma with_stop_simps [simp]:
  "op_stop (th_plugin (with_stop b th)) = b" "op_name (th_plugin (with_stop b th)) = op_name (th_plugin th)"
  "op_read_queue (th_plugin (with_stop b th)) = op_read_queue (th_plugin th)"
  "op_cp (th_plugin (with_stop b th)) = op_cp (th_plugin th)"
  by (simp_all add: with_stop_def)

lemma op_finish_Some:
  assumes "op_finish lib cfg je th cpr = Inr (Some (th', cpr'))"
  shows "op_fixed (th_plugin th') = op_fixed (th_plugin th) \<and>
    cpr' = op_save_positions (tl_fmt_f lib) (th_plugin th') cpr"
proof -
  from assms obtain th2 where th2: "op_run lib cfg cpr (je_turns je) th = Inr (Some th2)"
    and l: "(th', cpr') = (th2\<lparr>th_plugin := fst (op_leave (tl_fmt_f lib) (je_exit je) th2 cpr)\<rparr>,
       snd (op_leave (tl_fmt_f lib) (je_exit je) th2 cpr))"
    by (auto simp: op_finish_def split: sum.splits option.splits if_splits prod.splits)
  have "op_fixed (op_shutdown_timer a b p) = op_fixed p" for a b p
    by (simp add: op_shutdown_timer_def)
  then show ?thesis using l op_run_fixed [OF th2] by (simp add: op_leave_def Let_def)
qed

lemma op_finish_returns:
  "op_stop (th_plugin th) \<Longrightarrow> je_turns je \<noteq> [] \<Longrightarrow> op_finish lib cfg je th cpr \<noteq> Inr None"
  using op_run_stop [of th "je_turns je" lib cfg cpr]
  by (auto simp: op_finish_def split: sum.split option.split prod.split)

lemma op_join_Some:
  assumes "op_join lib cfg je stop th cpr = Inr (Some (th', cpr'))"
  shows "op_name (th_plugin th') = op_name (th_plugin th) \<and>
    op_read_queue (th_plugin th') = op_read_queue (th_plugin th) \<and>
    cpr' = op_save_positions (tl_fmt_f lib) (th_plugin th') cpr"
proof (cases "je_mid je")
  case None
  with assms op_finish_Some [of lib cfg je "with_stop stop th" cpr th' cpr'] show ?thesis
    by (auto simp: op_join_def op_fixed_def)
next
  case (Some e)
  with assms obtain th1 where
    t: "op_turn (tl_scan lib) (tl_expand lib) (tl_ts lib) cfg e cpr (with_stop False th) = Inr (Turn_done, th1)"
    and f: "op_finish lib cfg je (with_stop stop th1) cpr = Inr (Some (th', cpr'))"
    by (auto simp: op_join_def split: sum.splits turn_end.splits)
  with op_turn_fixed [OF t] op_finish_Some [OF f] show ?thesis by (auto simp: op_fixed_def)
qed

text \<open>The joiner waits for ever exactly when the turn under way ends the thread by itself.\<close>

lemma op_join_blocks:
  assumes "je_turns je \<noteq> []"
  shows "op_join lib cfg je True th cpr = Inr None \<longleftrightarrow>
    (\<exists>e r th'. je_mid je = Some e \<and> r \<noteq> Turn_done \<and>
       op_turn (tl_scan lib) (tl_expand lib) (tl_ts lib) cfg e cpr (with_stop False th) = Inr (r, th'))"
  using op_finish_returns [OF _ assms, where lib = lib and cfg = cfg and cpr = cpr]
  by (cases "je_mid je") (auto simp: op_join_def split: sum.split turn_end.split)

section \<open>Saving and restoring positions\<close>

definition op_positions :: "hs_output_plugin \<Rightarrow> hs_checkpoint option \<times> hs_checkpoint option" where
  "op_positions p =
     (if reads_input (op_read_queue p) then Some (cpp_input (op_cp p)) else None,
      if reads_analysis (op_read_queue p) then Some (cpp_analysis (op_cp p)) else None)"

definition op_storable :: "hs_output_plugin \<Rightarrow> bool" where
  "op_storable p \<longleftrightarrow> printable_cp (cpp_input (op_cp p)) \<and> printable_cp (cpp_analysis (op_cp p))"

text \<open>A plugin started at run time, where the lookups cannot fail.\<close>

definition op_restore :: "hs_output_plugin \<Rightarrow> hs_checkpoint_reader \<Rightarrow> hs_output_plugin" where
  "op_restore q cpr =
     (case op_sync \<lparr>fs_files = [], fs_dirs = [], fs_denied = []\<rparr> None q cpr of Inl e \<Rightarrow> q | Inr (q', _) \<Rightarrow> q')"

definition op_same :: "hs_output_plugin \<Rightarrow> hs_output_plugin \<Rightarrow> bool" where
  "op_same q p \<longleftrightarrow> op_name q = op_name p \<and> op_read_queue q = op_read_queue p"

text \<open>The position a lookup at run time finds; without any entry the caller's value stays.\<close>

definition found_position :: "hs_checkpoint_reader \<Rightarrow> string \<Rightarrow> string \<Rightarrow> hs_checkpoint \<Rightarrow> hs_checkpoint" where
  "found_position cpr subdir name cp =
     (case load_position cpr (subdir @ ''->'' @ name) of
        Some c \<Rightarrow> c
      | None \<Rightarrow> (case load_position cpr subdir of Some c \<Rightarrow> c | None \<Rightarrow> cp))"

lemma lookup_dynamic:
  "hs_lookup_input_checkpoint fs cpr subdir (Some name) None cp = Inr (found_position cpr subdir name cp)"
  by (simp add: hs_lookup_input_checkpoint_def found_position_def load_position_def input_cp_key_def split: option.split)

lemma op_sync_dynamic:
  "\<exists>cpr'. op_sync fs None q cpr = Inr (op_restore q cpr, cpr')"
  by (auto simp: op_restore_def op_sync_def op_sync_input_def op_sync_analysis_def lookup_dynamic)

lemma reads_some: "reads_input c \<or> reads_analysis c"
  by (auto simp: reads_input_def reads_analysis_def)

lemma load_removed:
  "k \<noteq> l \<Longrightarrow> load_position (hs_remove_checkpoint cpr k) l = load_position cpr l"
  by (simp add: load_position_def hs_remove_checkpoint_def)

lemma path_key_prefix: "hd (path_key (x # s)) = x"
  by (simp add: path_key_def)

text \<open>Removing the entry of one queue does not touch the other queue's.\<close>

lemma found_position_other:
  "found_position (remove_checkpoint_q cpr name (CHR ''i'')) ''analysis'' n cp = found_position cpr ''analysis'' n cp"
proof -
  have "path_key (hs_input_dir @ ''->'' @ name) \<noteq> CHR ''a'' # s" for s
    using path_key_prefix [of "CHR ''i''" "''nput->'' @ name"] by auto
  moreover have "path_key (hs_input_dir @ ''->'' @ name) \<noteq> ''analysis''"
    using path_key_prefix [of "CHR ''i''" "''nput->'' @ name"] by auto
  ultimately show ?thesis
    by (simp add: found_position_def remove_checkpoint_q_def reads_input_def reads_analysis_def load_removed
        split: option.split)
qed

lemma op_restore_positions:
  "op_positions (op_restore q cpr) =
     (if reads_input (op_read_queue q)
      then Some (found_position cpr ''input'' (op_name q) (hsi_cp (op_input q))) else None,
      if reads_analysis (op_read_queue q)
      then Some (found_position cpr ''analysis'' (op_name q) (hsi_cp (op_analysis q))) else None)"
  by (auto simp: op_positions_def op_restore_def op_sync_def op_sync_input_def op_sync_analysis_def
      lookup_dynamic found_position_other)

lemma op_restore_fixed: "op_fixed (op_restore q cpr) = op_fixed q"
  by (auto simp: op_restore_def op_sync_def op_sync_input_def op_sync_analysis_def lookup_dynamic op_fixed_def)

lemma load_saved:
  assumes "prints_whole_numbers fmt_f" and "op_storable p"
  shows "load_position (op_save_positions fmt_f p cpr) k =
    (if reads_analysis (op_read_queue p) \<and> k = ''analysis->'' @ op_name p then Some (cpp_analysis (op_cp p))
     else if reads_input (op_read_queue p) \<and> k = ''input->'' @ op_name p then Some (cpp_input (op_cp p))
     else load_position cpr k)"
proof -
  note st = position_store_printer [OF assms(1)]
  show ?thesis using assms(2)
    by (auto simp: op_save_positions_def hs_update_input_checkpoint_save input_cp_key_def op_storable_def
        position_store.load_save [OF st] position_store.load_frame [OF st])
qed

lemma load_saved_other:
  "k \<noteq> ''input->'' @ op_name p \<Longrightarrow> k \<noteq> ''analysis->'' @ op_name p \<Longrightarrow>
   load_position (op_save_positions fmt_f p cpr) k = load_position cpr k"
  by (auto simp: op_save_positions_def hs_update_input_checkpoint_save input_cp_key_def
      save_position_def load_position_def)

text \<open>An output plugin that is stopped and started again meets the contract of \<open>resumable\<close>.\<close>

lemma resumable_output:
  assumes "prints_whole_numbers fmt_f"
  shows "resumable (op_save_positions fmt_f) op_restore op_same op_name op_positions op_storable"
proof
  fix p q :: hs_output_plugin and s :: hs_checkpoint_reader
  assume "op_storable p" and "op_same q p"
  then show "op_positions (op_restore q (op_save_positions fmt_f p s)) = op_positions p"
    by (simp add: op_restore_positions found_position_def load_saved [OF assms] op_same_def op_positions_def [of p])
next
  fix p q :: hs_output_plugin and s :: hs_checkpoint_reader
  assume "op_name q \<noteq> op_name p"
  then show "op_positions (op_restore q (op_save_positions fmt_f p s)) = op_positions (op_restore q s)"
    by (simp add: op_restore_positions found_position_def load_saved_other split: option.split)
qed (simp add: op_same_def)

interpretation oprun: resumable "op_save_positions dec" op_restore op_same op_name op_positions op_storable
  by (rule resumable_output) (rule prints_whole_numbers_dec)

text \<open>A started plugin's reader, current and safe position agree on every queue it reads.\<close>

definition op_synced :: "hs_output_plugin \<Rightarrow> bool" where
  "op_synced p \<longleftrightarrow>
     (reads_input (op_read_queue p) \<longrightarrow>
        hsi_cp (op_input p) = cpp_input (op_cp p) \<and> cpp_input (op_cur p) = cpp_input (op_cp p)) \<and>
     (reads_analysis (op_read_queue p) \<longrightarrow>
        hsi_cp (op_analysis p) = cpp_analysis (op_cp p) \<and> cpp_analysis (op_cur p) = cpp_analysis (op_cp p))"

lemma op_restore_synced: "op_synced (op_restore q cpr)"
  by (auto simp: op_synced_def op_restore_def op_sync_def op_sync_input_def op_sync_analysis_def lookup_dynamic)

lemma remove_plugin_Some:
  assumes "ops_list ops ! i = Some th"
    and "op_join lib cfg je True th (ops_cpr ops) = Inr (Some (th', cpr'))"
  shows "remove_plugin lib cfg je i ops =
    Inr (Some (ops\<lparr>ops_list := (ops_list ops)[i := None], ops_cpr := cpr', ops_list_cnt := ops_list_cnt ops - 1\<rparr>))"
  using assms by (simp add: remove_plugin_def)

lemma add_dynamic:
  obtains cpr' where "add_to_output_plugins fs cfg q True ops =
    Inr (ops\<lparr>ops_list := slot_add
               (start_thread (op_restore (q\<lparr>op_list_index := int (free_slot (ops_list ops))\<rparr>) (ops_cpr ops)))
               (ops_list ops),
             ops_cpr := cpr', ops_list_cnt := ops_list_cnt ops + 1\<rparr>)"
  using op_sync_dynamic [of fs "q\<lparr>op_list_index := int (free_slot (ops_list ops))\<rparr>" "ops_cpr ops"]
  by (auto simp: add_to_output_plugins_def Let_def)


section \<open>Joining the whole list\<close>

lemma join_slots_Some:
  "join_slots lib cfg jes xs cpr = Inr (Some (n, c)) \<Longrightarrow>
   \<exists>ps. list_all2 (\<lambda>th p. \<exists>je cpr th' c. op_join lib cfg je (op_stop (th_plugin th)) th cpr = Inr (Some (th', c)) \<and>
            p = th_plugin th') (occupied xs) ps \<and>
     c = fold (op_save_positions (tl_fmt_f lib)) ps cpr \<and> n = int (length ps)"
proof (induction lib cfg jes xs cpr arbitrary: n c rule: join_slots.induct)
  case (1 lib cfg je jes th xs cpr)
  then obtain th' c1 where j: "op_join lib cfg je (op_stop (th_plugin th)) th cpr = Inr (Some (th', c1))"
    by (auto split: sum.splits option.splits)
  with "1.prems" obtain n1 where r: "join_slots lib cfg jes xs c1 = Inr (Some (n1, c))" and n: "n = n1 + 1"
    by (auto split: sum.splits option.splits)
  from "1.IH" [OF j refl refl r] obtain ps where
    "list_all2 (\<lambda>th p. \<exists>je cpr th' c. op_join lib cfg je (op_stop (th_plugin th)) th cpr = Inr (Some (th', c)) \<and>
            p = th_plugin th') (occupied xs) ps"
    "c = fold (op_save_positions (tl_fmt_f lib)) ps c1" "n1 = int (length ps)" by blast
  with j n op_join_Some [OF j] show ?case by (intro exI [of _ "th_plugin th' # ps"]) auto
qed auto

lemma join_slots_returns:
  assumes "length (occupied xs) \<le> length jes" and "\<forall>th \<in> set (occupied xs). op_stop (th_plugin th)"
    and "\<forall>je \<in> set jes. je_turns je \<noteq> [] \<and> je_mid je = None"
  shows "join_slots lib cfg jes xs cpr \<noteq> Inr None"
  using assms
proof (induction lib cfg jes xs cpr rule: join_slots.induct)
  case (1 lib cfg je jes th xs cpr)
  have stop: "op_stop (th_plugin th)" using "1.prems"(2) by simp
  show ?case
  proof (cases "op_join lib cfg je True th cpr")
    case (Inr r)
    then obtain th' c where j: "op_join lib cfg je True th cpr = Inr (Some (th', c))"
      using op_join_blocks [of je lib cfg th cpr] "1.prems" by (cases r) auto
    then have "join_slots lib cfg jes xs c \<noteq> Inr None"
      using "1.IH" [of "Some (th', c)" "(th', c)" th' c] "1.prems" stop by simp
    with j stop show ?thesis by (auto split: sum.split option.split)
  qed (simp add: stop)
qed auto

section \<open>Properties\<close>

text \<open>C24: reloading an output plugin: stopping it joins its thread and frees its slot, and a plugin of the
  same name and queues started at run time begins to read each queue exactly at the safe
  position the old thread left behind. Every other plugin stays as it is.\<close>

theorem output_restart_resumes:
  assumes "prints_whole_numbers (tl_fmt_f lib)"
    and "i < length (ops_list ops)" and "ops_list ops ! i = Some th"
    and "op_join lib cfg je True th (ops_cpr ops) = Inr (Some (th', cpr'))"
    and "op_storable (th_plugin th')"
    and "op_name q = op_name (th_plugin th)" and "op_read_queue q = op_read_queue (th_plugin th)"
  shows "\<exists>ops1 ops2 th2. remove_plugin lib cfg je i ops = Inr (Some ops1) \<and>
    add_to_output_plugins fs cfg q True ops1 = Inr ops2 \<and>
    mset (occupied (ops_list ops2)) = add_mset th2 (mset (occupied (ops_list ops)) - {#th#}) \<and>
    ops_list_cnt ops2 = ops_list_cnt ops \<and>
    op_positions (th_plugin th2) = op_positions (th_plugin th') \<and> op_synced (th_plugin th2)"
proof -
  let ?ops1 = "ops\<lparr>ops_list := (ops_list ops)[i := None], ops_cpr := cpr', ops_list_cnt := ops_list_cnt ops - 1\<rparr>"
  let ?q = "q\<lparr>op_list_index := int (free_slot (ops_list ?ops1))\<rparr>"
  obtain c where a: "add_to_output_plugins fs cfg q True ?ops1 =
      Inr (?ops1\<lparr>ops_list := slot_add (start_thread (op_restore ?q cpr')) (ops_list ?ops1),
        ops_cpr := c, ops_list_cnt := ops_list_cnt ?ops1 + 1\<rparr>)"
    using add_dynamic [of fs cfg q ?ops1] by auto
  note j = op_join_Some [OF assms(4)]
  have "op_same ?q (th_plugin th')" using j assms(6,7) by (simp add: op_same_def)
  then have "op_positions (op_restore ?q cpr') = op_positions (th_plugin th')"
    using resumable.resume [OF resumable_output [OF assms(1)] assms(5)] j by simp
  moreover have "mset (occupied ((ops_list ops)[i := None])) = mset (occupied (ops_list ops)) - {#th#}"
    using occupied_update_None [OF assms(2,3)] by simp
  ultimately show ?thesis
    using a by (intro exI [of _ ?ops1] exI [of _ "?ops1\<lparr>ops_list := slot_add (start_thread (op_restore ?q cpr'))
          (ops_list ?ops1), ops_cpr := c, ops_list_cnt := ops_list_cnt ?ops1 + 1\<rparr>"]
        exI [of _ "start_thread (op_restore ?q cpr') :: 'a op_thread"] conjI)
      (simp_all add: remove_plugin_Some [OF assms(3,4)] slot_add_occupied start_thread_def op_restore_synced)
qed

definition quiet_lib :: "string thread_lib" where
  "quiet_lib = \<lparr>tl_scan = scan_nothing, tl_expand = roomy, tl_ts = (\<lambda>_. 0), tl_fmt_f = dec\<rparr>"

definition quiet_env :: "pm_ret \<Rightarrow> turn_env" where
  "quiet_env r =
     (let pe = \<lparr>pe_seek_ok = True, pe_fs_read = queue_files [], pe_fs_open = queue_files []\<rparr>
      in \<lparr>te_time = 0, te_input = pe, te_analysis = pe,
          te_message = \<lparr>om_matched = True, om_acks = [], om_ret = r, om_te_acks = [], om_te_fatal = False\<rparr>,
          te_retries = []\<rparr>)"

definition sample_plugin :: "string \<Rightarrow> hs_output_plugin" where
  "sample_plugin name =
     (init_output_plugin (init_sandbox_config\<lparr>sbc_cfg_name := Some name\<rparr>) ''a.lua'' 0 0 null_input null_input)
       \<lparr>op_cp := sample_pair 7, op_cur := sample_pair 9\<rparr>"

definition sample_list :: "string op_thread option \<Rightarrow> string hs_output_plugins" where
  "sample_list s = \<lparr>ops_list = [None, s], ops_cpr = \<lparr>cpr_values = []\<rparr>, ops_list_cnt = 1\<rparr>"

definition quiet_join :: join_env where
  "quiet_join =
     \<lparr>je_mid = None, je_turns = [quiet_env PM_Sent],
      je_exit = \<lparr>ex_running = True, ex_acks = [], ex_error = None, ex_stamp = []\<rparr>\<rparr>"

theorem output_restart_resumes_witness:
  "\<exists>ops1 ops2 th2.
     remove_plugin quiet_lib small_cfg quiet_join 1 (sample_list (Some (start_thread (sample_plugin ''output.a'')))) =
       Inr (Some ops1) \<and>
     add_to_output_plugins (queue_files []) small_cfg
       ((sample_plugin ''output.a'')\<lparr>op_cp := sample_pair 0\<rparr>) True ops1 = Inr ops2 \<and>
     mset (occupied (ops_list ops2)) = {#th2#} \<and>
     op_positions (th_plugin th2) = (Some \<lparr>cp_id = 1, cp_offset = 7\<rparr>, Some \<lparr>cp_id = 0, cp_offset = 0\<rparr>)"
proof -
  let ?th = "start_thread (sample_plugin ''output.a'') :: string op_thread"
  let ?ops = "sample_list (Some ?th)"
  have "case op_join quiet_lib small_cfg quiet_join True ?th (ops_cpr ?ops) of
      Inr (Some (th', c)) \<Rightarrow> op_cp (th_plugin th') = sample_pair 7 \<and> op_read_queue (th_plugin th') = CHR ''b''
    | _ \<Rightarrow> False"
    by code_simp
  then obtain th' c where j: "op_join quiet_lib small_cfg quiet_join True ?th (ops_cpr ?ops) = Inr (Some (th', c))"
    and cp: "op_cp (th_plugin th') = sample_pair 7" and rq: "op_read_queue (th_plugin th') = CHR ''b''"
    by (auto split: sum.splits option.splits)
  have st: "op_storable (th_plugin th')" by (simp add: op_storable_def printable_cp_def cp sample_pair_def)
  have pos: "op_positions (th_plugin th') = (Some \<lparr>cp_id = 1, cp_offset = 7\<rparr>, Some \<lparr>cp_id = 0, cp_offset = 0\<rparr>)"
    by (simp add: op_positions_def cp rq sample_pair_def reads_input_def reads_analysis_def)
  have h: "prints_whole_numbers (tl_fmt_f quiet_lib)" "1 < length (ops_list ?ops)"
      "ops_list ?ops ! 1 = Some ?th" "mset (occupied (ops_list ?ops)) - {#?th#} = {#}"
    by (simp_all add: quiet_lib_def prints_whole_numbers_dec sample_list_def)
  have q: "op_name ((sample_plugin ''output.a'')\<lparr>op_cp := sample_pair 0\<rparr>) = op_name (th_plugin ?th)"
    "op_read_queue ((sample_plugin ''output.a'')\<lparr>op_cp := sample_pair 0\<rparr>) = op_read_queue (th_plugin ?th)"
    by (simp_all add: start_thread_def)
  from output_restart_resumes [where fs = "queue_files []", OF h(1,2,3) j st q] h(4) pos
  show ?thesis by simp blast
qed


definition holding :: "string op_thread \<Rightarrow> string op_thread" where
  "holding th = th\<lparr>th_im := (th_im th)\<lparr>pl_msg := Some ''m''\<rparr>\<rparr>"



text \<open>Shutting the output plugins down leaves no plugin in the list, and the checkpoint table then
  holds, for every plugin, the safe position its thread ended with: a plugin of the same name
  and queues started on that table resumes there.\<close>

theorem output_shutdown_saves:
  assumes "prints_whole_numbers (tl_fmt_f lib)"
    and "distinct (map (\<lambda>th. op_name (th_plugin th)) (occupied (ops_list ops)))"
    and "hs_wait_output_plugins lib cfg jes (hs_stop_output_plugins ops) = Inr (Some ops')"
  shows "occupied (ops_list ops') = [] \<and>
    ops_list_cnt ops' = ops_list_cnt ops - int (length (occupied (ops_list ops))) \<and>
    (\<exists>ps. list_all2 (\<lambda>th p. \<exists>je cpr th' c. op_join lib cfg je True (with_stop True th) cpr = Inr (Some (th', c)) \<and>
             p = th_plugin th') (occupied (ops_list ops)) ps \<and>
       (\<forall>p \<in> set ps. op_storable p \<longrightarrow>
          (\<forall>q. op_same q p \<longrightarrow> op_positions (op_restore q (ops_cpr ops')) = op_positions p)))"
proof -
  let ?xs = "ops_list (hs_stop_output_plugins ops)"
  have occ: "occupied ?xs = map (with_stop True) (occupied (ops_list ops))"
    by (simp add: hs_stop_output_plugins_def occupied_map)
  obtain n c where j: "join_slots lib cfg jes ?xs (ops_cpr ops) = Inr (Some (n, c))"
    and ops': "ops' = (hs_stop_output_plugins ops)\<lparr>ops_list := map (\<lambda>_. None) ?xs, ops_cpr := c,
        ops_list_cnt := ops_list_cnt ops - n\<rparr>"
    using assms(3) by (auto simp: hs_wait_output_plugins_def hs_stop_output_plugins_def split: sum.splits option.splits)
  from join_slots_Some [OF j] obtain ps where
    l: "list_all2 (\<lambda>th p. \<exists>je cpr th' c. op_join lib cfg je True (with_stop True th) cpr = Inr (Some (th', c)) \<and>
            p = th_plugin th') (occupied (ops_list ops)) ps"
    and c: "c = fold (op_save_positions (tl_fmt_f lib)) ps (ops_cpr ops)" and n: "n = int (length ps)"
    by (auto simp: occ list_all2_map1)
  have "map (\<lambda>th. op_name (th_plugin th)) (occupied (ops_list ops)) = map op_name ps"
    using l by (induction rule: list_all2_induct) (auto dest: op_join_Some)
  with assms(2) have "distinct (map op_name ps)" by simp
  then have "op_positions (op_restore q c) = op_positions p"
    if "p \<in> set ps" "op_storable p" "op_same q p" for p q
    using resumable.resume_all [OF resumable_output [OF assms(1)]] that c by simp
  moreover have "occupied (map (\<lambda>_. None) ys) = []" for ys :: "'b list"
    by (induction ys) auto
  ultimately show ?thesis using l n list_all2_lengthD [OF l] by (auto simp: ops')
qed

theorem output_shutdown_saves_witness:
  "\<exists>ops'. hs_wait_output_plugins quiet_lib small_cfg [quiet_join]
       (hs_stop_output_plugins (sample_list (Some (start_thread (sample_plugin ''output.a''))))) = Inr (Some ops') \<and>
     occupied (ops_list ops') = [] \<and> ops_list_cnt ops' = 0"
proof -
  let ?ops = "sample_list (Some (start_thread (sample_plugin ''output.a'')))"
  have "case hs_wait_output_plugins quiet_lib small_cfg [quiet_join] (hs_stop_output_plugins ?ops) of
      Inr (Some _) \<Rightarrow> True | _ \<Rightarrow> False"
    by code_simp
  then obtain ops' where w: "hs_wait_output_plugins quiet_lib small_cfg [quiet_join] (hs_stop_output_plugins ?ops) = Inr (Some ops')"
    by (auto split: sum.splits option.splits)
  have "prints_whole_numbers (tl_fmt_f quiet_lib)" by (simp add: quiet_lib_def prints_whole_numbers_dec)
  moreover have "distinct (map (\<lambda>th. op_name (th_plugin th)) (occupied (ops_list ?ops)))" "ops_list_cnt ?ops = 1"
    "length (occupied (ops_list ?ops)) = 1"
    by (simp_all add: sample_list_def)
  ultimately show ?thesis using output_shutdown_saves [OF _ _ w] w by auto
qed

text \<open>The shutdown of the output plugins returns: with no thread ending by itself meanwhile, one more
  turn of each thread is enough.\<close>

theorem output_shutdown_returns:
  assumes "length (occupied (ops_list ops)) \<le> length jes"
    and "\<forall>je \<in> set jes. je_turns je \<noteq> [] \<and> je_mid je = None"
  shows "hs_wait_output_plugins lib cfg jes (hs_stop_output_plugins ops) \<noteq> Inr None"
proof -
  have "join_slots lib cfg jes (ops_list (hs_stop_output_plugins ops)) (ops_cpr (hs_stop_output_plugins ops)) \<noteq> Inr None"
    by (rule join_slots_returns) (use assms in \<open>auto simp: hs_stop_output_plugins_def occupied_map\<close>)
  then show ?thesis by (auto simp: hs_wait_output_plugins_def split: sum.split option.split)
qed

theorem output_shutdown_returns_witness:
  "hs_wait_output_plugins quiet_lib small_cfg [quiet_join]
     (hs_stop_output_plugins (sample_list (Some (start_thread (sample_plugin ''output.a''))))) \<noteq> Inr None"
  by (rule output_shutdown_returns) (simp_all add: sample_list_def quiet_join_def)

text \<open>A configuration whose three-letter name differs from a plugin called \<open>cfg\<close> still stops that
  plugin: the search for the plugin's name also finds it in the file's extension.\<close>

theorem remove_from_stops_other:
  assumes "ops_list ops = [Some th]" and "op_name (th_plugin th) = ''output.cfg''" and "length stem = 3"
    and "op_join lib cfg je True th (ops_cpr ops) = Inr (Some (th', c))"
  shows "remove_from_output_plugins lib cfg je (stem @ ''.cfg'') ops =
    Inr (Some (True, ops\<lparr>ops_list := [None], ops_cpr := c, ops_list_cnt := ops_list_cnt ops - 1\<rparr>))"
proof -
  have "name_matches ''cfg'' (stem @ ''.cfg'')"
    using assms(3) by (simp add: name_matches_iff exI [of _ 4])
  then have "find_plugin op_stem (stem @ ''.cfg'') (ops_list ops) = Some 0"
    using assms(1,2) by (simp add: op_stem_def)
  with remove_plugin_Some [of ops 0 th] assms show ?thesis
    by (simp add: remove_from_output_plugins_def)
qed

theorem remove_from_stops_other_witness:
  "\<exists>c. remove_from_output_plugins quiet_lib small_cfg quiet_join (''abc'' @ ''.cfg'')
       \<lparr>ops_list = [Some (start_thread (sample_plugin ''output.cfg''))], ops_cpr = \<lparr>cpr_values = []\<rparr>, ops_list_cnt = 1\<rparr> =
     Inr (Some (True, \<lparr>ops_list = [None], ops_cpr = c, ops_list_cnt = 0\<rparr>))"
proof -
  let ?th = "start_thread (sample_plugin ''output.cfg'') :: string op_thread"
  have "case op_join quiet_lib small_cfg quiet_join True ?th \<lparr>cpr_values = []\<rparr> of Inr (Some _) \<Rightarrow> True | _ \<Rightarrow> False"
    by code_simp
  then obtain th' c where "op_join quiet_lib small_cfg quiet_join True ?th \<lparr>cpr_values = []\<rparr> = Inr (Some (th', c))"
    by (auto split: sum.splits option.splits)
  moreover have "op_name (th_plugin ?th) = ''output.cfg''"
    by (simp add: start_thread_def sample_plugin_def init_output_plugin_def Let_def)
  ultimately show ?thesis
    using remove_from_stops_other [of "\<lparr>ops_list = [Some ?th], ops_cpr = \<lparr>cpr_values = []\<rparr>, ops_list_cnt = 1\<rparr>" ?th "''abc''" quiet_lib small_cfg quiet_join th' c]
    by auto
qed

end
