(* ===== verification/HS_Checkpoint_Writer.thy ===== *)
theory HS_Checkpoint_Writer
  imports HS_Input_Plugins HS_Analysis_Plugins HS_Output_Plugins "HOL-Library.Signed_Division"
begin

text \<open>
  The checkpoint writer (\<open>src/hs_checkpoint_writer.c\<close>): once a second it collects the checkpoints of
  all plugins in the table, flushes both queues, tells the queue writers how far their slowest
  reader is, and replaces the checkpoint file. On a sampled second it also measures how busy the
  threads are, which the placement of new analysis plugins depends on, and writes the reports.

  The measured times are running averages of the sandboxes and come with the environment, as the
  whole nanoseconds the code sums up; so does the text of \<open>plugins.tsv\<close>.
\<close>

section \<open>State\<close>

record hs_checkpoint_writer =
  cpw_cp_path :: string
  cpw_utsv_path :: string
  cpw_ptsv_path :: string
  cpw_cp_path_tmp :: string
  cpw_utsv_path_tmp :: string
  cpw_ptsv_path_tmp :: string

fun allocate_filenames :: "string \<Rightarrow> string list \<Rightarrow> hs_exit + string list" where
  "allocate_filenames path [] = Inr []"
| "allocate_filenames path (n # ns) =
     (case hs_get_fqfn path n HS_MAX_PATH of
        None \<Rightarrow> Inl Path_too_long
      | Some f \<Rightarrow> (case allocate_filenames path ns of Inl e \<Rightarrow> Inl e | Inr fs \<Rightarrow> Inr (f # fs)))"

definition hs_init_checkpoint_writer :: "string \<Rightarrow> hs_exit + hs_checkpoint_writer" where
  "hs_init_checkpoint_writer path =
     (case allocate_filenames path [''hindsight.cp'', ''hindsight.cp.tmp'', ''utilization.tsv'',
             ''utilization.tsv.tmp'', ''plugins.tsv'', ''plugins.tsv.tmp''] of
        Inr [cp, cpt, ut, utt, pt, ptt] \<Rightarrow>
          Inr \<lparr>cpw_cp_path = cp, cpw_utsv_path = ut, cpw_ptsv_path = pt,
               cpw_cp_path_tmp = cpt, cpw_utsv_path_tmp = utt, cpw_ptsv_path_tmp = ptt\<rparr>
      | Inr _ \<Rightarrow> Inl Undefined_behaviour
      | Inl e \<Rightarrow> Inl e)"

text \<open>\<open>struct checkpoint_info\<close>; an open report is the text written to it so far.\<close>

record checkpoint_info =
  ci_ptsv :: bool
  ci_utsv :: "string option"
  ci_min_input_id :: u64
  ci_min_analysis_id :: u64
  ci_input_delta_cnt :: int
  ci_sample_cnt :: int
  ci_sample :: bool
  ci_tsv_error :: bool

definition init_checkpoint_info :: checkpoint_info where
  "init_checkpoint_info =
     \<lparr>ci_ptsv = False, ci_utsv = None, ci_min_input_id = ULLONG_MAX, ci_min_analysis_id = ULLONG_MAX,
      ci_input_delta_cnt = 0, ci_sample_cnt = 0, ci_sample = False, ci_tsv_error = False\<rparr>"

text \<open>The state the writer shares with every thread.\<close>

record 'm cp_world =
  w_fs :: fsys
  w_cpr :: hs_checkpoint_reader
  w_inputs :: "hs_input_plugin option list"
  w_input_ob :: hs_output
  w_threads :: "hs_analysis_thread list"
  w_analysis_ob :: hs_output
  w_outputs :: "'m op_thread option list"
  w_info :: checkpoint_info

section \<open>Measurements\<close>

text \<open>The conversion of a \<open>long long\<close> to an \<open>int\<close>.\<close>

definition to_int :: "int \<Rightarrow> int" where
  "to_int x = sint (word_of_int x :: 32 word)"

definition sample_sec :: int where "sample_sec = 6"

definition round_percentage :: "int \<Rightarrow> int \<Rightarrow> int" where
  "round_percentage n d =
     (if d = 0 then 0
      else
        let q = to_int ((n * 1000) sdiv d); r = q smod 10; p = q sdiv 10
        in if r > 5 \<or> (r = 5 \<and> p smod 2 \<noteq> 0) then p + 1 else p)"

definition get_max_mps :: "int \<Rightarrow> int \<Rightarrow> int \<Rightarrow> int" where
  "get_max_mps tt amps max_mps =
     (if tt \<noteq> 0 \<and> amps \<noteq> 0 then
        let tmps = to_int (tt sdiv amps);
            emps = (if tmps \<noteq> 0 then to_int (1000000000 sdiv tmps + 1) else 1);
            m = (if emps > max_mps then emps else max_mps)
        in if amps > m then amps else m
      else max_mps)"

text \<open>A line of \<open>utilization.tsv\<close>.\<close>

definition add_row :: "string \<Rightarrow> int list \<Rightarrow> checkpoint_info \<Rightarrow> checkpoint_info" where
  "add_row name ns ci =
     ci\<lparr>ci_utsv := map_option (\<lambda>t. t @ name @ concat (map (\<lambda>n. CHR 0x09 # show_int n) ns) @ [CHR 0x0A]) (ci_utsv ci)\<rparr>"

definition tsv_open :: "checkpoint_info \<Rightarrow> bool" where
  "tsv_open ci \<longleftrightarrow> ci_ptsv ci \<and> ci_utsv ci \<noteq> None"

text \<open>Nanoseconds spent in matching, processing and timer events.\<close>

record busy_time =
  bt_mm :: int
  bt_pm :: int
  bt_te :: int

definition bt_total :: "busy_time \<Rightarrow> int" where
  "bt_total t = bt_mm t + bt_pm t + bt_te t"

record cpw_env =
  we_fmt_f :: "nat \<Rightarrow> string"
  we_fmt_17g :: "lua_number \<Rightarrow> string"
  we_flush :: "nat \<Rightarrow> bool"         \<comment> \<open>the flush of the input queue, then of the analysis queue per thread\<close>
  we_thread_times :: "nat \<Rightarrow> busy_time"
  we_plugin_times :: "string \<Rightarrow> busy_time"
  we_plugins_tsv :: string
  we_close_ptsv :: bool
  we_close_utsv :: bool
  we_room :: "nat option"
  we_close_cp :: bool

section \<open>The input plugins\<close>

definition input_plugin_stats ::
    "nat \<Rightarrow> checkpoint_info \<times> hs_checkpoint_reader \<Rightarrow> hs_input_plugin \<Rightarrow>
     hs_exit + ((checkpoint_info \<times> hs_checkpoint_reader) \<times> hs_input_plugin)" where
  "input_plugin_stats i s p =
     (let (ci, cpr) = s in
      case hs_update_checkpoint cpr (ip_name p) (ip_cp p) of
        Inl e \<Rightarrow> Inl e
      | Inr cpr' \<Rightarrow>
          let p1 = (if ip_sample p then p else p\<lparr>ip_sample := ci_sample ci\<rparr>)
          in Inr (if tsv_open ci then
                    (((add_row (ip_name p) [ip_im_delta_cnt p, -1, -1, -1, -1] ci)
                        \<lparr>ci_input_delta_cnt := ci_input_delta_cnt ci + ip_im_delta_cnt p\<rparr>, cpr'),
                     p1\<lparr>ip_im_delta_cnt := 0\<rparr>)
                  else ((ci, cpr'), if ci_tsv_error ci then p1\<lparr>ip_im_delta_cnt := 0\<rparr> else p1)))"

text \<open>The flush of a queue under its lock; the position it returns is on disk.\<close>

definition flush_queue ::
    "bool \<Rightarrow> fsys \<Rightarrow> hs_output \<Rightarrow> hs_exit + (fsys \<times> hs_output \<times> hs_checkpoint)" where
  "flush_queue ok fs ob =
     (if ok then (case flush_output fs ob of (fs', ob') \<Rightarrow> Inr (fs', ob', o_cp ob')) else Inl Flush_failed)"

definition input_stats :: "cpw_env \<Rightarrow> 'm cp_world \<Rightarrow> hs_exit + 'm cp_world" where
  "input_stats env w =
     (case visit_slots input_plugin_stats 0 (w_inputs w) (w_info w, w_cpr w) of
        Inl e \<Rightarrow> Inl e
      | Inr ((ci, cpr), ps) \<Rightarrow>
          (case flush_queue (we_flush env 0) (w_fs w) (w_input_ob w) of
             Inl e \<Rightarrow> Inl e
           | Inr (fs, ob, cp) \<Rightarrow>
               Inr (w\<lparr>w_fs := fs, w_input_ob := ob, w_inputs := ps, w_info := ci,
                      w_cpr := hs_update_input_checkpoint (we_fmt_f env) cpr hs_input_dir None cp\<rparr>)))"

section \<open>The analysis threads\<close>

definition plugin_row :: "cpw_env \<Rightarrow> int \<Rightarrow> hs_analysis_plugin \<Rightarrow> checkpoint_info \<Rightarrow> checkpoint_info" where
  "plugin_row env tt p ci =
     (let t = we_plugin_times env (ap_name p); ttp = bt_total t
      in if tt = 0 \<or> ttp = 0 then add_row (ap_name p) [0, 0, 0, 0, 0] ci
         else add_row (ap_name p)
                [ap_pm_delta_cnt p, round_percentage ttp tt, round_percentage (bt_mm t) ttp,
                 round_percentage (bt_pm t) ttp, round_percentage (bt_te t) ttp] ci)"

definition clear_counts :: "hs_analysis_thread \<Rightarrow> hs_analysis_thread" where
  "clear_counts th =
     th\<lparr>at_list := map (map_option (\<lambda>p. p\<lparr>ap_pm_delta_cnt := 0\<rparr>)) (at_list th), at_mm_delta_cnt := 0\<rparr>"

definition measure_thread :: "busy_time \<Rightarrow> int \<Rightarrow> hs_analysis_thread \<Rightarrow> hs_analysis_thread" where
  "measure_thread t input_delta th =
     (let tt = bt_total t;
          amps = at_mm_delta_cnt th sdiv sample_sec;
          imps = input_delta sdiv sample_sec;
          mps = (if imps > amps then imps else amps);
          mx = get_max_mps tt amps (at_max_mps th);
          u = round_percentage mps mx
      in th\<lparr>at_max_mps := mx, at_utilization := (if u > 255 then UINT8_MAX else word_of_int u)\<rparr>)"

definition report_thread ::
    "cpw_env \<Rightarrow> nat \<Rightarrow> checkpoint_info \<Rightarrow> hs_analysis_thread \<Rightarrow> checkpoint_info \<times> hs_analysis_thread" where
  "report_thread env i ci th =
     (let t = we_thread_times env i; tt = bt_total t;
          th1 = measure_thread t (ci_input_delta_cnt ci) th;
          ci1 = add_row (hs_analysis_dir @ dec i)
                  [at_mm_delta_cnt th1, uint (at_utilization th1), round_percentage (bt_mm t) tt,
                   round_percentage (bt_pm t) tt, round_percentage (bt_te t) tt] ci
      in (fold (plugin_row env tt) (occupied (at_list th1)) ci1, clear_counts th1))"

definition analysis_thread_stats :: "cpw_env \<Rightarrow> nat \<Rightarrow> 'm cp_world \<Rightarrow> hs_exit + 'm cp_world" where
  "analysis_thread_stats env i w =
     (let th = w_threads w ! i; ci = w_info w;
          th1 = (if at_sample th then th else th\<lparr>at_sample := ci_sample ci\<rparr>);
          ci1 = (if cp_id (at_cp th) < ci_min_input_id ci then ci\<lparr>ci_min_input_id := cp_id (at_cp th)\<rparr> else ci);
          cpr1 = hs_update_input_checkpoint (we_fmt_f env) (w_cpr w) hs_input_dir (Some (hsi_name (at_input th))) (at_cp th)
      in case flush_queue (we_flush env (Suc i)) (w_fs w) (w_analysis_ob w) of
           Inl e \<Rightarrow> Inl e
         | Inr (fs, ob, cp) \<Rightarrow>
             let cpr2 = hs_update_input_checkpoint (we_fmt_f env) cpr1 hs_analysis_dir None cp;
                 (ci2, th2) = (if tsv_open ci1 then report_thread env i ci1 th1
                               else (ci1, if ci_tsv_error ci1 then clear_counts th1 else th1))
             in Inr (w\<lparr>w_fs := fs, w_analysis_ob := ob, w_cpr := cpr2, w_info := ci2,
                       w_threads := (w_threads w)[i := th2]\<rparr>))"

definition analysis_stats :: "cpw_env \<Rightarrow> 'm cp_world \<Rightarrow> hs_exit + 'm cp_world" where
  "analysis_stats env w = fold_exit (analysis_thread_stats env) [0 ..< length (w_threads w)] w"

section \<open>The output plugins\<close>

text \<open>The positions saved are the safe ones; the ids reported to the writers are those being read.\<close>

definition output_positions ::
    "(nat \<Rightarrow> string) \<Rightarrow> hs_output_plugin \<Rightarrow> checkpoint_info \<times> hs_checkpoint_reader \<Rightarrow>
     checkpoint_info \<times> hs_checkpoint_reader" where
  "output_positions fmt_f p s =
     (let (ci, cpr) = s;
          i = cp_id (cpp_input (op_cur p)); a = cp_id (cpp_analysis (op_cur p));
          ci1 = (if reads_input (op_read_queue p) \<and> i < ci_min_input_id ci then ci\<lparr>ci_min_input_id := i\<rparr> else ci);
          ci2 = (if reads_analysis (op_read_queue p) \<and> a < ci_min_analysis_id ci1
                 then ci1\<lparr>ci_min_analysis_id := a\<rparr> else ci1)
      in (ci2, op_save_positions fmt_f p cpr))"

definition report_output :: "cpw_env \<Rightarrow> checkpoint_info \<Rightarrow> hs_output_plugin \<Rightarrow> checkpoint_info \<times> hs_output_plugin" where
  "report_output env ci p =
     (let t = we_plugin_times env (op_name p); tt = bt_total t;
          imps = (if reads_input (op_read_queue p) then ci_input_delta_cnt ci sdiv sample_sec else 0);
          amps = op_mm_delta_cnt p sdiv sample_sec;
          mps = (if imps > amps then imps else amps);
          mx = get_max_mps tt amps (op_max_mps p)
      in (add_row (op_name p)
            [op_pm_delta_cnt p, round_percentage mps mx, round_percentage (bt_mm t) tt,
             round_percentage (bt_pm t) tt, round_percentage (bt_te t) tt] ci,
          p\<lparr>op_max_mps := mx, op_mm_delta_cnt := 0, op_pm_delta_cnt := 0\<rparr>))"

definition output_plugin_stats ::
    "cpw_env \<Rightarrow> nat \<Rightarrow> checkpoint_info \<times> hs_checkpoint_reader \<Rightarrow> 'm op_thread \<Rightarrow>
     hs_exit + ((checkpoint_info \<times> hs_checkpoint_reader) \<times> 'm op_thread)" where
  "output_plugin_stats env i s th =
     (let p = th_plugin th;
          (ci, cpr) = output_positions (we_fmt_f env) p s;
          p1 = (if op_sample p then p else p\<lparr>op_sample := ci_sample ci\<rparr>);
          (ci1, p2) = (if tsv_open ci then report_output env ci p1
                       else (ci, if ci_tsv_error ci then p1\<lparr>op_mm_delta_cnt := 0, op_pm_delta_cnt := 0\<rparr> else p1))
      in Inr ((ci1, cpr), th\<lparr>th_plugin := p2\<rparr>))"

definition output_stats :: "cpw_env \<Rightarrow> 'm cp_world \<Rightarrow> hs_exit + 'm cp_world" where
  "output_stats env w =
     (case visit_slots (output_plugin_stats env) 0 (w_outputs w) (w_info w, w_cpr w) of
        Inl e \<Rightarrow> Inl e
      | Inr ((ci, cpr), ths) \<Rightarrow> Inr (w\<lparr>w_outputs := ths, w_info := ci, w_cpr := cpr\<rparr>))"

section \<open>The files\<close>

definition utsv_header :: string where
  "utsv_header =
     ''Plugin'' @ concat (map (\<lambda>s. CHR 0x09 # s)
       [''Messages Processed'', ''% Utilization'', ''% Message Matcher'', ''% Process Message'', ''% Timer Event'']) @ [CHR 0x0A]"

text \<open>The start of a round: the reports are opened on the second after a sample.\<close>

definition open_reports :: "hs_checkpoint_writer \<Rightarrow> checkpoint_info \<Rightarrow> fsys \<Rightarrow> checkpoint_info \<times> fsys" where
  "open_reports cpw ci fs =
     (let u = fopen_we fs (cpw_utsv_path_tmp cpw);
          fs1 = (case u of None \<Rightarrow> fs | Some f \<Rightarrow> f);
          p = fopen_we fs1 (cpw_ptsv_path_tmp cpw)
      in (ci\<lparr>ci_utsv := (if u = None then None else Some utsv_header), ci_ptsv := (p \<noteq> None),
             ci_tsv_error := (u = None \<or> p = None)\<rparr>,
          case p of None \<Rightarrow> fs1 | Some f \<Rightarrow> f))"

definition begin_round :: "hs_checkpoint_writer \<Rightarrow> 'm cp_world \<Rightarrow> 'm cp_world" where
  "begin_round cpw w =
     (let ci = (w_info w)\<lparr>ci_utsv := None, ci_ptsv := False, ci_min_input_id := ULLONG_MAX,
                 ci_min_analysis_id := ULLONG_MAX, ci_input_delta_cnt := 0, ci_tsv_error := False\<rparr>;
          (ci1, fs1) = (if ci_sample ci then open_reports cpw ci (w_fs w) else (ci, w_fs w))
      in w\<lparr>w_fs := fs1, w_info := ci1\<lparr>ci_sample := (ci_sample_cnt ci1 smod sample_sec = 0)\<rparr>\<rparr>)"

definition close_report :: "bool \<Rightarrow> string option \<Rightarrow> string \<Rightarrow> string \<Rightarrow> fsys \<Rightarrow> fsys" where
  "close_report close_ok text tmp path fs =
     (case text of
        None \<Rightarrow> fs
      | Some t \<Rightarrow> let fs1 = fs_put fs tmp t in if close_ok then snd (rename fs1 tmp path) else fs1)"

definition write_cp_file ::
    "(lua_number \<Rightarrow> string) \<Rightarrow> nat option \<Rightarrow> bool \<Rightarrow> string \<Rightarrow> string \<Rightarrow> hs_checkpoint_reader \<Rightarrow> fsys \<Rightarrow>
     hs_exit + fsys" where
  "write_cp_file fmt_17g room close_ok tmp path cpr fs =
     (case fopen_we fs tmp of
        None \<Rightarrow> Inl Open_failed
      | Some fs1 \<Rightarrow>
          (case hs_output_checkpoints fmt_17g cpr \<lparr>of_data = [], of_room = room\<rparr> of
             (ok, fh) \<Rightarrow>
               if close_ok \<and> ok then Inr (snd (rename (fs_put fs1 tmp (of_data fh)) tmp path))
               else Inl Write_failed))"

text \<open>The end of a round: the reports, what the queue writers are told, the checkpoint file.\<close>

definition set_min_ids :: "'m cp_world \<Rightarrow> 'm cp_world" where
  "set_min_ids w =
     w\<lparr>w_input_ob := (w_input_ob w)\<lparr>o_min_cp_id := ci_min_input_id (w_info w)\<rparr>,
       w_analysis_ob := (w_analysis_ob w)\<lparr>o_min_cp_id := ci_min_analysis_id (w_info w)\<rparr>\<rparr>"

definition close_reports :: "hs_checkpoint_writer \<Rightarrow> cpw_env \<Rightarrow> 'm cp_world \<Rightarrow> 'm cp_world" where
  "close_reports cpw env w =
     w\<lparr>w_fs :=
         close_report (we_close_utsv env) (ci_utsv (w_info w)) (cpw_utsv_path_tmp cpw) (cpw_utsv_path cpw)
           (close_report (we_close_ptsv env) (if ci_ptsv (w_info w) then Some (we_plugins_tsv env) else None)
              (cpw_ptsv_path_tmp cpw) (cpw_ptsv_path cpw) (w_fs w))\<rparr>"

definition count_sample :: "checkpoint_info \<Rightarrow> checkpoint_info" where
  "count_sample ci =
     (let n = ci_sample_cnt ci + 1 in ci\<lparr>ci_sample_cnt := (if n = 60 then 0 else n)\<rparr>)"

definition hs_write_checkpoints :: "hs_checkpoint_writer \<Rightarrow> cpw_env \<Rightarrow> 'm cp_world \<Rightarrow> hs_exit + 'm cp_world" where
  "hs_write_checkpoints cpw env w =
     (case input_stats env (begin_round cpw w) of
        Inl e \<Rightarrow> Inl e
      | Inr w1 \<Rightarrow>
          (case analysis_stats env w1 of
             Inl e \<Rightarrow> Inl e
           | Inr w2 \<Rightarrow>
               (case output_stats env w2 of
                  Inl e \<Rightarrow> Inl e
                | Inr w3 \<Rightarrow>
                    let w4 = set_min_ids (close_reports cpw env w3);
                        w5 = w4\<lparr>w_info := count_sample (w_info w4)\<rparr>
                    in (case write_cp_file (we_fmt_17g env) (we_room env) (we_close_cp env)
                               (cpw_cp_path_tmp cpw) (cpw_cp_path cpw) (w_cpr w5) (w_fs w5) of
                          Inl e \<Rightarrow> Inl e
                        | Inr fs \<Rightarrow> Inr (w5\<lparr>w_fs := fs\<rparr>)))))"

section \<open>What a round collects\<close>

lemma add_row_simps [simp]:
  "ci_min_input_id (add_row n xs ci) = ci_min_input_id ci"
  "ci_min_analysis_id (add_row n xs ci) = ci_min_analysis_id ci"
  by (simp_all add: add_row_def)

lemma input_plugin_stats_result:
  assumes "input_plugin_stats i s p = Inr (s', p')"
  shows "snd s' = ip_saved p (snd s) \<and> ci_min_input_id (fst s') = ci_min_input_id (fst s) \<and>
    ci_min_analysis_id (fst s') = ci_min_analysis_id (fst s)"
  using assms
  by (cases s) (auto simp: input_plugin_stats_def ip_saved_def ip_save_def Let_def split: sum.splits if_splits)

lemma flush_queue_result:
  "flush_queue ok fs ob = Inr (fs', ob', cp) \<Longrightarrow> flush_output fs ob = (fs', ob') \<and> cp = o_cp ob"
  by (auto simp: flush_queue_def flush_output_def split: if_splits prod.splits option.splits)

lemma input_stats_result:
  assumes "input_stats env w = Inr w'"
  shows "w_cpr w' = hs_update_input_checkpoint (we_fmt_f env) (fold ip_saved (occupied (w_inputs w)) (w_cpr w))
      hs_input_dir None (o_cp (w_input_ob w)) \<and>
    flush_output (w_fs w) (w_input_ob w) = (w_fs w', w_input_ob w') \<and>
    ci_min_input_id (w_info w') = ci_min_input_id (w_info w) \<and>
    ci_min_analysis_id (w_info w') = ci_min_analysis_id (w_info w) \<and>
    w_threads w' = w_threads w \<and> w_analysis_ob w' = w_analysis_ob w \<and> w_outputs w' = w_outputs w"
proof -
  obtain ci cpr ps fs ob cp where v: "visit_slots input_plugin_stats 0 (w_inputs w) (w_info w, w_cpr w) = Inr ((ci, cpr), ps)"
    and f: "flush_queue (we_flush env 0) (w_fs w) (w_input_ob w) = Inr (fs, ob, cp)"
    and w': "w' = w\<lparr>w_fs := fs, w_input_ob := ob, w_inputs := ps, w_info := ci,
       w_cpr := hs_update_input_checkpoint (we_fmt_f env) cpr hs_input_dir None cp\<rparr>"
    using assms by (auto simp: input_stats_def split: sum.splits)
  let ?I = "\<lambda>zs s. snd s = fold ip_saved zs (w_cpr w) \<and> ci_min_input_id (fst s) = ci_min_input_id (w_info w) \<and>
      ci_min_analysis_id (fst s) = ci_min_analysis_id (w_info w)"
  have "?I (occupied (w_inputs w)) (ci, cpr)"
  proof (rule visit_slots_invariant [OF v, where I = ?I])
    show "?I [] (w_info w, w_cpr w)" by simp
  next
    fix j zs s x s1 y
    assume "?I zs s" and "input_plugin_stats j s x = Inr (s1, y)"
    then show "?I (zs @ [x]) s1" using input_plugin_stats_result [of j s x s1 y] by simp
  qed
  with flush_queue_result [OF f] w' show ?thesis by simp
qed

definition thread_saved ::
    "(nat \<Rightarrow> string) \<Rightarrow> hs_checkpoint \<Rightarrow> hs_analysis_thread \<Rightarrow> hs_checkpoint_reader \<Rightarrow> hs_checkpoint_reader" where
  "thread_saved fmt_f cp th cpr =
     hs_update_input_checkpoint fmt_f
       (hs_update_input_checkpoint fmt_f cpr hs_input_dir (Some (hsi_name (at_input th))) (at_cp th))
       hs_analysis_dir None cp"

lemma plugin_row_simps [simp]:
  "ci_min_input_id (plugin_row env tt p ci) = ci_min_input_id ci"
  "ci_min_analysis_id (plugin_row env tt p ci) = ci_min_analysis_id ci"
  by (simp_all add: plugin_row_def Let_def)

lemma plugin_rows_simps [simp]:
  "ci_min_input_id (fold (plugin_row env tt) ps ci) = ci_min_input_id ci"
  "ci_min_analysis_id (fold (plugin_row env tt) ps ci) = ci_min_analysis_id ci"
  by (induction ps arbitrary: ci) simp_all

definition thread_position :: "hs_analysis_thread \<Rightarrow> string \<times> hs_checkpoint" where
  "thread_position th = (hsi_name (at_input th), at_cp th)"

lemma report_thread_simps [simp]:
  "ci_min_input_id (fst (report_thread env i ci th)) = ci_min_input_id ci"
  "ci_min_analysis_id (fst (report_thread env i ci th)) = ci_min_analysis_id ci"
  "thread_position (snd (report_thread env i ci th)) = thread_position th"
  by (simp_all add: report_thread_def clear_counts_def measure_thread_def thread_position_def Let_def)

lemma clear_counts_position [simp]: "thread_position (clear_counts th) = thread_position th"
  by (simp add: clear_counts_def thread_position_def)

lemma at_sample_position [simp]: "thread_position (th\<lparr>at_sample := b\<rparr>) = thread_position th"
  by (simp add: thread_position_def)

lemma report_step:
  assumes "(if tsv_open ci then report_thread env i ci th
      else (ci, if ci_tsv_error ci then clear_counts th else th)) = (ci2, th2)"
  shows "ci_min_input_id ci2 = ci_min_input_id ci \<and> ci_min_analysis_id ci2 = ci_min_analysis_id ci \<and>
    thread_position th2 = thread_position th"
proof (cases "tsv_open ci")
  case True
  then have "report_thread env i ci th = (ci2, th2)" using assms by simp
  then show ?thesis by (metis report_thread_simps fst_conv snd_conv)
qed (use assms in auto)

lemma analysis_thread_stats_result:
  assumes "analysis_thread_stats env i w = Inr w'" and "i < length (w_threads w)"
  shows "w_cpr w' = thread_saved (we_fmt_f env) (o_cp (w_analysis_ob w)) (w_threads w ! i) (w_cpr w) \<and>
    flush_output (w_fs w) (w_analysis_ob w) = (w_fs w', w_analysis_ob w') \<and>
    ci_min_input_id (w_info w') = min (ci_min_input_id (w_info w)) (cp_id (at_cp (w_threads w ! i))) \<and>
    ci_min_analysis_id (w_info w') = ci_min_analysis_id (w_info w) \<and>
    map thread_position (w_threads w') = map thread_position (w_threads w) \<and>
    w_inputs w' = w_inputs w \<and> w_input_ob w' = w_input_ob w \<and> w_outputs w' = w_outputs w"
proof -
  let ?th = "w_threads w ! i" and ?ci = "w_info w"
  let ?th1 = "if at_sample ?th then ?th else ?th\<lparr>at_sample := ci_sample ?ci\<rparr>"
  let ?ci1 = "if cp_id (at_cp ?th) < ci_min_input_id ?ci then ?ci\<lparr>ci_min_input_id := cp_id (at_cp ?th)\<rparr> else ?ci"
  obtain ci2 th2 where r: "(if tsv_open ?ci1 then report_thread env i ?ci1 ?th1
      else (?ci1, if ci_tsv_error ?ci1 then clear_counts ?th1 else ?th1)) = (ci2, th2)"
    by fastforce
  obtain fs ob cp where f: "flush_queue (we_flush env (Suc i)) (w_fs w) (w_analysis_ob w) = Inr (fs, ob, cp)"
    and w': "w' = w\<lparr>w_fs := fs, w_analysis_ob := ob, w_info := ci2, w_threads := (w_threads w)[i := th2],
       w_cpr := thread_saved (we_fmt_f env) cp ?th (w_cpr w)\<rparr>"
    using assms(1) unfolding analysis_thread_stats_def Let_def thread_saved_def r
    by (auto split: sum.splits)
  have "ci_min_input_id ?ci1 = min (ci_min_input_id ?ci) (cp_id (at_cp ?th))"
    "ci_min_analysis_id ?ci1 = ci_min_analysis_id ?ci"
    by (auto simp: min_def not_less)
  moreover note report_step [OF r]
  moreover have "thread_position ?th1 = thread_position ?th" by simp
  moreover have "map thread_position ((w_threads w)[i := th]) = map thread_position (w_threads w)"
    if "thread_position th = thread_position ?th" for th
    using that by (metis list_update_id map_update)
  ultimately show ?thesis
    unfolding w' using flush_queue_result [OF f] by simp
qed

text \<open>What a flush changes.\<close>

lemma flush_output_frame:
  assumes "flush_output fs ob = (fs', ob')"
  shows "o_fh ob' = o_fh ob \<and> o_path ob' = o_path ob \<and> o_cp ob' = o_cp ob \<and> o_min_cp_id ob' = o_min_cp_id ob \<and>
    (o_fh ob \<noteq> None \<longrightarrow> o_buf ob' = []) \<and> fs_denied fs' = fs_denied fs \<and>
    (\<forall>p. o_fh ob \<noteq> Some p \<longrightarrow> fs_get fs' p = fs_get fs p)"
  using assms by (auto simp: flush_output_def fs_append_get split: option.splits)

lemma thread_saved_cong:
  "thread_position a = thread_position b \<Longrightarrow> thread_saved fmt_f cp a = thread_saved fmt_f cp b"
  by (simp add: thread_saved_def thread_position_def fun_eq_iff)

lemma analysis_prefix_result:
  assumes "fold_exit (analysis_thread_stats env) [0 ..< n] w = Inr w'" and "n \<le> length (w_threads w)"
  shows "w_cpr w' = fold (thread_saved (we_fmt_f env) (o_cp (w_analysis_ob w))) (take n (w_threads w)) (w_cpr w) \<and>
    ci_min_input_id (w_info w') = fold min (map (\<lambda>th. cp_id (at_cp th)) (take n (w_threads w))) (ci_min_input_id (w_info w)) \<and>
    ci_min_analysis_id (w_info w') = ci_min_analysis_id (w_info w) \<and>
    map thread_position (w_threads w') = map thread_position (w_threads w) \<and>
    w_inputs w' = w_inputs w \<and> w_input_ob w' = w_input_ob w \<and> w_outputs w' = w_outputs w \<and>
    o_fh (w_analysis_ob w') = o_fh (w_analysis_ob w) \<and> o_path (w_analysis_ob w') = o_path (w_analysis_ob w) \<and>
    o_cp (w_analysis_ob w') = o_cp (w_analysis_ob w) \<and>
    (0 < n \<longrightarrow> o_fh (w_analysis_ob w) \<noteq> None \<longrightarrow> o_buf (w_analysis_ob w') = []) \<and>
    fs_denied (w_fs w') = fs_denied (w_fs w) \<and>
    (\<forall>p. o_fh (w_analysis_ob w) \<noteq> Some p \<longrightarrow> fs_get (w_fs w') p = fs_get (w_fs w) p) \<and>
    (\<forall>i. queue_log (w_fs w') (w_analysis_ob w') i = queue_log (w_fs w) (w_analysis_ob w) i)"
  using assms
proof (induction n arbitrary: w')
  case (Suc n)
  obtain w1 where one: "fold_exit (analysis_thread_stats env) [0 ..< n] w = Inr w1"
    and step: "analysis_thread_stats env n w1 = Inr w'"
    using Suc.prems(1) by (auto simp: fold_exit_append split: sum.splits)
  note IH = Suc.IH [OF one]
  have n: "n \<le> length (w_threads w)" using Suc.prems(2) by simp
  have len: "length (w_threads w1) = length (w_threads w)"
    using IH [OF n] by (metis length_map)
  then have i: "n < length (w_threads w1)" using Suc.prems(2) by simp
  have pos: "thread_position (w_threads w1 ! n) = thread_position (w_threads w ! n)"
    using IH [OF n] i len by (metis nth_map)
  have cp: "at_cp (w_threads w1 ! n) = at_cp (w_threads w ! n)" using pos by (simp add: thread_position_def)
  note r = analysis_thread_stats_result [OF step i]
  then have fl: "flush_output (w_fs w1) (w_analysis_ob w1) = (w_fs w', w_analysis_ob w')" by blast
  have tk: "take (Suc n) (w_threads w) = take n (w_threads w) @ [w_threads w ! n]"
    using Suc.prems(2) by (simp add: take_Suc_conv_app_nth)
  show ?case
    using r IH [OF n] flush_output_frame [OF fl] flush_output_log [OF fl] thread_saved_cong [OF pos]
    by (simp add: tk cp min.commute)
qed simp

definition output_saved :: "(nat \<Rightarrow> string) \<Rightarrow> 'm op_thread \<Rightarrow> hs_checkpoint_reader \<Rightarrow> hs_checkpoint_reader" where
  "output_saved fmt_f th = op_save_positions fmt_f (th_plugin th)"

definition input_ids :: "'m op_thread list \<Rightarrow> u64 list" where
  "input_ids ths =
     map (\<lambda>th. cp_id (cpp_input (op_cur (th_plugin th)))) (filter (\<lambda>th. reads_input (op_read_queue (th_plugin th))) ths)"

definition analysis_ids :: "'m op_thread list \<Rightarrow> u64 list" where
  "analysis_ids ths =
     map (\<lambda>th. cp_id (cpp_analysis (op_cur (th_plugin th)))) (filter (\<lambda>th. reads_analysis (op_read_queue (th_plugin th))) ths)"

lemma output_positions_result:
  "output_positions fmt_f p s = (ci', cpr') \<Longrightarrow>
   cpr' = op_save_positions fmt_f p (snd s) \<and>
   ci_min_input_id ci' = (if reads_input (op_read_queue p) then min (cp_id (cpp_input (op_cur p))) (ci_min_input_id (fst s))
      else ci_min_input_id (fst s)) \<and>
   ci_min_analysis_id ci' = (if reads_analysis (op_read_queue p) then min (cp_id (cpp_analysis (op_cur p))) (ci_min_analysis_id (fst s))
      else ci_min_analysis_id (fst s))"
  by (cases s) (auto simp: output_positions_def Let_def min_def not_less)

lemma report_output_mins:
  "report_output env ci p = (ci', p') \<Longrightarrow> ci_min_input_id ci' = ci_min_input_id ci \<and> ci_min_analysis_id ci' = ci_min_analysis_id ci"
  by (auto simp: report_output_def Let_def)

lemma output_plugin_stats_result:
  assumes "output_plugin_stats env j s th = Inr (s', th')"
  shows "snd s' = output_saved (we_fmt_f env) th (snd s) \<and>
    ci_min_input_id (fst s') = fold min (input_ids [th]) (ci_min_input_id (fst s)) \<and>
    ci_min_analysis_id (fst s') = fold min (analysis_ids [th]) (ci_min_analysis_id (fst s))"
proof -
  obtain ci cpr where p: "output_positions (we_fmt_f env) (th_plugin th) s = (ci, cpr)" by fastforce
  have "snd s' = cpr \<and> ci_min_input_id (fst s') = ci_min_input_id ci \<and> ci_min_analysis_id (fst s') = ci_min_analysis_id ci"
    using assms unfolding output_plugin_stats_def Let_def p prod.case
    by (auto split: prod.splits if_splits dest: report_output_mins)
  then show ?thesis
    using output_positions_result [OF p] by (simp add: output_saved_def input_ids_def analysis_ids_def)
qed

lemma ids_append [simp]:
  "input_ids (xs @ ys) = input_ids xs @ input_ids ys" "analysis_ids (xs @ ys) = analysis_ids xs @ analysis_ids ys"
  by (simp_all add: input_ids_def analysis_ids_def)

lemma output_stats_result:
  fixes w :: "'m cp_world"
  assumes "output_stats env w = Inr w'"
  shows "w_cpr w' = fold (output_saved (we_fmt_f env)) (occupied (w_outputs w)) (w_cpr w) \<and>
    ci_min_input_id (w_info w') = fold min (input_ids (occupied (w_outputs w))) (ci_min_input_id (w_info w)) \<and>
    ci_min_analysis_id (w_info w') = fold min (analysis_ids (occupied (w_outputs w))) (ci_min_analysis_id (w_info w)) \<and>
    w_fs w' = w_fs w \<and> w_input_ob w' = w_input_ob w \<and> w_analysis_ob w' = w_analysis_ob w \<and>
    w_threads w' = w_threads w \<and> w_inputs w' = w_inputs w"
proof -
  obtain ci cpr ths where v: "visit_slots (output_plugin_stats env) 0 (w_outputs w) (w_info w, w_cpr w) = Inr ((ci, cpr), ths)"
    and w': "w' = w\<lparr>w_outputs := ths, w_info := ci, w_cpr := cpr\<rparr>"
    using assms by (auto simp: output_stats_def split: sum.splits)
  let ?I = "\<lambda>(zs :: 'm op_thread list) s. snd s = fold (output_saved (we_fmt_f env)) zs (w_cpr w) \<and>
      ci_min_input_id (fst s) = fold min (input_ids zs) (ci_min_input_id (w_info w)) \<and>
      ci_min_analysis_id (fst s) = fold min (analysis_ids zs) (ci_min_analysis_id (w_info w))"
  have "?I (occupied (w_outputs w)) (ci, cpr)"
  proof (rule visit_slots_invariant [OF v, where I = ?I])
    show "?I [] (w_info w, w_cpr w)" by (simp add: input_ids_def analysis_ids_def)
  next
    fix j zs s and x :: "'m op_thread" and s1 y
    assume "?I zs s" and "output_plugin_stats env j s x = Inr (s1, y)"
    then show "?I (zs @ [x]) s1" using output_plugin_stats_result [of env j s x s1 y] by simp
  qed
  with w' show ?thesis by simp
qed

text \<open>The table a round writes, and the files it touches besides the queues.\<close>

definition collected :: "(nat \<Rightarrow> string) \<Rightarrow> 'm cp_world \<Rightarrow> hs_checkpoint_reader" where
  "collected fmt_f w =
     fold (output_saved fmt_f) (occupied (w_outputs w))
       (fold (thread_saved fmt_f (o_cp (w_analysis_ob w))) (w_threads w)
         (hs_update_input_checkpoint fmt_f (fold ip_saved (occupied (w_inputs w)) (w_cpr w)) hs_input_dir None
           (o_cp (w_input_ob w))))"

definition cpw_paths :: "hs_checkpoint_writer \<Rightarrow> string list" where
  "cpw_paths cpw = [cpw_cp_path cpw, cpw_cp_path_tmp cpw, cpw_utsv_path cpw, cpw_utsv_path_tmp cpw,
     cpw_ptsv_path cpw, cpw_ptsv_path_tmp cpw]"

lemma rename_frame: "p \<noteq> old \<Longrightarrow> p \<noteq> new \<Longrightarrow> fs_get (snd (rename fs old new)) p = fs_get fs p"
  by (auto simp: rename_def split: option.split)

lemma snd_rename_denied [simp]: "fs_denied (snd (rename fs old new)) = fs_denied fs"
  by (auto simp: rename_def split: option.split)

lemma open_reports_result:
  assumes "open_reports cpw ci fs = (ci', fs')"
  shows "ci_min_input_id ci' = ci_min_input_id ci \<and> ci_min_analysis_id ci' = ci_min_analysis_id ci \<and>
    fs_denied fs' = fs_denied fs \<and> (\<forall>p. p \<notin> set (cpw_paths cpw) \<longrightarrow> fs_get fs' p = fs_get fs p)"
  using assms
  by (auto simp: open_reports_def fopen_we_def Let_def cpw_paths_def split: if_splits)

lemma begin_round_result:
  "w_cpr (begin_round cpw w) = w_cpr w \<and> w_inputs (begin_round cpw w) = w_inputs w \<and>
   w_input_ob (begin_round cpw w) = w_input_ob w \<and> w_threads (begin_round cpw w) = w_threads w \<and>
   w_analysis_ob (begin_round cpw w) = w_analysis_ob w \<and> w_outputs (begin_round cpw w) = w_outputs w \<and>
   ci_min_input_id (w_info (begin_round cpw w)) = ULLONG_MAX \<and>
   ci_min_analysis_id (w_info (begin_round cpw w)) = ULLONG_MAX \<and>
   fs_denied (w_fs (begin_round cpw w)) = fs_denied (w_fs w) \<and>
   (\<forall>p. p \<notin> set (cpw_paths cpw) \<longrightarrow> fs_get (w_fs (begin_round cpw w)) p = fs_get (w_fs w) p)"
proof -
  let ?ci = "(w_info w)\<lparr>ci_utsv := None, ci_ptsv := False, ci_min_input_id := ULLONG_MAX,
      ci_min_analysis_id := ULLONG_MAX, ci_input_delta_cnt := 0, ci_tsv_error := False\<rparr>"
  obtain ci1 fs1 where o: "(if ci_sample ?ci then open_reports cpw ?ci (w_fs w) else (?ci, w_fs w)) = (ci1, fs1)"
    by fastforce
  have "ci_min_input_id ci1 = ULLONG_MAX \<and> ci_min_analysis_id ci1 = ULLONG_MAX \<and> fs_denied fs1 = fs_denied (w_fs w) \<and>
      (\<forall>p. p \<notin> set (cpw_paths cpw) \<longrightarrow> fs_get fs1 p = fs_get (w_fs w) p)"
    using o open_reports_result [of cpw ?ci "w_fs w" ci1 fs1] by (auto split: if_splits)
  then show ?thesis unfolding begin_round_def Let_def o prod.case by simp
qed

lemma close_report_frame:
  "p \<noteq> tmp \<Longrightarrow> p \<noteq> path \<Longrightarrow> fs_get (close_report ok t tmp path fs) p = fs_get fs p"
  by (auto simp: close_report_def Let_def rename_frame split: option.split)

lemma close_report_denied [simp]: "fs_denied (close_report ok t tmp path fs) = fs_denied fs"
  by (auto simp: close_report_def Let_def split: option.split)

lemma close_reports_result:
  "w_cpr (close_reports cpw env w) = w_cpr w \<and> w_inputs (close_reports cpw env w) = w_inputs w \<and>
   w_input_ob (close_reports cpw env w) = w_input_ob w \<and> w_threads (close_reports cpw env w) = w_threads w \<and>
   w_analysis_ob (close_reports cpw env w) = w_analysis_ob w \<and> w_outputs (close_reports cpw env w) = w_outputs w \<and>
   w_info (close_reports cpw env w) = w_info w \<and> fs_denied (w_fs (close_reports cpw env w)) = fs_denied (w_fs w) \<and>
   (\<forall>p. p \<notin> set (cpw_paths cpw) \<longrightarrow> fs_get (w_fs (close_reports cpw env w)) p = fs_get (w_fs w) p)"
  by (simp add: close_reports_def close_report_frame cpw_paths_def)

lemma write_cp_file_frame:
  assumes "write_cp_file fmt_17g room close_ok tmp path cpr fs = Inr fs'" and "p \<noteq> tmp" and "p \<noteq> path"
  shows "fs_get fs' p = fs_get fs p"
  using assms
  by (auto simp: write_cp_file_def fopen_we_def rename_frame split: option.splits prod.splits if_splits)

text \<open>
  A write that ran out of room ends the process, so the file that is put in place is whole: a
  failed write of a backslash, which is not reported, leaves no room for the quote after it.
\<close>

definition room_left :: "ofile \<Rightarrow> string \<Rightarrow> ofile \<Rightarrow> bool" where
  "room_left fh t fh' \<longleftrightarrow>
     of_data fh' = of_data fh @ t \<and> (of_room fh = None \<longleftrightarrow> of_room fh' = None)"

lemma fwrite_room: "fwrite t fh = (True, fh') \<Longrightarrow> room_left fh t fh'"
  by (auto simp: fwrite_def room_left_def split: option.splits)

lemma room_left_trans: "room_left fh s fh1 \<Longrightarrow> room_left fh1 t fh2 \<Longrightarrow> room_left fh (s @ t) fh2"
  by (auto simp: room_left_def)

lemma fwrite_full: "of_room fh = Some 0 \<Longrightarrow> \<not> fst (fwrite t fh)"
  by (simp add: fwrite_def)

lemma fwrite_full_stays: "of_room fh = Some 0 \<Longrightarrow> of_room (snd (fwrite t fh)) = Some 0"
  by (simp add: fwrite_def)

lemma lua_put_char_room:
  assumes "lua_put_char c fh = (True, fh')"
  shows "of_room fh' = Some 0 \<or> room_left fh (lua_escape [c]) fh'"
proof (cases "c = CHR 0x5C")
  case True
  then have fh': "fh' = snd (fwrite [CHR 0x5C, CHR 0x5C] fh)" using assms by (simp add: lua_put_char_def)
  show ?thesis
  proof (cases "fst (fwrite [CHR 0x5C, CHR 0x5C] fh)")
    case ok: True
    then have "fwrite [CHR 0x5C, CHR 0x5C] fh = (True, fh')" using fh' by (metis prod.collapse)
    from fwrite_room [OF this] True show ?thesis by simp
  next
    case False
    then show ?thesis using fh' by (auto simp: fwrite_def split: option.splits)
  qed
qed (use assms in \<open>auto simp: lua_put_char_def split: if_splits dest: fwrite_room\<close>)

lemma lua_put_chars_full: "of_room fh = Some 0 \<Longrightarrow> lua_put_chars s fh = (True, fh') \<Longrightarrow> of_room fh' = Some 0"
proof (induction s arbitrary: fh)
  case (Cons c s)
  obtain b fh1 where c: "lua_put_char c fh = (b, fh1)" by fastforce
  have "of_room fh1 = Some 0"
    using c Cons.prems(1) by (auto simp: lua_put_char_def fwrite_def split: if_splits)
  with Cons c show ?case by (auto split: bool.splits)
qed simp

lemma lua_put_chars_room:
  "lua_put_chars s fh = (True, fh') \<Longrightarrow> of_room fh' = Some 0 \<or> room_left fh (lua_escape s) fh'"
proof (induction s arbitrary: fh)
  case Nil
  then show ?case by (simp add: room_left_def)
next
  case (Cons c s)
  obtain fh1 where c: "lua_put_char c fh = (True, fh1)" and r: "lua_put_chars s fh1 = (True, fh')"
    using Cons.prems by (auto split: prod.splits bool.splits)
  from lua_put_char_room [OF c] show ?case
  proof
    assume "of_room fh1 = Some 0"
    with lua_put_chars_full r show ?thesis by blast
  next
    assume "room_left fh (lua_escape [c]) fh1"
    with Cons.IH [OF r] room_left_trans show ?thesis by (metis lua_escape_Cons)
  qed
qed

lemma put_checkpoint_room:
  assumes "put_checkpoint fmt_17g k v fh = (True, fh')"
  shows "room_left fh (checkpoint_line fmt_17g (k, v)) fh'"
proof (cases v)
  case (LString s)
  let ?h = "''_G['' @ [CHR 0x27] @ c_str k @ [CHR 0x27] @ ''] = '' @ [CHR 0x27]"
  obtain fh1 fh2 where w: "fwrite ?h fh = (True, fh1)" "lua_put_chars (c_str s) fh1 = (True, fh2)"
      "fwrite [CHR 0x27, CHR 0x0A] fh2 = (True, fh')"
    using assms LString by (auto simp: put_checkpoint_def hs_output_lua_string_def split: prod.splits bool.splits)
  have "of_room fh2 \<noteq> Some 0" using w(3) fwrite_full [of fh2 "[CHR 0x27, CHR 0x0A]"] by auto
  then have "room_left fh1 (lua_escape (c_str s)) fh2" using lua_put_chars_room [OF w(2)] by blast
  from room_left_trans [OF room_left_trans [OF fwrite_room [OF w(1)] this] fwrite_room [OF w(3)]]
  show ?thesis using LString by (simp add: checkpoint_line_def)
next
  case (LNumber d)
  then show ?thesis using assms by (auto simp: put_checkpoint_def checkpoint_line_def dest: fwrite_room)
qed (use assms in \<open>auto simp: put_checkpoint_def checkpoint_line_def room_left_def\<close>)

lemma put_checkpoints_room:
  "put_checkpoints fmt_17g kvs fh = (True, fh') \<Longrightarrow> of_data fh' = of_data fh @ checkpoint_text fmt_17g kvs"
proof (induction fmt_17g kvs fh rule: put_checkpoints.induct)
  case (2 fmt_17g k v kvs fh)
  then obtain fh1 where c: "put_checkpoint fmt_17g k v fh = (True, fh1)" and r: "put_checkpoints fmt_17g kvs fh1 = (True, fh')"
    by (auto split: prod.splits bool.splits)
  have "of_data fh' = of_data fh1 @ checkpoint_text fmt_17g kvs" using 2(1) c r by auto
  with put_checkpoint_room [OF c] show ?case by (simp add: room_left_def checkpoint_text_def)
qed (simp add: checkpoint_text_def)

end
