(* ===== verification/HS_Checkpoint_Round.thy ===== *)
theory HS_Checkpoint_Round
  imports HS_Checkpoint_Writer
begin

text \<open>
  What a round of the checkpoint writer establishes: the ids the queue writers are told, the
  replacement of the checkpoint file, and that the file and the queues on disk are enough to start
  every plugin again where it was.
\<close>

section \<open>A whole round\<close>

lemma hs_write_checkpoints_steps:
  assumes "hs_write_checkpoints cpw env w = Inr w'"
  obtains w1 w2 w3 fs where "input_stats env (begin_round cpw w) = Inr w1" and "analysis_stats env w1 = Inr w2"
    and "output_stats env w2 = Inr w3"
    and "write_cp_file (we_fmt_17g env) (we_room env) (we_close_cp env) (cpw_cp_path_tmp cpw) (cpw_cp_path cpw)
           (w_cpr w3) (w_fs (close_reports cpw env w3)) = Inr fs"
    and "w' = (set_min_ids (close_reports cpw env w3))\<lparr>w_info := count_sample (w_info w3), w_fs := fs\<rparr>"
proof -
  obtain w1 w2 w3 where s: "input_stats env (begin_round cpw w) = Inr w1" "analysis_stats env w1 = Inr w2"
    "output_stats env w2 = Inr w3"
    using assms by (auto simp: hs_write_checkpoints_def split: sum.splits)
  obtain fs where f: "write_cp_file (we_fmt_17g env) (we_room env) (we_close_cp env) (cpw_cp_path_tmp cpw) (cpw_cp_path cpw)
      (w_cpr w3) (w_fs (close_reports cpw env w3)) = Inr fs"
    "w' = (set_min_ids (close_reports cpw env w3))\<lparr>w_info := count_sample (w_info w3), w_fs := fs\<rparr>"
    using assms s by (auto simp: hs_write_checkpoints_def Let_def set_min_ids_def close_reports_def split: sum.splits)
  show ?thesis by (rule that [OF s f])
qed

lemma thread_saved_fold_cong:
  "map thread_position xs = map thread_position ys \<Longrightarrow>
   fold (thread_saved fmt_f cp) xs c = fold (thread_saved fmt_f cp) ys c"
proof (induction xs arbitrary: ys c)
  case (Cons x xs)
  then obtain y zs where "ys = y # zs" "thread_position x = thread_position y" "map thread_position xs = map thread_position zs"
    by (cases ys) auto
  with Cons.IH thread_saved_cong [of x y] show ?case by simp
qed simp

text \<open>The table, the ids and the queues after a round.\<close>

lemma hs_write_checkpoints_result:
  assumes "hs_write_checkpoints cpw env w = Inr w'"
  shows "w_cpr w' = collected (we_fmt_f env) w"
    and "o_min_cp_id (w_input_ob w') = fold min (input_ids (occupied (w_outputs w)))
           (fold min (map (\<lambda>th. cp_id (at_cp th)) (w_threads w)) ULLONG_MAX)"
    and "o_min_cp_id (w_analysis_ob w') = fold min (analysis_ids (occupied (w_outputs w))) ULLONG_MAX"
    and "o_path (w_input_ob w') = o_path (w_input_ob w) \<and> o_cp (w_input_ob w') = o_cp (w_input_ob w) \<and>
           o_fh (w_input_ob w') = o_fh (w_input_ob w) \<and> (o_fh (w_input_ob w) \<noteq> None \<longrightarrow> o_buf (w_input_ob w') = [])"
    and "o_path (w_analysis_ob w') = o_path (w_analysis_ob w) \<and> o_cp (w_analysis_ob w') = o_cp (w_analysis_ob w) \<and>
           o_fh (w_analysis_ob w') = o_fh (w_analysis_ob w) \<and>
           (w_threads w \<noteq> [] \<longrightarrow> o_fh (w_analysis_ob w) \<noteq> None \<longrightarrow> o_buf (w_analysis_ob w') = [])"
    and "p \<notin> set (cpw_paths cpw) \<Longrightarrow> o_fh (w_input_ob w) \<noteq> Some p \<Longrightarrow> o_fh (w_analysis_ob w) \<noteq> Some p \<Longrightarrow>
           fs_get (w_fs w') p = fs_get (w_fs w) p"
    and "fs_denied (w_fs w') = fs_denied (w_fs w)"
proof -
  obtain w1 w2 w3 fs where s: "input_stats env (begin_round cpw w) = Inr w1" "analysis_stats env w1 = Inr w2"
      "output_stats env w2 = Inr w3"
    and f: "write_cp_file (we_fmt_17g env) (we_room env) (we_close_cp env) (cpw_cp_path_tmp cpw) (cpw_cp_path cpw)
      (w_cpr w3) (w_fs (close_reports cpw env w3)) = Inr fs"
    and w': "w' = (set_min_ids (close_reports cpw env w3))\<lparr>w_info := count_sample (w_info w3), w_fs := fs\<rparr>"
    by (rule hs_write_checkpoints_steps [OF assms])
  note b = begin_round_result [of cpw w]
  note i = input_stats_result [OF s(1)]
  note fl = flush_output_frame [of "w_fs (begin_round cpw w)" "w_input_ob (begin_round cpw w)" "w_fs w1" "w_input_ob w1"]
  have th: "w_threads w1 = w_threads w" using i b by simp
  note a = analysis_prefix_result [OF s(2) [unfolded analysis_stats_def] order.refl]
  note o' = output_stats_result [OF s(3)]
  note c = close_reports_result [of cpw env w3]
  show "w_cpr w' = collected (we_fmt_f env) w"
    using b i a o' c th by (simp add: w' set_min_ids_def collected_def)
  show "o_min_cp_id (w_input_ob w') = fold min (input_ids (occupied (w_outputs w)))
      (fold min (map (\<lambda>th. cp_id (at_cp th)) (w_threads w)) ULLONG_MAX)"
    using b i a o' c th by (simp add: w' set_min_ids_def)
  show "o_min_cp_id (w_analysis_ob w') = fold min (analysis_ids (occupied (w_outputs w))) ULLONG_MAX"
    using b i a o' c th by (simp add: w' set_min_ids_def)
  show "o_path (w_input_ob w') = o_path (w_input_ob w) \<and> o_cp (w_input_ob w') = o_cp (w_input_ob w) \<and>
      o_fh (w_input_ob w') = o_fh (w_input_ob w) \<and> (o_fh (w_input_ob w) \<noteq> None \<longrightarrow> o_buf (w_input_ob w') = [])"
    using b i fl a o' c by (simp add: w' set_min_ids_def)
  show "o_path (w_analysis_ob w') = o_path (w_analysis_ob w) \<and> o_cp (w_analysis_ob w') = o_cp (w_analysis_ob w) \<and>
      o_fh (w_analysis_ob w') = o_fh (w_analysis_ob w) \<and>
      (w_threads w \<noteq> [] \<longrightarrow> o_fh (w_analysis_ob w) \<noteq> None \<longrightarrow> o_buf (w_analysis_ob w') = [])"
    using b i a o' c th by (simp add: w' set_min_ids_def)
  show "fs_get (w_fs w') p = fs_get (w_fs w) p"
    if "p \<notin> set (cpw_paths cpw)" "o_fh (w_input_ob w) \<noteq> Some p" "o_fh (w_analysis_ob w) \<noteq> Some p"
    using that b i fl a o' c write_cp_file_frame [OF f, of p] by (simp add: w' set_min_ids_def cpw_paths_def)
  show "fs_denied (w_fs w') = fs_denied (w_fs w)"
  proof -
    have "fs_denied fs = fs_denied (w_fs (close_reports cpw env w3))"
      using f by (auto simp: write_cp_file_def fopen_we_def split: option.splits prod.splits if_splits)
    then show ?thesis using b i fl a o' c by (simp add: w' set_min_ids_def)
  qed
qed

lemma queue_log_cong:
  "fs_get fs (log_name (o_path ob) i) = fs_get fs' (log_name (o_path ob) i) \<Longrightarrow>
   o_path ob' = o_path ob \<Longrightarrow> o_fh ob' = o_fh ob \<Longrightarrow> o_buf ob' = o_buf ob \<Longrightarrow>
   queue_log fs' ob' i = queue_log fs ob i"
  by (simp add: queue_log_def file_bytes_def)

lemma hs_write_checkpoints_logs:
  assumes "hs_write_checkpoints cpw env w = Inr w'"
  shows "log_name (o_path (w_input_ob w)) i \<notin> set (cpw_paths cpw) \<Longrightarrow>
      o_fh (w_analysis_ob w) \<noteq> Some (log_name (o_path (w_input_ob w)) i) \<Longrightarrow>
      queue_log (w_fs w') (w_input_ob w') i = queue_log (w_fs w) (w_input_ob w) i"
    and "log_name (o_path (w_analysis_ob w)) i \<notin> set (cpw_paths cpw) \<Longrightarrow>
      o_fh (w_input_ob w) \<noteq> Some (log_name (o_path (w_analysis_ob w)) i) \<Longrightarrow>
      queue_log (w_fs w') (w_analysis_ob w') i = queue_log (w_fs w) (w_analysis_ob w) i"
proof -
  obtain w1 w2 w3 fs where s: "input_stats env (begin_round cpw w) = Inr w1" "analysis_stats env w1 = Inr w2"
      "output_stats env w2 = Inr w3"
    and f: "write_cp_file (we_fmt_17g env) (we_room env) (we_close_cp env) (cpw_cp_path_tmp cpw) (cpw_cp_path cpw)
      (w_cpr w3) (w_fs (close_reports cpw env w3)) = Inr fs"
    and w': "w' = (set_min_ids (close_reports cpw env w3))\<lparr>w_info := count_sample (w_info w3), w_fs := fs\<rparr>"
    by (rule hs_write_checkpoints_steps [OF assms])
  note b = begin_round_result [of cpw w]
  note i' = input_stats_result [OF s(1)]
  then have fo: "flush_output (w_fs (begin_round cpw w)) (w_input_ob (begin_round cpw w)) = (w_fs w1, w_input_ob w1)" by blast
  note fl = flush_output_frame [OF fo] flush_output_log [OF fo]
  note a = analysis_prefix_result [OF s(2) [unfolded analysis_stats_def] order.refl]
  note o' = output_stats_result [OF s(3)]
  note c = close_reports_result [of cpw env w3]
  have late: "fs_get fs p = fs_get (w_fs w3) p" if "p \<notin> set (cpw_paths cpw)" for p
    using that c write_cp_file_frame [OF f, of p] by (simp add: cpw_paths_def)
  show "queue_log (w_fs w') (w_input_ob w') i = queue_log (w_fs w) (w_input_ob w) i"
    if h: "log_name (o_path (w_input_ob w)) i \<notin> set (cpw_paths cpw)"
      "o_fh (w_analysis_ob w) \<noteq> Some (log_name (o_path (w_input_ob w)) i)"
  proof -
    have "queue_log (w_fs w1) (w_input_ob w1) i = queue_log (w_fs w) (w_input_ob w) i"
      using fl(2) [of i] b h(1) queue_log_cong [of "w_fs w" "w_input_ob w" i "w_fs (begin_round cpw w)" "w_input_ob w"] by simp
    moreover have "queue_log (w_fs w') (w_input_ob w') i = queue_log (w_fs w1) (w_input_ob w1) i"
    proof (rule queue_log_cong)
      have p: "o_path (w_input_ob w1) = o_path (w_input_ob w)" using fl(1) b by simp
      show "fs_get (w_fs w1) (log_name (o_path (w_input_ob w1)) i) = fs_get (w_fs w') (log_name (o_path (w_input_ob w1)) i)"
        using a o' h b i' late p by (simp add: w' set_min_ids_def)
    qed (use a o' c in \<open>simp_all add: w' set_min_ids_def\<close>)
    ultimately show ?thesis by simp
  qed
  show "queue_log (w_fs w') (w_analysis_ob w') i = queue_log (w_fs w) (w_analysis_ob w) i"
    if h: "log_name (o_path (w_analysis_ob w)) i \<notin> set (cpw_paths cpw)"
      "o_fh (w_input_ob w) \<noteq> Some (log_name (o_path (w_analysis_ob w)) i)"
  proof -
    have "queue_log (w_fs w1) (w_analysis_ob w1) i = queue_log (w_fs w) (w_analysis_ob w) i"
      by (rule queue_log_cong) (use fl(1) b i' h in simp_all)
    moreover have "queue_log (w_fs w') (w_analysis_ob w') i = queue_log (w_fs w2) (w_analysis_ob w2) i"
    proof (rule queue_log_cong)
      have p: "o_path (w_analysis_ob w2) = o_path (w_analysis_ob w)" using a i' b by simp
      show "fs_get (w_fs w2) (log_name (o_path (w_analysis_ob w2)) i) = fs_get (w_fs w') (log_name (o_path (w_analysis_ob w2)) i)"
        using o' h late p by (simp add: w' set_min_ids_def)
    qed (use o' c in \<open>simp_all add: w' set_min_ids_def\<close>)
    ultimately show ?thesis using a i' b by simp
  qed
qed

section \<open>The checkpoint file\<close>

text \<open>
  The file systems a crash may leave while the file is written: before, after the temporary file
  was opened, with any prefix of its text, and after the rename.
\<close>

definition cp_file_states ::
    "(lua_number \<Rightarrow> string) \<Rightarrow> nat option \<Rightarrow> bool \<Rightarrow> string \<Rightarrow> string \<Rightarrow> hs_checkpoint_reader \<Rightarrow> fsys \<Rightarrow> fsys list" where
  "cp_file_states fmt_17g room close_ok tmp path cpr fs =
     fs # (case fopen_we fs tmp of
             None \<Rightarrow> []
           | Some fs1 \<Rightarrow>
               (case hs_output_checkpoints fmt_17g cpr \<lparr>of_data = [], of_room = room\<rparr> of
                  (ok, fh) \<Rightarrow>
                    map (\<lambda>k. fs_put fs1 tmp (take k (of_data fh))) [0 ..< Suc (length (of_data fh))] @
                    (if close_ok \<and> ok then [snd (rename (fs_put fs1 tmp (of_data fh)) tmp path)] else [])))"

lemma write_cp_file_last:
  "write_cp_file fmt_17g room close_ok tmp path cpr fs = Inr fs' \<Longrightarrow>
   fs' = last (cp_file_states fmt_17g room close_ok tmp path cpr fs)"
  by (auto simp: write_cp_file_def cp_file_states_def split: option.splits prod.splits if_splits)

lemma write_cp_file_get:
  assumes "write_cp_file fmt_17g room close_ok tmp path cpr fs = Inr fs'" and "tmp \<noteq> path"
    and "tmp \<notin> set (fs_denied fs)" and "path \<notin> set (fs_denied fs)"
  shows "fs_get fs' path = Some (checkpoint_text fmt_17g (cpr_values cpr))"
proof -
  obtain fs1 fh where f: "fopen_we fs tmp = Some fs1"
    "hs_output_checkpoints fmt_17g cpr \<lparr>of_data = [], of_room = room\<rparr> = (True, fh)"
    "fs' = snd (rename (fs_put fs1 tmp (of_data fh)) tmp path)"
    using assms(1) by (auto simp: write_cp_file_def split: option.splits prod.splits if_splits)
  have "of_data fh = checkpoint_text fmt_17g (cpr_values cpr)"
    using put_checkpoints_room [OF f(2) [unfolded hs_output_checkpoints_def]] by simp
  then show ?thesis
    using f(1,3) assms(2-4) by (auto simp: fopen_we_def rename_def split: if_splits)
qed

section \<open>Reading the file back\<close>

text \<open>A string loses what follows a zero byte; that is how the zero an input plugin stores goes away.\<close>

definition norm_value :: "lua_value \<Rightarrow> lua_value" where
  "norm_value v = (case v of LString s \<Rightarrow> LString (c_str s) | _ \<Rightarrow> v)"

definition storable_table :: "(string \<Rightarrow> lua_number option) \<Rightarrow> (lua_number \<Rightarrow> string) \<Rightarrow> hs_checkpoint_reader \<Rightarrow> bool" where
  "storable_table num_of fmt_17g cpr \<longleftrightarrow>
     (\<forall>(k, v) \<in> set (cpr_values cpr). storable_entry num_of fmt_17g (k, norm_value v))"

definition reread :: "(string \<Rightarrow> lua_number option) \<Rightarrow> string \<Rightarrow> (string \<times> lua_value) list option" where
  "reread num_of t = read_checkpoints num_of (length t) t"

lemma checkpoint_line_norm: "checkpoint_line fmt_17g (k, norm_value v) = checkpoint_line fmt_17g (k, v)"
  by (simp add: checkpoint_line_def norm_value_def split: lua_value.split)

lemma persisted_norm [simp]: "persisted (k, norm_value v) = persisted (k, v)"
  by (simp add: persisted_def norm_value_def split: lua_value.split)

lemma checkpoint_text_persisted:
  "checkpoint_text fmt_17g (filter persisted (map (map_prod id norm_value) kvs)) = checkpoint_text fmt_17g kvs"
proof (induction kvs)
  case (Cons e kvs)
  obtain k v where e: "e = (k, v)" by fastforce
  show ?case
    using Cons checkpoint_line_skipped [of "(k, v)" fmt_17g]
    by (simp add: checkpoint_text_def e checkpoint_line_norm)
qed simp

lemma length_checkpoint_text: "\<forall>e \<in> set kvs. persisted e \<Longrightarrow> length kvs \<le> length (checkpoint_text fmt_17g kvs)"
proof (induction kvs)
  case (Cons e kvs)
  obtain c cs where "checkpoint_line fmt_17g e = c # cs" using Cons.prems checkpoint_line_nonempty [of e fmt_17g] by auto
  with Cons show ?case by (simp add: checkpoint_text_def)
qed simp

lemma reread_text:
  assumes "storable_table num_of fmt_17g cpr"
  shows "reread num_of (checkpoint_text fmt_17g (cpr_values cpr)) =
    Some (filter persisted (map (map_prod id norm_value) (cpr_values cpr)))"
proof -
  let ?kvs = "filter persisted (map (map_prod id norm_value) (cpr_values cpr))"
  have "\<forall>e \<in> set ?kvs. storable_entry num_of fmt_17g e"
    using assms by (auto simp: storable_table_def)
  moreover have "length ?kvs \<le> length (checkpoint_text fmt_17g ?kvs)"
    by (rule length_checkpoint_text) simp
  ultimately have "read_checkpoints num_of (length (checkpoint_text fmt_17g ?kvs)) (checkpoint_text fmt_17g ?kvs) =
      Some (filter persisted ?kvs)"
    by (rule read_checkpoints_text)
  then show ?thesis by (simp add: reread_def checkpoint_text_persisted)
qed

lemma cpr_get_puts:
  "distinct (map fst kvs) \<Longrightarrow>
   cpr_get (fold (\<lambda>(k, v) c. cpr_put c k v) kvs cpr) k =
     (case map_of kvs k of None \<Rightarrow> cpr_get cpr k | Some v \<Rightarrow> Some v)"
proof (induction kvs arbitrary: cpr)
  case (Cons e kvs)
  obtain k' v where e: "e = (k', v)" by fastforce
  have "map_of kvs k' = None" using Cons.prems e by (simp add: map_of_eq_None_iff)
  with Cons.IH [of "cpr_put cpr k' v"] Cons.prems e show ?case by (simp split: option.split)
qed simp

lemma map_of_persisted:
  "distinct (map fst kvs) \<Longrightarrow>
   map_of (filter persisted (map (map_prod id norm_value) kvs)) k =
     (case map_of kvs k of None \<Rightarrow> None | Some v \<Rightarrow> if persisted (k, v) then Some (norm_value v) else None)"
proof (induction kvs)
  case (Cons e kvs)
  obtain k' v where e: "e = (k', v)" by fastforce
  have "map_of kvs k' = None" using Cons.prems e by (simp add: map_of_eq_None_iff)
  with Cons e show ?case by (auto split: option.split)
qed simp

lemma distinct_persisted:
  "distinct (map fst kvs) \<Longrightarrow> distinct (map fst (filter persisted (map (map_prod id norm_value) kvs)))"
  by (simp add: distinct_map_filter comp_def)

text \<open>The table a new process loads.\<close>

definition reloaded :: "hs_checkpoint_reader \<Rightarrow> hs_checkpoint_reader \<Rightarrow> bool" where
  "reloaded cpr cpr' \<longleftrightarrow>
     (\<forall>k. k \<noteq> ''_G'' \<longrightarrow> cpr_get cpr' k =
        (case cpr_get cpr k of None \<Rightarrow> None | Some v \<Rightarrow> if persisted (k, v) then Some (norm_value v) else None))"

lemma init_reader_reloads:
  assumes "storable_table num_of fmt_17g cpr" and "cpr_ok cpr"
    and "hs_get_fqfn path ''hindsight.cp'' HS_MAX_PATH = Some f"
    and "fs_get fs f = Some (checkpoint_text fmt_17g (cpr_values cpr))" and "f \<notin> set (fs_denied fs)"
  shows "\<exists>cpr'. hs_init_checkpoint_reader (reread num_of) fs path = Inr cpr' \<and> reloaded cpr cpr'"
proof -
  let ?kvs = "filter persisted (map (map_prod id norm_value) (cpr_values cpr))"
  let ?c = "fold (\<lambda>(k, v) c. cpr_put c k v) ?kvs \<lparr>cpr_values = [(''_G'', LTable 0)]\<rparr>"
  have d: "distinct (map fst (cpr_values cpr))" using assms(2) by (simp add: cpr_ok_def)
  have "hs_init_checkpoint_reader (reread num_of) fs path = Inr ?c"
    using assms(3-5) reread_text [OF assms(1)]
    by (simp add: hs_init_checkpoint_reader_def hs_file_exists_def fopen_re_def)
  moreover have "reloaded cpr ?c"
    using cpr_get_puts [OF distinct_persisted [OF d], of "\<lparr>cpr_values = [(''_G'', LTable 0)]\<rparr>"] map_of_persisted [OF d]
    by (auto simp: reloaded_def cpr_get_def split: option.split)
  ultimately show ?thesis by blast
qed

lemma reloaded_position:
  assumes "reloaded cpr cpr'" and "k \<noteq> ''_G''"
  shows "load_position cpr' k = load_position cpr k"
  using assms
  by (auto simp: reloaded_def load_position_def parse_input_checkpoint_def norm_value_def persisted_def
      split: option.split lua_value.split)

section \<open>What the table holds for each plugin\<close>

text \<open>The value an input plugin's checkpoint is saved as.\<close>

definition saved_value :: "hs_ip_checkpoint \<Rightarrow> lua_value option" where
  "saved_value cp =
     (case ipc_type cp of
        HS_CP_STRING \<Rightarrow> Some (LString (take (unat (ipc_len cp)) (case value_s (ipc_value cp) of None \<Rightarrow> [] | Some b \<Rightarrow> b)))
      | HS_CP_NUMERIC \<Rightarrow> (case ipc_value cp of Ip_d d \<Rightarrow> Some (LNumber d) | Ip_s _ \<Rightarrow> None)
      | HS_CP_NONE \<Rightarrow> None)"

lemma ip_saved_get: "ipc_safe (ip_cp p) \<Longrightarrow> cpr_get (ip_saved p cpr) = (cpr_get cpr)(ip_name p := saved_value (ip_cp p))"
  by (auto simp: ip_saved_def ip_save_def ipc_safe_def hs_update_checkpoint_def saved_value_def Let_def fun_eq_iff
      split: ipc_splits)

lemma ip_saved_fold_frame: "k \<notin> ip_name ` set ps \<Longrightarrow> cpr_get (fold ip_saved ps cpr) k = cpr_get cpr k"
  by (induction ps arbitrary: cpr) (auto simp: ip_saved_frame)

lemma ip_saved_fold_get:
  "distinct (map ip_name ps) \<Longrightarrow> p \<in> set ps \<Longrightarrow> ipc_safe (ip_cp p) \<Longrightarrow>
   cpr_get (fold ip_saved ps cpr) (ip_name p) = saved_value (ip_cp p)"
proof (induction ps arbitrary: cpr)
  case (Cons r ps)
  show ?case
  proof (cases "p = r")
    case True
    then show ?thesis using Cons.prems by (simp add: ip_saved_fold_frame ip_saved_get)
  qed (use Cons in auto)
qed simp

text \<open>The names of the three kinds of plugin and the keys of the table.\<close>

definition input_name :: "string \<Rightarrow> bool" where
  "input_name n \<longleftrightarrow> take 6 n = ''input.''"

definition output_name :: "string \<Rightarrow> bool" where
  "output_name n \<longleftrightarrow> take 7 n = ''output.''"

lemma update_position_frame:
  "k \<noteq> input_cp_key d n \<Longrightarrow> cpr_get (hs_update_input_checkpoint fmt_f cpr d n cp) k = cpr_get cpr k"
  by (simp add: hs_update_input_checkpoint_def)

lemma thread_saved_frame:
  "k \<noteq> ''input->'' @ hsi_name (at_input th) \<Longrightarrow> k \<noteq> ''analysis'' \<Longrightarrow>
   cpr_get (thread_saved fmt_f cp th cpr) k = cpr_get cpr k"
  by (simp add: thread_saved_def update_position_frame input_cp_key_def)

lemma output_saved_frame:
  "k \<noteq> ''input->'' @ op_name (th_plugin th) \<Longrightarrow> k \<noteq> ''analysis->'' @ op_name (th_plugin th) \<Longrightarrow>
   cpr_get (output_saved fmt_f th cpr) k = cpr_get cpr k"
  by (simp add: output_saved_def op_save_positions_def update_position_frame input_cp_key_def Let_def)

lemma threads_saved_frame:
  "\<forall>th \<in> set ths. k \<noteq> ''input->'' @ hsi_name (at_input th) \<Longrightarrow> k \<noteq> ''analysis'' \<Longrightarrow>
   cpr_get (fold (thread_saved fmt_f cp) ths cpr) k = cpr_get cpr k"
  by (induction ths arbitrary: cpr) (simp_all add: thread_saved_frame)

lemma outputs_saved_frame:
  "\<forall>th \<in> set ths. k \<noteq> ''input->'' @ op_name (th_plugin th) \<and> k \<noteq> ''analysis->'' @ op_name (th_plugin th) \<Longrightarrow>
   cpr_get (fold (output_saved fmt_f) ths cpr) k = cpr_get cpr k"
  by (induction ths arbitrary: cpr) (simp_all add: output_saved_frame)

lemma input_name_key: "input_name n \<Longrightarrow> n \<noteq> ''input->'' @ m \<and> n \<noteq> ''analysis->'' @ m \<and> n \<noteq> ''analysis'' \<and> n \<noteq> ''input''"
  by (auto simp: input_name_def)

lemma load_position_cong: "cpr_get cpr k = cpr_get cpr' k \<Longrightarrow> load_position cpr k = load_position cpr' k"
  by (simp add: load_position_def)

lemma thread_saved_load:
  assumes "prints_whole_numbers fmt_f" and "printable_cp (at_cp th)"
  shows "load_position (thread_saved fmt_f cp th cpr) (''input->'' @ hsi_name (at_input th)) = Some (at_cp th)"
proof -
  note st = position_store_printer [OF assms(1)]
  show ?thesis
    using assms(2) by (simp add: thread_saved_def hs_update_input_checkpoint_save input_cp_key_def
        position_store.load_save [OF st] position_store.load_frame [OF st])
qed

lemma threads_saved_load:
  assumes "prints_whole_numbers fmt_f" and "distinct (map (\<lambda>th. hsi_name (at_input th)) ths)"
    and "th \<in> set ths" and "printable_cp (at_cp th)"
  shows "load_position (fold (thread_saved fmt_f cp) ths cpr) (''input->'' @ hsi_name (at_input th)) = Some (at_cp th)"
  using assms
proof (induction ths arbitrary: cpr)
  case (Cons t ths)
  show ?case
  proof (cases "th = t")
    case True
    then have "\<forall>t \<in> set ths. ''input->'' @ hsi_name (at_input th) \<noteq> ''input->'' @ hsi_name (at_input t)"
      using Cons.prems(2) by auto
    then have "cpr_get (fold (thread_saved fmt_f cp) ths (thread_saved fmt_f cp t cpr)) (''input->'' @ hsi_name (at_input th)) =
        cpr_get (thread_saved fmt_f cp t cpr) (''input->'' @ hsi_name (at_input th))"
      by (intro threads_saved_frame) auto
    from load_position_cong [OF this] thread_saved_load [OF Cons.prems(1,4), of cp cpr] True
    show ?thesis by simp
  qed (use Cons in auto)
qed simp

text \<open>The state a round is taken of: every checkpoint well formed, every name of its kind and once.\<close>

definition world_ok :: "'m cp_world \<Rightarrow> bool" where
  "world_ok w \<longleftrightarrow>
     cpr_ok (w_cpr w) \<and>
     distinct (map ip_name (occupied (w_inputs w))) \<and>
     (\<forall>p \<in> set (occupied (w_inputs w)). input_name (ip_name p) \<and> ipc_safe (ip_cp p) \<and>
        (ipc_type (ip_cp p) = HS_CP_STRING \<longrightarrow> ipc_value (ip_cp p) \<noteq> Ip_s None)) \<and>
     map (\<lambda>th. hsi_name (at_input th)) (w_threads w) = map analysis_name [0 ..< length (w_threads w)] \<and>
     (\<forall>th \<in> set (w_threads w). printable_cp (at_cp th)) \<and>
     distinct (map (\<lambda>th. op_name (th_plugin th)) (occupied (w_outputs w))) \<and>
     (\<forall>th \<in> set (occupied (w_outputs w)). output_name (op_name (th_plugin th)) \<and> op_storable (th_plugin th))"

lemma analysis_name_inj: "analysis_name i = analysis_name j \<longleftrightarrow> i = j"
  using dec_inj by (auto simp: analysis_name_def)

lemma world_ok_thread_names:
  assumes "world_ok w"
  shows "distinct (map (\<lambda>th. hsi_name (at_input th)) (w_threads w))"
    and "th \<in> set (w_threads w) \<Longrightarrow> \<exists>i. hsi_name (at_input th) = analysis_name i"
proof -
  have m: "map (\<lambda>th. hsi_name (at_input th)) (w_threads w) = map analysis_name [0 ..< length (w_threads w)]"
    using assms by (simp add: world_ok_def)
  show "distinct (map (\<lambda>th. hsi_name (at_input th)) (w_threads w))"
    unfolding m by (auto simp: distinct_map inj_on_def analysis_name_inj)
  show "\<exists>i. hsi_name (at_input th) = analysis_name i" if "th \<in> set (w_threads w)"
  proof -
    have "hsi_name (at_input th) \<in> set (map (\<lambda>th. hsi_name (at_input th)) (w_threads w))" using that by auto
    then show ?thesis unfolding m by auto
  qed
qed

lemma output_name_analysis: "output_name n \<Longrightarrow> n \<noteq> analysis_name i"
  by (auto simp: output_name_def analysis_name_def)

text \<open>The value saved for an input plugin is still there at the end of the round.\<close>

lemma collected_input:
  assumes "world_ok w" and "p \<in> set (occupied (w_inputs w))"
  shows "cpr_get (collected fmt_f w) (ip_name p) = saved_value (ip_cp p)"
proof -
  have n: "input_name (ip_name p)" and s: "ipc_safe (ip_cp p)" and d: "distinct (map ip_name (occupied (w_inputs w)))"
    using assms by (auto simp: world_ok_def)
  let ?t = "hs_update_input_checkpoint fmt_f (fold ip_saved (occupied (w_inputs w)) (w_cpr w)) hs_input_dir None (o_cp (w_input_ob w))"
  have "cpr_get (collected fmt_f w) (ip_name p) =
      cpr_get (fold (thread_saved fmt_f (o_cp (w_analysis_ob w))) (w_threads w) ?t) (ip_name p)"
    unfolding collected_def by (rule outputs_saved_frame) (use input_name_key [OF n] in blast)
  also have "\<dots> = cpr_get ?t (ip_name p)"
    by (rule threads_saved_frame) (use input_name_key [OF n] in blast)+
  also have "\<dots> = cpr_get (fold ip_saved (occupied (w_inputs w)) (w_cpr w)) (ip_name p)"
    by (rule update_position_frame) (use input_name_key [OF n] in \<open>simp add: input_cp_key_def\<close>)
  finally show ?thesis using ip_saved_fold_get [OF d assms(2) s] by simp
qed

lemma collected_thread:
  assumes "world_ok w" and "prints_whole_numbers fmt_f" and "th \<in> set (w_threads w)"
  shows "load_position (collected fmt_f w) (''input->'' @ hsi_name (at_input th)) = Some (at_cp th)"
proof -
  obtain i where i: "hsi_name (at_input th) = analysis_name i" using world_ok_thread_names(2) [OF assms(1,3)] by blast
  have "\<forall>o' \<in> set (occupied (w_outputs w)). ''input->'' @ hsi_name (at_input th) \<noteq> ''input->'' @ op_name (th_plugin o') \<and>
      ''input->'' @ hsi_name (at_input th) \<noteq> ''analysis->'' @ op_name (th_plugin o')"
    using assms(1) output_name_analysis i by (fastforce simp: world_ok_def)
  from outputs_saved_frame [OF this]
    threads_saved_load [OF assms(2) world_ok_thread_names(1) [OF assms(1)] assms(3)]
  show ?thesis
    using assms(1,3) by (simp add: collected_def load_position_def world_ok_def)
qed

lemma outputs_saved_load:
  assumes "prints_whole_numbers fmt_f" and "distinct (map (\<lambda>th. op_name (th_plugin th)) ths)"
    and "th \<in> set ths" and "op_storable (th_plugin th)"
  shows "(reads_input (op_read_queue (th_plugin th)) \<longrightarrow>
        load_position (fold (output_saved fmt_f) ths cpr) (''input->'' @ op_name (th_plugin th)) = Some (cpp_input (op_cp (th_plugin th)))) \<and>
    (reads_analysis (op_read_queue (th_plugin th)) \<longrightarrow>
        load_position (fold (output_saved fmt_f) ths cpr) (''analysis->'' @ op_name (th_plugin th)) = Some (cpp_analysis (op_cp (th_plugin th))))"
  using assms
proof (induction ths arbitrary: cpr)
  case (Cons t ths)
  show ?case
  proof (cases "th = t")
    case True
    then have f: "cpr_get (fold (output_saved fmt_f) ths (output_saved fmt_f t cpr)) (d @ op_name (th_plugin th)) =
        cpr_get (output_saved fmt_f t cpr) (d @ op_name (th_plugin th))" if "d \<in> {''input->'', ''analysis->''}" for d
      using Cons.prems(2) that by (intro outputs_saved_frame) auto
    have l: "load_position (output_saved fmt_f t cpr) k =
        load_position (op_save_positions fmt_f (th_plugin th) cpr) k" for k
      using True by (simp add: output_saved_def)
    show ?thesis
      using load_position_cong [OF f [of "''input->''"]] load_position_cong [OF f [of "''analysis->''"]]
        load_saved [OF Cons.prems(1,4), of cpr] l
      by simp
  qed (use Cons in auto)
qed simp

lemma collected_output:
  assumes "world_ok w" and "prints_whole_numbers fmt_f" and "th \<in> set (occupied (w_outputs w))"
  shows "(reads_input (op_read_queue (th_plugin th)) \<longrightarrow>
        load_position (collected fmt_f w) (''input->'' @ op_name (th_plugin th)) = Some (cpp_input (op_cp (th_plugin th)))) \<and>
    (reads_analysis (op_read_queue (th_plugin th)) \<longrightarrow>
        load_position (collected fmt_f w) (''analysis->'' @ op_name (th_plugin th)) = Some (cpp_analysis (op_cp (th_plugin th))))"
  unfolding collected_def
  by (rule outputs_saved_load [OF assms(2)]) (use assms in \<open>auto simp: world_ok_def\<close>)

section \<open>Starting from the reloaded table\<close>

lemma lookup_found:
  "load_position cpr (d @ ''->'' @ n) = Some c \<Longrightarrow> hs_lookup_input_checkpoint fs cpr d (Some n) path cp = Inr c"
  by (simp add: hs_lookup_input_checkpoint_def load_position_def input_cp_key_def)

lemma removed_input_key: "load_position (remove_checkpoint_q cpr n (CHR ''i'')) (CHR ''a'' # s) = load_position cpr (CHR ''a'' # s)"
proof -
  have "path_key (hs_input_dir @ ''->'' @ n) \<noteq> CHR ''a'' # s"
    using path_key_prefix [of "CHR ''i''" "''nput->'' @ n"] by auto
  then show ?thesis by (simp add: remove_checkpoint_q_def reads_input_def reads_analysis_def load_removed)
qed

lemma op_sync_found:
  assumes "op_same q p"
    and "reads_input (op_read_queue p) \<Longrightarrow> load_position cpr (''input->'' @ op_name p) = Some (cpp_input (op_cp p))"
    and "reads_analysis (op_read_queue p) \<Longrightarrow> load_position cpr (''analysis->'' @ op_name p) = Some (cpp_analysis (op_cp p))"
  shows "\<exists>q' c. op_sync fs path q cpr = Inr (q', c) \<and> op_positions q' = op_positions p \<and> op_synced q'"
proof -
  have s: "op_name q = op_name p" "op_read_queue q = op_read_queue p" using assms(1) by (simp_all add: op_same_def)
  have i: "reads_input (op_read_queue p) \<Longrightarrow>
      hs_lookup_input_checkpoint fs cpr ''input'' (Some (op_name p)) path cp = Inr (cpp_input (op_cp p))" for cp
    by (rule lookup_found) (use assms(2) in simp)
  have a: "reads_analysis (op_read_queue p) \<Longrightarrow>
      hs_lookup_input_checkpoint fs cpr ''analysis'' (Some (op_name p)) path cp = Inr (cpp_analysis (op_cp p))" for cp
    by (rule lookup_found) (use assms(3) in simp)
  have a': "reads_analysis (op_read_queue p) \<Longrightarrow>
      hs_lookup_input_checkpoint fs (remove_checkpoint_q cpr n (CHR ''i'')) ''analysis'' (Some (op_name p)) path cp =
        Inr (cpp_analysis (op_cp p))" for cp n
    using removed_input_key [of cpr n "''nalysis->'' @ op_name p"] assms(3) by (intro lookup_found) simp
  show ?thesis
    using i a a' s reads_some [of "op_read_queue p"]
    by (auto simp: op_sync_def op_sync_input_def op_sync_analysis_def op_positions_def op_synced_def)
qed

lemma c_str_shorter: "CHR 0x00 \<in> set b \<Longrightarrow> length (c_str b) < length b"
  by (induction b) (auto simp: c_str_def)

lemma c_str_take_len:
  assumes "CHR 0x00 \<in> set (take (Suc n) b)" and "n \<le> length b" and "length b \<le> m" and "0 < m"
  shows "length (c_str (take n b)) < m"
proof (cases "n < m")
  case True
  have "length (c_str (take n b)) \<le> length (take n b)" unfolding c_str_def by (rule length_takeWhile_le)
  then show ?thesis using True assms(2) by simp
next
  case False
  then have "take n b = b" "take (Suc n) b = b" using assms(2,3) by auto
  then have "CHR 0x00 \<in> set b" using assms(1) by simp
  then have "length (c_str b) < length b" by (rule c_str_shorter)
  with \<open>take n b = b\<close> assms(3) show ?thesis by simp
qed

lemma c_str_snoc: "c_str (t @ [CHR 0x00]) = c_str t"
  by (induction t) (simp_all add: c_str_def)

lemma reload_saved_value:
  assumes "ipc_safe cp" and "ipc_type cp = HS_CP_STRING \<Longrightarrow> ipc_value cp \<noteq> Ip_s None"
  shows "ip_arguments (snd (hs_load_checkpoint True
      (case map_option norm_value (saved_value cp) of None \<Rightarrow> LNil | Some v \<Rightarrow> v) init_ip_checkpoint)) = ip_arguments cp"
proof (cases "ipc_type cp")
  case HS_CP_STRING
  then obtain b where b: "ipc_value cp = Ip_s (Some b)" "unat (ipc_len cp) \<le> length b" "length b \<le> HS_MAX_IP_CHECKPOINT"
    "CHR 0x00 \<in> set (take (Suc (unat (ipc_len cp))) b)"
    using assms by (auto simp: ipc_safe_def split: ipc_splits)
  let ?t = "c_str (take (unat (ipc_len cp)) b)"
  have len: "length ?t < HS_MAX_IP_CHECKPOINT" by (rule c_str_take_len [OF b(4,2,3)]) simp
  have v: "map_option norm_value (saved_value cp) = Some (LString ?t)"
    using HS_CP_STRING b(1) by (simp add: saved_value_def norm_value_def)
  have "hs_load_checkpoint True (LString ?t) init_ip_checkpoint =
      (False, \<lparr>ipc_type = HS_CP_STRING, ipc_len = word_of_nat (length ?t),
               ipc_cap = word_of_nat (length ?t + 1), ipc_value = Ip_s (Some (?t @ [CHR 0x00]))\<rparr>)"
    using len by (simp add: hs_load_checkpoint_def init_ip_checkpoint_def Let_def)
  moreover have "c_str (?t @ [CHR 0x00]) = c_str b"
    using c_str_take [OF b(2,4)] by (simp add: c_str_snoc)
  ultimately show ?thesis unfolding v option.case using HS_CP_STRING b(1) by (simp add: ip_arguments_def)
next
  case HS_CP_NUMERIC
  with assms(1) show ?thesis
    by (auto simp: ipc_safe_def saved_value_def norm_value_def hs_load_checkpoint_def ip_arguments_def split: ipc_splits)
next
  case HS_CP_NONE
  then show ?thesis by (simp add: saved_value_def hs_load_checkpoint_def ip_arguments_def init_ip_checkpoint_def)
qed

lemma saved_value_persisted: "saved_value cp = Some v \<Longrightarrow> persisted (k, v)"
  by (auto simp: saved_value_def persisted_def split: hs_ip_checkpoint_type.splits ip_checkpoint_value.splits)

end
