(* ===== verification/HS_Restart.thy ===== *)
theory HS_Restart
  imports HS_Checkpoint_Round
begin

text \<open>
  What a round of the checkpoint writer is for: a process started from the files of the round, after
  a clean end or a crash, resumes every plugin where it was. Also what a round tells the queue
  writers, what it leaves on disk at any instant, and the percentages it reports.
\<close>

section \<open>The files of the writer\<close>

lemma hs_init_checkpoint_writer_paths:
  assumes "hs_init_checkpoint_writer path = Inr cpw"
  shows "hs_get_fqfn path ''hindsight.cp'' HS_MAX_PATH = Some (cpw_cp_path cpw)"
    and "cpw_cp_path_tmp cpw \<noteq> cpw_cp_path cpw"
  using assms
  by (auto simp: hs_init_checkpoint_writer_def hs_get_fqfn_def Let_def split: if_splits option.splits sum.splits list.splits)

lemma write_cp_file_whole:
  assumes "hs_write_checkpoints cpw env w = Inr w'" and "cpw_cp_path_tmp cpw \<noteq> cpw_cp_path cpw"
    and "cpw_cp_path_tmp cpw \<notin> set (fs_denied (w_fs w))" and "cpw_cp_path cpw \<notin> set (fs_denied (w_fs w))"
  shows "fs_get (w_fs w') (cpw_cp_path cpw) = Some (checkpoint_text (we_fmt_17g env) (cpr_values (w_cpr w')))"
proof -
  obtain w1 w2 w3 fs where s: "input_stats env (begin_round cpw w) = Inr w1" "analysis_stats env w1 = Inr w2"
      "output_stats env w2 = Inr w3"
    and f: "write_cp_file (we_fmt_17g env) (we_room env) (we_close_cp env) (cpw_cp_path_tmp cpw) (cpw_cp_path cpw)
      (w_cpr w3) (w_fs (close_reports cpw env w3)) = Inr fs"
    and w': "w' = (set_min_ids (close_reports cpw env w3))\<lparr>w_info := count_sample (w_info w3), w_fs := fs\<rparr>"
    by (rule hs_write_checkpoints_steps [OF assms(1)])
  have d: "fs_denied (w_fs (close_reports cpw env w3)) = fs_denied (w_fs w)"
  proof -
    note i = input_stats_result [OF s(1)]
    then have fo: "flush_output (w_fs (begin_round cpw w)) (w_input_ob (begin_round cpw w)) = (w_fs w1, w_input_ob w1)"
      by blast
    show ?thesis
      using flush_output_frame [OF fo] analysis_prefix_result [OF s(2) [unfolded analysis_stats_def] order.refl]
        output_stats_result [OF s(3)] close_reports_result [of cpw env w3] begin_round_result [of cpw w]
      by simp
  qed
  have "w_cpr w' = w_cpr w3"
    unfolding w' using close_reports_result [of cpw env w3] by (simp add: set_min_ids_def)
  moreover have "fs_get fs (cpw_cp_path cpw) = Some (checkpoint_text (we_fmt_17g env) (cpr_values (w_cpr w3)))"
    by (rule write_cp_file_get [OF f assms(2)]) (use assms(3,4) d in simp_all)
  ultimately show ?thesis by (simp add: w')
qed

section \<open>The collected table\<close>

lemma cpr_ok_put: "cpr_ok cpr \<Longrightarrow> cpr_ok (cpr_put cpr k v)"
  by (rule cprtab.inv_put)

lemma update_position_ok: "cpr_ok cpr \<Longrightarrow> cpr_ok (hs_update_input_checkpoint fmt_f cpr d n cp)"
  by (simp add: hs_update_input_checkpoint_def cpr_ok_put)

lemma ip_saved_ok: "cpr_ok cpr \<Longrightarrow> cpr_ok (ip_saved p cpr)"
  by (auto simp: ip_saved_def ip_save_def hs_update_checkpoint_def Let_def cpr_ok_put cprtab.inv_del
      split: ipc_splits sum.split)

lemma fold_ok: "(\<And>x c. cpr_ok c \<Longrightarrow> cpr_ok (f x c)) \<Longrightarrow> cpr_ok cpr \<Longrightarrow> cpr_ok (fold f xs cpr)"
  by (induction xs arbitrary: cpr) simp_all

lemma collected_ok:
  assumes "cpr_ok (w_cpr w)"
  shows "cpr_ok (collected fmt_f w)"
  unfolding collected_def
  by (intro fold_ok update_position_ok)
    (auto simp: output_saved_def thread_saved_def op_save_positions_def update_position_ok ip_saved_ok assms
       intro!: fold_ok)

section \<open>Starting again\<close>

lemma resume_input:
  assumes "cpr_get c (ip_name p) = saved_value (ip_cp p)" and "input_name (ip_name p)" and "ipc_safe (ip_cp p)"
    and "ipc_type (ip_cp p) = HS_CP_STRING \<Longrightarrow> ipc_value (ip_cp p) \<noteq> Ip_s None"
    and "reloaded c cpr" and "ip_same q p"
  shows "ip_arguments (ip_cp (ip_lookup True q cpr)) = ip_arguments (ip_cp p)"
proof -
  have "ip_name p \<noteq> ''_G''" using assms(2) by (auto simp: input_name_def)
  then have "cpr_get cpr (ip_name p) = map_option norm_value (saved_value (ip_cp p))"
    using assms(1,5) saved_value_persisted [of "ip_cp p"] by (auto simp: reloaded_def split: option.split)
  with reload_saved_value [OF assms(3,4)] assms(6) show ?thesis
    by (simp add: ip_lookup_def hs_lookup_checkpoint_def ip_same_def)
qed

lemma resume_thread:
  assumes "load_position c (''input->'' @ hsi_name (at_input th)) = Some (at_cp th)"
    and "reloaded c cpr" and "hsi_name (at_input new) = hsi_name (at_input th)"
  shows "\<exists>new'. start_analysis_thread fs cfg cpr new = Inr new' \<and> at_cp new' = at_cp th \<and>
    hsi_cp (at_input new') = at_cp th"
proof -
  have "load_position cpr (''input'' @ ''->'' @ hsi_name (at_input th)) = Some (at_cp th)"
    using assms(1) reloaded_position [OF assms(2)] by simp
  from lookup_found [OF this] assms(3) show ?thesis by (simp add: start_analysis_thread_def)
qed

definition holds_output :: "hs_checkpoint_reader \<Rightarrow> hs_output_plugin \<Rightarrow> bool" where
  "holds_output c p \<longleftrightarrow>
     (reads_input (op_read_queue p) \<longrightarrow> load_position c (''input->'' @ op_name p) = Some (cpp_input (op_cp p))) \<and>
     (reads_analysis (op_read_queue p) \<longrightarrow> load_position c (''analysis->'' @ op_name p) = Some (cpp_analysis (op_cp p)))"

lemma resume_output:
  assumes "holds_output c p" and "reloaded c cpr" and "op_same q p"
  shows "\<exists>q' c. op_sync fs path q cpr = Inr (q', c) \<and> op_positions q' = op_positions p \<and> op_synced q'"
  by (rule op_sync_found [OF assms(3)])
    (use assms(1) reloaded_position [OF assms(2)] in \<open>auto simp: holds_output_def\<close>)

lemma world_ok_input:
  "world_ok w \<Longrightarrow> p \<in> set (occupied (w_inputs w)) \<Longrightarrow>
   input_name (ip_name p) \<and> ipc_safe (ip_cp p) \<and> (ipc_type (ip_cp p) = HS_CP_STRING \<longrightarrow> ipc_value (ip_cp p) \<noteq> Ip_s None)"
  by (simp add: world_ok_def)

text \<open>The process that reads the file of a round gets the table of the round.\<close>

lemma round_reloads:
  assumes "hs_init_checkpoint_writer path = Inr cpw" and "hs_write_checkpoints cpw env w = Inr w'"
    and "cpr_ok (w_cpr w)" and "storable_table num_of (we_fmt_17g env) (w_cpr w')"
    and "set (cpw_paths cpw) \<inter> set (fs_denied (w_fs w)) = {}"
  shows "\<exists>cpr. hs_init_checkpoint_reader (reread num_of) (w_fs w') path = Inr cpr \<and>
    reloaded (collected (we_fmt_f env) w) cpr"
proof -
  note paths = hs_init_checkpoint_writer_paths [OF assms(1)]
  have d: "cpw_cp_path_tmp cpw \<notin> set (fs_denied (w_fs w))" "cpw_cp_path cpw \<notin> set (fs_denied (w_fs w))"
    using assms(5) by (auto simp: cpw_paths_def)
  have t: "w_cpr w' = collected (we_fmt_f env) w" by (rule hs_write_checkpoints_result(1) [OF assms(2)])
  have ok: "cpr_ok (w_cpr w')" unfolding t by (rule collected_ok) (rule assms(3))
  have "cpw_cp_path cpw \<notin> set (fs_denied (w_fs w'))"
    using d(2) hs_write_checkpoints_result(7) [OF assms(2)] by simp
  from init_reader_reloads [OF assms(4) ok paths(1) write_cp_file_whole [OF assms(2) paths(2) d] this]
  show ?thesis by (simp add: t)
qed

section \<open>Percentages\<close>

text \<open>The tenths of a percent, rounded half to even; the product must fit the \<open>int\<close> it is stored in.\<close>

lemma sdiv_nonneg: "0 \<le> a \<Longrightarrow> 0 < b \<Longrightarrow> a sdiv b = a div b" for a b :: int
  by (cases "a = 0") (simp_all add: signed_divide_int_def sgn_if)

lemma smod_nonneg: "0 \<le> a \<Longrightarrow> 0 < b \<Longrightarrow> a smod b = a mod b" for a b :: int
  by (simp add: signed_modulo_int_def sgn_if)

lemma to_int_small: "- (2 ^ 31) \<le> x \<Longrightarrow> x < 2 ^ 31 \<Longrightarrow> to_int x = x"
  unfolding to_int_def by transfer (simp add: signed_take_bit_int_eq_self_iff)

lemma round_percentage_value:
  assumes "0 \<le> n" and "0 < d" and "n * 1000 div d < 2 ^ 31"
  shows "round_percentage n d =
    (let q = n * 1000 div d in
       if q mod 10 > 5 \<or> (q mod 10 = 5 \<and> q div 10 mod 2 \<noteq> 0) then q div 10 + 1 else q div 10)"
proof -
  let ?q = "n * 1000 div d"
  have q: "0 \<le> ?q" using assms(1,2) by (simp add: pos_imp_zdiv_nonneg_iff)
  have s: "to_int ((n * 1000) sdiv d) = ?q"
    using q assms by (simp add: sdiv_nonneg to_int_small)
  show ?thesis
    using q assms(2) unfolding round_percentage_def s Let_def by (simp add: smod_nonneg sdiv_nonneg)
qed

lemma half_even:
  fixes q :: int
  assumes "r = (if q mod 10 > 5 \<or> (q mod 10 = 5 \<and> q div 10 mod 2 \<noteq> 0) then q div 10 + 1 else q div 10)"
    and "0 \<le> q"
  shows "\<bar>10 * r - q\<bar> \<le> 5 \<and> (\<bar>10 * r - q\<bar> = 5 \<longrightarrow> even r) \<and> 0 \<le> r \<and> (q \<le> 1000 \<longrightarrow> r \<le> 100)"
proof -
  define p m where "p = q div 10" and "m = q mod 10"
  have q: "q = 10 * p + m" "0 \<le> m" "m < 10" "0 \<le> p" using assms(2) by (simp_all add: p_def m_def)
  have r: "r = (if m > 5 \<or> (m = 5 \<and> odd p) then p + 1 else p)"
    using assms(1) by (simp add: p_def m_def odd_iff_mod_2_eq_one)
  show ?thesis
  proof (cases "m > 5 \<or> (m = 5 \<and> odd p)")
    case True
    then have "r = p + 1" "5 \<le> m" "m = 5 \<longrightarrow> odd p" using r by auto
    with q show ?thesis by auto
  next
    case False
    then have "r = p" "m \<le> 5" "m = 5 \<longrightarrow> even p" using r by auto
    with q show ?thesis by auto
  qed
qed

lemma restart_resumes:
  assumes "hs_init_checkpoint_writer path = Inr cpw" and "hs_write_checkpoints cpw env w = Inr w'"
    and "world_ok w" and "prints_whole_numbers (we_fmt_f env)"
    and "storable_table num_of (we_fmt_17g env) (w_cpr w')"
    and "set (cpw_paths cpw) \<inter> set (fs_denied (w_fs w)) = {}"
  shows "\<exists>cpr. hs_init_checkpoint_reader (reread num_of) (w_fs w') path = Inr cpr \<and>
    (\<forall>p \<in> set (occupied (w_inputs w)). \<forall>q. ip_same q p \<longrightarrow>
       ip_arguments (ip_cp (ip_lookup True q cpr)) = ip_arguments (ip_cp p)) \<and>
    (\<forall>th \<in> set (w_threads w). \<forall>fs cfg new. hsi_name (at_input new) = hsi_name (at_input th) \<longrightarrow>
       (\<exists>new'. start_analysis_thread fs cfg cpr new = Inr new' \<and> at_cp new' = at_cp th \<and>
          hsi_cp (at_input new') = at_cp th)) \<and>
    (\<forall>th \<in> set (occupied (w_outputs w)). \<forall>fs p q. op_same q (th_plugin th) \<longrightarrow>
       (\<exists>q' c. op_sync fs p q cpr = Inr (q', c) \<and> op_positions q' = op_positions (th_plugin th) \<and> op_synced q'))"
proof -
  have "cpr_ok (w_cpr w)" using assms(3) by (simp add: world_ok_def)
  from round_reloads [OF assms(1,2) this assms(5,6)] obtain cpr where
    cpr: "hs_init_checkpoint_reader (reread num_of) (w_fs w') path = Inr cpr" "reloaded (collected (we_fmt_f env) w) cpr"
    by blast
  have "ip_arguments (ip_cp (ip_lookup True q cpr)) = ip_arguments (ip_cp p)"
    if "p \<in> set (occupied (w_inputs w))" "ip_same q p" for p q
    by (rule resume_input [OF collected_input [OF assms(3) that(1)] _ _ _ cpr(2) that(2)])
      (use world_ok_input [OF assms(3) that(1)] in blast)+
  moreover have "holds_output (collected (we_fmt_f env) w) (th_plugin th)" if "th \<in> set (occupied (w_outputs w))" for th
    using collected_output [OF assms(3,4) that] by (simp add: holds_output_def)
  ultimately show ?thesis
    using cpr(1) resume_thread [OF collected_thread [OF assms(3,4)] cpr(2)] resume_output [OF _ cpr(2)]
    by (intro exI [of _ cpr]) blast
qed

section \<open>A sample round\<close>

definition sample_world :: "string cp_world" where
  "sample_world =
     \<lparr>w_fs = \<lparr>fs_files = [(''o/input/3.log'', ''wx''), (''o/analysis/1.log'', ''ab'')], fs_dirs = [''o''], fs_denied = []\<rparr>,
      w_cpr = \<lparr>cpr_values = [(''_G'', LTable 0)]\<rparr>,
      w_inputs = [None, Some (sample_input\<lparr>ip_cp := snd (ip_update_checkpoint True NaN (Some ''17'') init_ip_checkpoint)\<rparr>)],
      w_input_ob = \<lparr>o_fh = Some ''o/input/3.log'', o_buf = ''yz'', o_path = ''o/input'', o_min_cp_id = 0,
                    o_cp = \<lparr>cp_id = 3, cp_offset = 4\<rparr>\<rparr>,
      w_threads = [sample_thread\<lparr>at_input := (at_input sample_thread)\<lparr>hsi_name := ''analysis0''\<rparr>, at_cp := \<lparr>cp_id = 2, cp_offset = 5\<rparr>\<rparr>],
      w_analysis_ob = \<lparr>o_fh = Some ''o/analysis/1.log'', o_buf = ''cd'', o_path = ''o/analysis'', o_min_cp_id = 0,
                       o_cp = \<lparr>cp_id = 1, cp_offset = 4\<rparr>\<rparr>,
      w_outputs = [Some (start_thread (sample_plugin ''output.a''))],
      w_info = init_checkpoint_info\<rparr>"

definition sample_cpw_env :: cpw_env where
  "sample_cpw_env =
     \<lparr>we_fmt_f = dec, we_fmt_17g = \<lambda>d. ''0'', we_flush = \<lambda>i. True, we_thread_times = \<lambda>i. \<lparr>bt_mm = 0, bt_pm = 0, bt_te = 0\<rparr>,
      we_plugin_times = \<lambda>n. \<lparr>bt_mm = 0, bt_pm = 0, bt_te = 0\<rparr>, we_plugins_tsv = [], we_close_ptsv = True, we_close_utsv = True,
      we_room = None, we_close_cp = True\<rparr>"

definition sample_cpw :: hs_checkpoint_writer where
  "sample_cpw =
     \<lparr>cpw_cp_path = ''o/hindsight.cp'', cpw_utsv_path = ''o/utilization.tsv'', cpw_ptsv_path = ''o/plugins.tsv'',
      cpw_cp_path_tmp = ''o/hindsight.cp.tmp'', cpw_utsv_path_tmp = ''o/utilization.tsv.tmp'', cpw_ptsv_path_tmp = ''o/plugins.tsv.tmp''\<rparr>"

lemma sample_cpw_init: "hs_init_checkpoint_writer ''o'' = Inr sample_cpw"
  by code_simp

lemma sample_round:
  obtains w' where "hs_write_checkpoints sample_cpw sample_cpw_env sample_world = Inr w'"
proof -
  have "case hs_write_checkpoints sample_cpw sample_cpw_env sample_world of Inr _ \<Rightarrow> True | _ \<Rightarrow> False" by code_simp
  then show ?thesis using that by (auto split: sum.splits)
qed

lemma sample_collected:
  "cpr_values (collected dec sample_world) =
     [(''_G'', LTable 0), (''input.a'', LString (''17'' @ [CHR 0x00])), (''input'', LString ''3:4''),
      (''input->analysis0'', LString ''2:5''), (''analysis'', LString ''1:4''),
      (''input->output.a'', LString ''1:7''), (''analysis->output.a'', LString ''0:0'')]"
  by code_simp

lemma sample_storable: "storable_table (\<lambda>t. Some (Fin 0)) (\<lambda>d. ''0'') (collected dec sample_world)"
  unfolding storable_table_def sample_collected
  by (simp add: storable_entry_def norm_value_def plain_key_def no_nul_def c_str_def)

lemma sample_printable: "printable_cp (at_cp th)" if "th \<in> set (w_threads sample_world)" for th
  using that by (simp add: sample_world_def printable_cp_def)

lemma sample_output_storable: "op_storable (th_plugin th)" if "th \<in> set (occupied (w_outputs sample_world))" for th
  using that by (simp add: sample_world_def occupied_def op_storable_def start_thread_def sample_plugin_def printable_cp_def sample_pair_def)

lemma sample_world_ok: "world_ok sample_world"
proof -
  have a: "cpr_ok (w_cpr sample_world)" "distinct (map ip_name (occupied (w_inputs sample_world)))"
    "map (\<lambda>th. hsi_name (at_input th)) (w_threads sample_world) = map analysis_name [0 ..< length (w_threads sample_world)]"
    "distinct (map (\<lambda>th. op_name (th_plugin th)) (occupied (w_outputs sample_world)))"
    by code_simp+
  have b: "\<forall>p \<in> set (occupied (w_inputs sample_world)). input_name (ip_name p) \<and> ipc_safe (ip_cp p) \<and>
      (ipc_type (ip_cp p) = HS_CP_STRING \<longrightarrow> ipc_value (ip_cp p) \<noteq> Ip_s None)"
    "\<forall>th \<in> set (occupied (w_outputs sample_world)). output_name (op_name (th_plugin th))"
    by code_simp+
  show ?thesis unfolding world_ok_def using a b sample_printable sample_output_storable by blast
qed

section \<open>Properties\<close>





text \<open>C13: a round hands both queues to the disk before it replaces the checkpoint file, so whatever a
  plugin's saved position counts on is on disk: every file of either queue has, on disk, all that
  was written to it, buffered or not.\<close>

theorem round_flushes_queues:
  assumes "hs_write_checkpoints cpw env w = Inr w'"
    and "o_fh (w_input_ob w) \<noteq> None" and "o_fh (w_analysis_ob w) \<noteq> None" and "w_threads w \<noteq> []"
    and "log_name (o_path (w_input_ob w)) i \<notin> set (cpw_paths cpw)"
    and "log_name (o_path (w_analysis_ob w)) i \<notin> set (cpw_paths cpw)"
    and "o_fh (w_analysis_ob w) \<noteq> Some (log_name (o_path (w_input_ob w)) i)"
    and "o_fh (w_input_ob w) \<noteq> Some (log_name (o_path (w_analysis_ob w)) i)"
  shows "file_bytes (w_fs w') (log_name (o_path (w_input_ob w)) i) = queue_log (w_fs w) (w_input_ob w) i \<and>
    file_bytes (w_fs w') (log_name (o_path (w_analysis_ob w)) i) = queue_log (w_fs w) (w_analysis_ob w) i"
  using hs_write_checkpoints_logs(1) [OF assms(1,5,7)] hs_write_checkpoints_logs(2) [OF assms(1,6,8)]
    hs_write_checkpoints_result(4,5) [OF assms(1)] assms(2-4)
  by (auto simp: queue_log_def)

theorem round_flushes_queues_witness:
  "\<exists>w'. hs_write_checkpoints sample_cpw sample_cpw_env sample_world = Inr w' \<and>
     file_bytes (w_fs w') ''o/input/3.log'' = ''wxyz''"
proof -
  obtain w' where w': "hs_write_checkpoints sample_cpw sample_cpw_env sample_world = Inr w'" by (rule sample_round)
  let ?i = "log_name (o_path (w_input_ob sample_world)) 3" and ?a = "log_name (o_path (w_analysis_ob sample_world)) 3"
  have n: "?i = ''o/input/3.log''" "?a = ''o/analysis/3.log''"
    "queue_log (w_fs sample_world) (w_input_ob sample_world) 3 = ''wxyz''"
    "o_fh (w_input_ob sample_world) = Some ''o/input/3.log''" "o_fh (w_analysis_ob sample_world) = Some ''o/analysis/1.log''"
    by code_simp+
  have "?i \<notin> set (cpw_paths sample_cpw)" "?a \<notin> set (cpw_paths sample_cpw)" "w_threads sample_world \<noteq> []"
    by (simp_all add: n cpw_paths_def sample_cpw_def, simp add: sample_world_def)
  with round_flushes_queues [OF w', of 3] n w' show ?thesis by auto
qed

text \<open>The ids a round gives the queue writers, which decide when backpressure may end, are the ids of
  their slowest readers: for the input queue the minimum over the analysis threads and the output
  plugins that read it, for the analysis queue over the output plugins that read it, and the
  largest 64-bit id where nobody reads.\<close>

theorem slowest_reader_reported:
  assumes "hs_write_checkpoints cpw env w = Inr w'"
  shows "o_min_cp_id (w_input_ob w') = Min (insert ULLONG_MAX
      (set (map (\<lambda>th. cp_id (at_cp th)) (w_threads w)) \<union> set (input_ids (occupied (w_outputs w))))) \<and>
    o_min_cp_id (w_analysis_ob w') = Min (insert ULLONG_MAX (set (analysis_ids (occupied (w_outputs w)))))"
proof -
  have f: "fold min xs m = Min (insert m (set xs))" for xs and m :: u64
    by (metis Min.set_eq_fold list.simps(15))
  have "fold min xs (fold min ys m) = fold min (ys @ xs) m" for xs ys and m :: u64 by simp
  then show ?thesis
    unfolding hs_write_checkpoints_result(2,3) [OF assms] by (simp only: f set_append)
qed

theorem slowest_reader_reported_witness:
  "\<exists>w'. hs_write_checkpoints sample_cpw sample_cpw_env sample_world = Inr w' \<and> o_min_cp_id (w_input_ob w') = 1"
proof -
  obtain w' where w': "hs_write_checkpoints sample_cpw sample_cpw_env sample_world = Inr w'" by (rule sample_round)
  have "map (\<lambda>th. cp_id (at_cp th)) (w_threads sample_world) = [2]" "input_ids (occupied (w_outputs sample_world)) = [1]"
    by code_simp+
  with slowest_reader_reported [OF w'] w' show ?thesis by auto
qed

text \<open>A reported percentage is within half a percent of the tenths it is computed from, ties go to the
  even number, and a part of a whole gives at most 100.\<close>

theorem round_percentage_spec:
  assumes "0 \<le> n" and "0 < d" and "n * 1000 div d < 2 ^ 31"
  shows "\<bar>10 * round_percentage n d - n * 1000 div d\<bar> \<le> 5 \<and>
    (\<bar>10 * round_percentage n d - n * 1000 div d\<bar> = 5 \<longrightarrow> even (round_percentage n d)) \<and>
    0 \<le> round_percentage n d \<and> (n \<le> d \<longrightarrow> round_percentage n d \<le> 100)"
proof -
  let ?q = "n * 1000 div d"
  have q: "0 \<le> ?q" using assms(1,2) by (simp add: pos_imp_zdiv_nonneg_iff)
  have "?q \<le> 1000" if "n \<le> d"
  proof -
    have "n * 1000 div d \<le> d * 1000 div d" using that assms(2) by (intro zdiv_mono1) auto
    then show ?thesis using assms(2) by simp
  qed
  with half_even [OF round_percentage_value [OF assms, unfolded Let_def] q] show ?thesis by blast
qed

theorem round_percentage_spec_witness:
  "round_percentage 245 1000 = 24 \<and> round_percentage 255 1000 = 26 \<and>
   \<bar>10 * round_percentage 255 1000 - 255 * 1000 div 1000\<bar> \<le> 5"
proof -
  have "round_percentage 245 1000 = 24" "round_percentage 255 1000 = 26" by code_simp+
  with round_percentage_spec [of 255 1000] show ?thesis by simp
qed

text \<open>C26: an input plugin hands a checkpoint over with a message, and the checkpoint is set before the message
  is written. A round that falls between the two saves the checkpoint that stands after the
  message, while no queue file has it: a crash then loses the message, although the plugin will
  not read it again.\<close>

theorem checkpoint_ahead_of_queue:
  assumes "hs_init_checkpoint_writer path = Inr cpw" and "hs_write_checkpoints cpw env w = Inr w'"
    and "world_ok w" and "prints_whole_numbers (we_fmt_f env)"
    and "storable_table num_of (we_fmt_17g env) (w_cpr w')"
    and "set (cpw_paths cpw) \<inter> set (fs_denied (w_fs w)) = {}"
    and "Some p1 \<in> set (w_inputs w)" and "ip_inject_checkpoint True (Some pb) d s p = (rv, p1)"
    and "ipc_safe (ip_cp p)" and "short_cp d s" and "ip_same q p1"
    and "log_name (o_path (w_input_ob w)) i \<notin> set (cpw_paths cpw)"
    and "o_fh (w_analysis_ob w) \<noteq> Some (log_name (o_path (w_input_ob w)) i)"
  shows "(\<exists>cpr. hs_init_checkpoint_reader (reread num_of) (w_fs w') path = Inr cpr \<and>
      ip_arguments (ip_cp (ip_lookup True q cpr)) = next_arguments d s (ip_arguments (ip_cp p))) \<and>
    queue_log (w_fs w') (w_input_ob w') i = queue_log (w_fs w) (w_input_ob w) i"
proof -
  have "rv = fst (ip_update_checkpoint True d s (ip_cp p))" "ip_cp p1 = snd (ip_update_checkpoint True d s (ip_cp p))"
    using assms(8) by (auto simp: ip_inject_checkpoint_def split: prod.splits)
  then have a: "ip_arguments (ip_cp p1) = next_arguments d s (ip_arguments (ip_cp p))"
    using ip_update_arguments [OF assms(9,10)] by simp
  have "p1 \<in> set (occupied (w_inputs w))" using assms(7) by (simp add: occupied_mem)
  from restart_resumes [OF assms(1-6)] this assms(11) a hs_write_checkpoints_logs(1) [OF assms(2,12,13)]
  show ?thesis by metis
qed

theorem checkpoint_ahead_of_queue_witness:
  "\<exists>w' cpr. hs_write_checkpoints sample_cpw sample_cpw_env sample_world = Inr w' \<and>
     hs_init_checkpoint_reader (reread (\<lambda>t. Some (Fin 0))) (w_fs w') ''o'' = Inr cpr \<and>
     ip_arguments (ip_cp (ip_lookup True sample_input cpr)) = (NaN, Some ''17'') \<and>
     queue_log (w_fs w') (w_input_ob w') 3 = ''wxyz''"
proof -
  let ?p = "sample_input\<lparr>ip_im_delta_cnt := -1, ip_sample := False\<rparr>"
  let ?p1 = "snd (ip_inject_checkpoint True (Some ''m17'') NaN (Some ''17'') ?p)"
  obtain w' where w': "hs_write_checkpoints sample_cpw sample_cpw_env sample_world = Inr w'" by (rule sample_round)
  have st: "storable_table (\<lambda>t. Some (Fin 0)) (we_fmt_17g sample_cpw_env) (w_cpr w')"
    using sample_storable hs_write_checkpoints_result(1) [OF w'] by (simp add: sample_cpw_env_def)
  have d: "prints_whole_numbers (we_fmt_f sample_cpw_env)" "set (cpw_paths sample_cpw) \<inter> set (fs_denied (w_fs sample_world)) = {}"
    by (simp_all add: sample_cpw_env_def prints_whole_numbers_dec sample_world_def)
  have i: "ip_inject_checkpoint True (Some ''m17'') NaN (Some ''17'') ?p = (fst (ip_inject_checkpoint True (Some ''m17'') NaN (Some ''17'') ?p), ?p1)"
    by simp
  have m: "Some ?p1 \<in> set (w_inputs sample_world)" "ipc_safe (ip_cp ?p)" "short_cp NaN (Some ''17'')"
    "ip_same sample_input ?p1" "next_arguments NaN (Some ''17'') (ip_arguments (ip_cp ?p)) = (NaN, Some ''17'')"
    "log_name (o_path (w_input_ob sample_world)) 3 \<notin> set (cpw_paths sample_cpw)"
    "o_fh (w_analysis_ob sample_world) \<noteq> Some (log_name (o_path (w_input_ob sample_world)) 3)"
    "queue_log (w_fs sample_world) (w_input_ob sample_world) 3 = ''wxyz''"
    by code_simp+
  from checkpoint_ahead_of_queue [OF sample_cpw_init w' sample_world_ok d(1) st d(2) m(1) i m(2-4) m(6,7)] m(5,8) w'
  show ?thesis by auto
qed

end
