(* ===== verification/HS_Analysis_Shutdown.thy ===== *)
theory HS_Analysis_Shutdown
  imports HS_Analysis_Plugins
begin

text \<open>
  The end of the analysis threads (\<open>src/hs_analysis_plugins.c\<close>): waiting for every thread and freeing
  them. Joining a thread is running its loop, the turns it still takes are a list of environments;
  the threads, which share the queue they write, are run one after the other.
\<close>

record 'm at_lib =
  atl_scan :: "lsb_input_buffer \<Rightarrow> 'm option \<times> lsb_input_buffer"
  atl_expand :: "lsb_input_buffer \<Rightarrow> u64 \<Rightarrow> lsb_input_buffer option"
  atl_varint :: "nat \<Rightarrow> string"

record at_join_env =
  aj_local :: at_local
  aj_turns :: "at_env list"
  aj_fin :: "nat \<Rightarrow> analysis_env"

fun wait_threads ::
    "'m at_lib \<Rightarrow> hs_config \<Rightarrow> hs_checkpoint_reader \<Rightarrow> at_join_env list \<Rightarrow> hs_analysis_thread list \<Rightarrow>
     queue \<times> bool \<Rightarrow> hs_exit + (hs_analysis_thread list \<times> queue \<times> bool) option" where
  "wait_threads lib cfg cpr jes [] s = Inr (Some ([], s))"
| "wait_threads lib cfg cpr [] (th # ths) s = Inr None"
| "wait_threads lib cfg cpr (je # jes) (th # ths) (q, sigterm) =
     (case at_run (atl_scan lib) (atl_expand lib) (atl_varint lib) cfg cpr (aj_fin je) (aj_turns je)
             (\<lparr>as_at = th, as_queue = q, as_sigterm = sigterm\<rparr>, aj_local je) of
        Inl e \<Rightarrow> Inl e
      | Inr None \<Rightarrow> Inr None
      | Inr (Some s) \<Rightarrow>
          (case wait_threads lib cfg cpr jes ths (as_queue s, as_sigterm s) of
             Inl e \<Rightarrow> Inl e
           | Inr None \<Rightarrow> Inr None
           | Inr (Some (ths', r)) \<Rightarrow> Inr (Some (as_at s # ths', r))))"

text \<open>The queue's file system and backpressure state are given beside the list.\<close>

definition hs_wait_analysis_plugins ::
    "'m at_lib \<Rightarrow> hs_config \<Rightarrow> at_join_env list \<Rightarrow> fsys \<Rightarrow> bp_state \<Rightarrow> hs_analysis_plugins \<Rightarrow>
     hs_exit + (hs_analysis_plugins \<times> fsys \<times> bp_state \<times> bool) option" where
  "hs_wait_analysis_plugins lib cfg jes fs bp aps =
     (case wait_threads lib cfg (aps_cpr aps) jes (aps_list aps) ((fs, aps_output aps, bp), False) of
        Inl e \<Rightarrow> Inl e
      | Inr None \<Rightarrow> Inr None
      | Inr (Some (ths, (fs', ob, bp'), sigterm)) \<Rightarrow>
          Inr (Some (aps\<lparr>aps_list := ths, aps_output := ob\<rparr>, fs', bp', sigterm)))"

definition remove_all_plugins :: "hs_analysis_thread \<Rightarrow> hs_analysis_thread" where
  "remove_all_plugins th =
     fold (\<lambda>i th. case at_list th ! i of None \<Rightarrow> th | Some _ \<Rightarrow> at_remove_plugin i th) [0 ..< length (at_list th)] th"

definition free_analysis_thread :: "(lsb_input_buffer \<Rightarrow> lsb_input_buffer) \<Rightarrow> hs_analysis_thread \<Rightarrow> hs_analysis_thread" where
  "free_analysis_thread free_ib th =
     (remove_all_plugins th)\<lparr>at_list := [], at_cp := \<lparr>cp_id = 0, cp_offset = 0\<rparr>, at_current_t := 0,
        at_list_cnt := 0, at_tid := 0, at_input := hs_free_input free_ib (at_input th)\<rparr>"

definition hs_free_analysis_plugins :: "fsys \<Rightarrow> hs_analysis_plugins \<Rightarrow> fsys \<times> hs_analysis_plugins" where
  "hs_free_analysis_plugins fs aps =
     (case hs_free_output fs (aps_output aps) of
        (fs', ob) \<Rightarrow> (fs', aps\<lparr>aps_list := [], aps_output := ob\<rparr>))"

section \<open>What a thread keeps\<close>

lemma hs_open_file_name: "hs_open_file ok fs hsi d i = Inr (r, hsi') \<Longrightarrow> hsi_name hsi' = hsi_name hsi"
  by (auto simp: hs_open_file_def Let_def split: if_splits option.splits)

lemma hs_read_file_name: "hs_read_file expand fs hsi = Inr (n, hsi') \<Longrightarrow> hsi_name hsi' = hsi_name hsi"
  by (auto simp: hs_read_file_def Let_def split: if_splits option.splits)

lemma skip_missing_name: "skip_missing cfg d env hsi = Inr (r, hsi') \<Longrightarrow> hsi_name hsi' = hsi_name hsi"
  by (auto simp: skip_missing_def split: if_splits sum.splits dest: hs_open_file_name)

lemma at_read_name: "at_read expand cfg env (hsi, l) = Inr (hsi', l') \<Longrightarrow> hsi_name hsi' = hsi_name hsi"
  by (auto simp: at_read_def Let_def split: if_splits sum.splits prod.splits bool.splits
      dest!: hs_open_file_name hs_read_file_name skip_missing_name)

lemma at_await_name: "at_await cfg env cpr (th, l) = Inr (th', l') \<Longrightarrow> hsi_name (at_input th') = hsi_name (at_input th)"
  by (auto simp: at_await_def Let_def split: if_splits sum.splits prod.splits dest!: hs_open_file_name)

lemma at_idle_input: "at_idle varint cfg env sample s = Inr s' \<Longrightarrow> at_input (as_at s') = at_input (as_at s)"
  by (auto simp: at_idle_def at_frame_def dest!: analyze_message_frame split: sum.splits if_splits)

lemma at_turn_name:
  "at_turn scan expand varint cfg cpr env (s, l) = Inr (stop, s', l') \<Longrightarrow>
   hsi_name (at_input (as_at s')) = hsi_name (at_input (as_at s))"
  by (auto simp: at_turn_def Let_def split: if_splits sum.splits option.splits prod.splits
      dest!: at_idle_input at_await_name at_read_name elim!: at_deliver_cases)

lemma shutdown_slot_input:
  "shutdown_slot varint cfg envs i s = Inr s' \<Longrightarrow> at_input (as_at s') = at_input (as_at s) \<and> at_cp (as_at s') = at_cp (as_at s)"
  by (auto simp: shutdown_slot_def Let_def at_remove_plugin_def split: option.splits sum.splits if_splits)

lemma shutdown_timer_input:
  assumes "shutdown_timer_event varint cfg envs s = Inr s'"
  shows "at_input (as_at s') = at_input (as_at s) \<and> at_cp (as_at s') = at_cp (as_at s)"
  using assms unfolding shutdown_timer_event_def
  by (rule fold_exit_invariant) (simp, metis shutdown_slot_input)

lemma at_run_name:
  "at_run scan expand varint cfg cpr fin es sl = Inr (Some s') \<Longrightarrow>
   hsi_name (at_input (as_at s')) = hsi_name (at_input (as_at (fst sl)))"
proof (induction scan expand varint cfg cpr fin es sl rule: at_run.induct)
  case (2 scan expand varint cfg cpr fin e es sl)
  obtain stop s1 l1 where t: "at_turn scan expand varint cfg cpr e (fst sl, snd sl) = Inr (stop, s1, l1)"
    using "2.prems" by (auto split: sum.splits)
  have n: "hsi_name (at_input (as_at s1)) = hsi_name (at_input (as_at (fst sl)))" by (rule at_turn_name [OF t])
  show ?case
  proof (cases stop)
    case True
    then show ?thesis using "2.prems" t n by (auto split: sum.splits dest!: shutdown_timer_input)
  next
    case False
    then show ?thesis using "2.prems" "2.IH" t n by auto
  qed
qed simp

lemma wait_threads_names:
  "wait_threads lib cfg cpr jes ths s = Inr (Some (ths', r)) \<Longrightarrow>
   map (\<lambda>th. hsi_name (at_input th)) ths' = map (\<lambda>th. hsi_name (at_input th)) ths"
  by (induction lib cfg cpr jes ths s arbitrary: ths' r rule: wait_threads.induct)
    (auto split: sum.splits option.splits dest!: at_run_name)

lemma hs_wait_analysis_names:
  "hs_wait_analysis_plugins lib cfg jes fs bp aps = Inr (Some (aps', r)) \<Longrightarrow>
   map (\<lambda>th. hsi_name (at_input th)) (aps_list aps') = map (\<lambda>th. hsi_name (at_input th)) (aps_list aps) \<and>
   aps_cpr aps' = aps_cpr aps"
  by (auto simp: hs_wait_analysis_plugins_def split: sum.splits option.splits dest: wait_threads_names)

text \<open>Told to stop, every thread returns: one turn each is enough.\<close>

lemma wait_threads_returns:
  "length ths \<le> length jes \<Longrightarrow> \<forall>th \<in> set ths. at_stop th \<Longrightarrow> \<forall>je \<in> set jes. aj_turns je \<noteq> [] \<Longrightarrow>
   wait_threads lib cfg cpr jes ths s \<noteq> Inr None"
proof (induction lib cfg cpr jes ths s rule: wait_threads.induct)
  case (3 lib cfg cpr je jes th ths q sigterm)
  let ?r = "at_run (atl_scan lib) (atl_expand lib) (atl_varint lib) cfg cpr (aj_fin je) (aj_turns je)
      (\<lparr>as_at = th, as_queue = q, as_sigterm = sigterm\<rparr>, aj_local je)"
  have r: "?r \<noteq> Inr None" by (rule at_run_stop) (use "3.prems" in simp_all)
  show ?case
  proof (cases ?r)
    case (Inr o')
    then obtain s where s: "?r = Inr (Some s)" using r by (cases o') auto
    then have "wait_threads lib cfg cpr jes ths (as_queue s, as_sigterm s) \<noteq> Inr None"
      using "3.IH" "3.prems" by auto
    with s show ?thesis by (auto split: sum.split option.split)
  qed simp
qed simp_all

lemma hs_wait_analysis_returns:
  assumes "length (aps_list aps) \<le> length jes" and "\<forall>je \<in> set jes. aj_turns je \<noteq> []"
  shows "hs_wait_analysis_plugins lib cfg jes fs bp (hs_stop_analysis_plugins aps) \<noteq> Inr None"
proof -
  have "wait_threads lib cfg (aps_cpr aps) jes (aps_list (hs_stop_analysis_plugins aps)) s \<noteq> Inr None" for s
    by (rule wait_threads_returns) (use assms in \<open>auto simp: hs_stop_analysis_plugins_def\<close>)
  then show ?thesis
    by (auto simp: hs_wait_analysis_plugins_def hs_stop_analysis_plugins_def split: sum.split option.split)
qed

lemma remove_all_empty: "occupied (at_list (remove_all_plugins th)) = []"
proof -
  let ?f = "\<lambda>i th. case at_list th ! i of None \<Rightarrow> th | Some _ \<Rightarrow> at_remove_plugin i th"
  have "length (at_list (fold ?f [0 ..< n] th)) = length (at_list th) \<and>
      (\<forall>i < n. at_list (fold ?f [0 ..< n] th) ! i = None)" if "n \<le> length (at_list th)" for n
    using that
  proof (induction n)
    case (Suc n)
    then have IH: "length (at_list (fold ?f [0 ..< n] th)) = length (at_list th)"
      "\<forall>i < n. at_list (fold ?f [0 ..< n] th) ! i = None" by auto
    show ?case
      using IH Suc.prems
      by (auto simp: at_remove_plugin_def nth_list_update less_Suc_eq split: option.split)
  qed simp
  then have "\<forall>i < length (at_list (remove_all_plugins th)). at_list (remove_all_plugins th) ! i = None"
    by (simp add: remove_all_plugins_def)
  then have "Some x \<notin> set (at_list (remove_all_plugins th))" for x
    by (auto simp: in_set_conv_nth)
  then have "x \<notin> set (occupied (at_list (remove_all_plugins th)))" for x
    unfolding occupied_mem .
  then show ?thesis by (cases "occupied (at_list (remove_all_plugins th))") auto
qed

end
