(* ===== verification/HS_Logger.thy ===== *)
theory HS_Logger
  imports HS_Sandbox
begin

text \<open>
  The logger (\<open>src/hs_logger.c\<close>): the severity filter, the line on standard error, and the error
  file of a plugin under creation, which is how a failed creation tells \<open>hs_is_bad_state\<close> what
  went wrong. The mutex, which keeps the lines whole, is implicit: a call is one step.
\<close>

section \<open>State\<close>

record hs_logger =
  lg_level :: int
  lg_stderr :: string

record hs_log_context =
  lc_output_path :: "string option"
  lc_plugin_name :: "string option"

definition hs_init_log :: "int \<Rightarrow> hs_logger \<Rightarrow> hs_logger" where
  "hs_init_log loglevel lg = lg\<lparr>lg_level := loglevel\<rparr>"

definition hs_get_log_level :: "hs_logger \<Rightarrow> int" where
  "hs_get_log_level lg = lg_level lg"

section \<open>Logging\<close>

definition level_name :: "int \<Rightarrow> string" where
  "level_name severity =
     (if severity = 7 then ''debug'' else if severity = 6 then ''info'' else if severity = 5 then ''notice''
      else if severity = 4 then ''warning'' else if severity = 3 then ''error'' else if severity = 2 then ''crit''
      else if severity = 1 then ''alert'' else if severity = 0 then ''panic'' else ''debug'')"

text \<open>
  The clock is \<open>None\<close> when \<open>clock_gettime\<close> fails; \<open>now\<close> is what \<open>time\<close> returns. The message comes
  formatted.
\<close>

record log_env =
  le_clock :: "(int \<times> int) option"
  le_now :: int
  le_stamp :: string  \<comment> \<open>the time in UTC of \<open>common_termination_err\<close>\<close>

definition log_time :: "log_env \<Rightarrow> int \<times> string" where
  "log_time env =
     (case le_clock env of
        Some (s, ns) \<Rightarrow> (s * 1000000000 + ns, [])
      | None \<Rightarrow> (le_now env * 1000000000,
                 show_int (le_now env * 1000000000) @ '' [error] hs_log clock_gettime failed'' @ [CHR 0x0A]))"

definition log_line :: "int \<Rightarrow> int \<Rightarrow> string option \<Rightarrow> string \<Rightarrow> string" where
  "log_line t severity plugin msg =
     show_int t @ '' ['' @ level_name severity @ ''] '' @
     (case plugin of None \<Rightarrow> ''unnamed'' | Some p \<Rightarrow> p) @ '' '' @ msg @ [CHR 0x0A]"

definition hs_save_termination_err_vfmt ::
    "fsys \<Rightarrow> string \<Rightarrow> string option \<Rightarrow> string option \<Rightarrow> string \<Rightarrow> fsys" where
  "hs_save_termination_err_vfmt fs stamp path name text =
     (case common_termination_err fs stamp path name of
        None \<Rightarrow> fs
      | Some (fn, fs') \<Rightarrow> fs_append fs' fn (text @ [CHR 0x0A]))"

definition hs_log ::
    "log_env \<Rightarrow> hs_log_context option \<Rightarrow> string option \<Rightarrow> int \<Rightarrow> string \<Rightarrow> hs_logger \<times> fsys \<Rightarrow> hs_logger \<times> fsys" where
  "hs_log env context plugin severity msg s =
     (let (lg, fs) = s in
      if severity > lg_level lg then (lg, fs)
      else
        let (t, warn) = log_time env;
            lg1 = lg\<lparr>lg_stderr := lg_stderr lg @ warn @ log_line t severity plugin msg\<rparr>
        in case context of
             None \<Rightarrow> (lg1, fs)
           | Some ctx \<Rightarrow>
               (lg1, if severity < 4 \<and> lc_output_path ctx \<noteq> None
                     then hs_save_termination_err_vfmt fs (le_stamp env) (lc_output_path ctx) (lc_plugin_name ctx) msg
                     else fs))"

lemma hs_log_filtered: "lg_level lg < severity \<Longrightarrow> hs_log env context plugin severity msg (lg, fs) = (lg, fs)"
  by (simp add: hs_log_def)

lemma hs_log_level [simp]: "lg_level (fst (hs_log env context plugin severity msg s)) = lg_level (fst s)"
  by (cases s) (auto simp: hs_log_def Let_def split: prod.split option.split)

lemma hs_save_vfmt_get:
  "get_termination_fn path name = Some fn \<Longrightarrow> fn \<notin> set (fs_denied fs) \<Longrightarrow>
   fs_get (hs_save_termination_err_vfmt fs stamp path name text) = (fs_get fs)(fn \<mapsto> stamp @ text @ [CHR 0x0A])"
  by (simp add: hs_save_termination_err_vfmt_def common_termination_err_def fopen_we_def fs_append_get)

text \<open>The two ways a plugin's error gets into its error file write the same text.\<close>

lemma hs_save_vfmt_eq: "hs_save_termination_err_vfmt fs stamp path name text = hs_save_termination_err fs stamp path name (Some text)"
  by (simp add: hs_save_termination_err_vfmt_def hs_save_termination_err_def)

section \<open>Recovering from a broken state file\<close>

text \<open>
  A creation that fails and tells its caller only through the logger, as the sandbox library does,
  with the context of the plugin under creation.
\<close>

definition fails_with_log ::
    "sandbox_lib \<Rightarrow> log_env \<Rightarrow> hs_logger \<Rightarrow> char \<Rightarrow> fsys \<Rightarrow> string option \<Rightarrow> string \<Rightarrow> string \<Rightarrow> string option \<Rightarrow>
     string \<Rightarrow> string \<Rightarrow> bool" where
  "fails_with_log lib env lg type fs run_path name lua_file state_file text msg \<longleftrightarrow>
     sl_create lib type fs lua_file state_file text =
       (False, snd (hs_log env (Some \<lparr>lc_output_path = run_path, lc_plugin_name = Some name\<rparr>) (Some name) 3 msg (lg, fs)))"

section \<open>Property\<close>

text \<open>A sandbox that cannot be created because its preserved state is broken is created again without
  that state only when errors are logged: the reason travels through the error file, which a log
  level below 3 suppresses, and the missing file is then dereferenced.\<close>

theorem recovery_needs_log_level:
  assumes "fails_with_log lib env lg type fs run_path name lua_file state_file text msg"
    and "get_termination_fn run_path (Some name) = Some fn" and "fn \<notin> set (fs_denied fs)" and "fs_get fs fn = None"
    and "lua_read_file (sl_lua lib) = fs_get"
  shows "(lg_level lg < 3 \<longrightarrow>
      create_sandbox lib type fs run_path name lua_file state_file text = Inl Undefined_behaviour) \<and>
    (3 \<le> lg_level lg \<longrightarrow> no_nul (le_stamp env @ msg) \<longrightarrow> (\<exists>pre suf. msg = pre @ ''restore_global_data'' @ suf) \<longrightarrow>
      (\<exists>fs2. create_sandbox lib type fs run_path name lua_file state_file text =
               Inr (sl_create lib type fs2 lua_file state_file text) \<and>
         fs_get fs2 fn = None \<and> (\<forall>st. state_file = Some st \<longrightarrow> st \<notin> set (fs_denied fs) \<longrightarrow> fs_get fs2 st = None)))"
proof (intro conjI impI)
  assume "lg_level lg < 3"
  then have "sl_create lib type fs lua_file state_file text = (False, fs)"
    using assms(1) by (simp add: fails_with_log_def hs_log_filtered)
  then show "create_sandbox lib type fs run_path name lua_file state_file text = Inl Undefined_behaviour"
    using assms(2,4,5) by (simp add: create_sandbox_def hs_is_bad_state_def)
next
  assume lv: "3 \<le> lg_level lg" and nn: "no_nul (le_stamp env @ msg)"
    and "\<exists>pre suf. msg = pre @ ''restore_global_data'' @ suf"
  then obtain pre suf where m: "msg = pre @ ''restore_global_data'' @ suf" by blast
  let ?fs1 = "hs_save_termination_err_vfmt fs (le_stamp env) run_path (Some name) msg"
  let ?em = "le_stamp env @ msg @ [CHR 0x0A]"
  obtain rp where rp: "run_path = Some rp" using assms(2) by (auto simp: get_termination_fn_def split: option.splits)
  have create: "sl_create lib type fs lua_file state_file text = (False, ?fs1)"
    using assms(1) lv rp by (simp add: fails_with_log_def hs_log_def Let_def split: prod.split)
  have em: "fs_get ?fs1 fn = Some ?em" using hs_save_vfmt_get [OF assms(2,3)] by simp
  have d: "fs_denied ?fs1 = fs_denied fs"
    by (auto simp: hs_save_termination_err_vfmt_def common_termination_err_def fopen_we_def split: option.splits if_splits)
  have "no_nul ?em" using nn by (simp add: no_nul_def)
  moreover have "?em = (le_stamp env @ pre) @ ''restore_global_data'' @ (suf @ [CHR 0x0A])" by (simp add: m)
  then have "strstr ?em ''restore_global_data'' \<noteq> None" unfolding strstr_None by blast
  ultimately obtain u where u: "strstr (c_str ?em) ''restore_global_data'' = Some u" by auto
  let ?a = "snd (unlink ?fs1 fn)"
  let ?fs2 = "case state_file of None \<Rightarrow> ?a | Some st \<Rightarrow> snd (unlink ?a st)"
  have a: "fs_get ?a fn = None" "fs_denied ?a = fs_denied fs"
    using em assms(3) d by (simp_all add: unlink_def)
  have "create_sandbox lib type fs run_path name lua_file state_file text =
      Inr (sl_create lib type ?fs2 lua_file state_file text)"
    using create em u assms(2,5) by (simp add: create_sandbox_def hs_is_bad_state_def Let_def)
  moreover have "fs_get ?fs2 fn = None" using a by (auto simp: unlink_def split: option.split)
  moreover have "fs_get ?fs2 st = None" if "state_file = Some st" "st \<notin> set (fs_denied fs)" for st
    using that a by (auto simp: unlink_def split: option.split)
  ultimately show "\<exists>fs2. create_sandbox lib type fs run_path name lua_file state_file text =
        Inr (sl_create lib type fs2 lua_file state_file text) \<and>
      fs_get fs2 fn = None \<and> (\<forall>st. state_file = Some st \<longrightarrow> st \<notin> set (fs_denied fs) \<longrightarrow> fs_get fs2 st = None)"
    by blast
qed

text \<open>A sandbox that only starts without its state file.\<close>

definition picky_lib :: "log_env \<Rightarrow> hs_logger \<Rightarrow> sandbox_lib" where
  "picky_lib env lg =
     \<lparr>sl_lua = \<lparr>lua_read_file = fs_get, lua_run = \<lambda>_. Inl ''error'', lua_num_str = \<lambda>_. [], lua_stamp = []\<rparr>,
      sl_matcher_ok = \<lambda>_. True, sl_emit = \<lambda>n s. (s, True),
      sl_create = \<lambda>type fs lua state text.
        if fs_get fs ''o/x.data'' = None then (True, fs)
        else (False, snd (hs_log env (Some \<lparr>lc_output_path = Some ''r'', lc_plugin_name = Some ''input.x''\<rparr>)
               (Some ''input.x'') 3 ''lsb_init restore_global_data failed'' (lg, fs))),
      sl_init_ib = \<lambda>n. \<lparr>ib_buf = [], ib_size = 0, ib_msglen = 0, ib_scanpos = 0, ib_readpos = 0\<rparr>,
      sl_log_level = lg_level lg, sl_now = 0, sl_rnd = 0\<rparr>"

theorem recovery_needs_log_level_witness:
  "create_sandbox (picky_lib \<lparr>le_clock = Some (1, 2), le_now = 1, le_stamp = []\<rparr> \<lparr>lg_level = 2, lg_stderr = []\<rparr>) (CHR ''i'')
     \<lparr>fs_files = [(''o/x.data'', ''broken'')], fs_dirs = [''r/input''], fs_denied = []\<rparr> (Some ''r'') ''input.x'' ''x.lua''
     (Some ''o/x.data'') [] = Inl Undefined_behaviour"
proof -
  let ?env = "\<lparr>le_clock = Some (1, 2), le_now = 1, le_stamp = []\<rparr>" and ?lg = "\<lparr>lg_level = 2, lg_stderr = []\<rparr>"
  let ?fs = "\<lparr>fs_files = [(''o/x.data'', ''broken'')], fs_dirs = [''r/input''], fs_denied = []\<rparr>"
  have "fails_with_log (picky_lib ?env ?lg) ?env ?lg (CHR ''i'') ?fs (Some ''r'') ''input.x'' ''x.lua'' (Some ''o/x.data'') []
      ''lsb_init restore_global_data failed''"
    by (simp add: fails_with_log_def picky_lib_def fs_get_def)
  moreover have "get_termination_fn (Some ''r'') (Some ''input.x'') = Some ''r/input/x.err''" by code_simp
  ultimately show ?thesis
    using recovery_needs_log_level [of "picky_lib ?env ?lg" ?env ?lg "CHR ''i''" ?fs "Some ''r''" "''input.x''" "''x.lua''"
        "Some ''o/x.data''" "[]" "''lsb_init restore_global_data failed''" "''r/input/x.err''"]
    by (simp add: picky_lib_def fs_get_def)
qed

end
