(* ===== verification/HS_Output_Inject.thy ===== *)
theory HS_Output_Inject
  imports HS_Input_Thread
begin

text \<open>
  An output plugin may inject messages too, into the queue the input plugins write: its
  \<open>inject_message\<close> in \<open>src/hs_output_plugins.c\<close>. The two kinds of plugin share the file and its
  position, and have a backpressure flag each, since the flag is a static variable of each of the
  two functions.
\<close>

section \<open>The callback\<close>

definition op_inject ::
    "(nat \<Rightarrow> string) \<Rightarrow> hs_config \<Rightarrow> im_env \<times> string \<Rightarrow> queue \<Rightarrow> hs_exit + (im_result \<times> queue)" where
  "op_inject varint cfg m q =
     (case (m, q) of
        ((env, pb), (fs, ob, bp)) \<Rightarrow>
          (case queue_message varint cfg env pb fs ob bp of Inl e \<Rightarrow> Inl e | Inr q' \<Rightarrow> Inr (IM_Success, q')))"

definition op_injects ::
    "(nat \<Rightarrow> string) \<Rightarrow> hs_config \<Rightarrow> (im_env \<times> string) list \<Rightarrow> queue \<Rightarrow> hs_exit + queue" where
  "op_injects varint cfg =
     fold_exit (\<lambda>m q. case op_inject varint cfg m q of Inl e \<Rightarrow> Inl e | Inr (_, q') \<Rightarrow> Inr q')"

section \<open>Both kinds of writer\<close>

datatype queue_user = Input_plugin | Output_plugin

text \<open>The queue with the flag of the input plugins, then that of the output plugins.\<close>

type_synonym shared_queue = "fsys \<times> hs_output \<times> bp_state \<times> bp_state"

definition shared_put ::
    "(nat \<Rightarrow> string) \<Rightarrow> hs_config \<Rightarrow> shared_queue \<Rightarrow> queue_user \<times> im_env \<times> string \<Rightarrow> shared_queue option" where
  "shared_put varint cfg q m =
     (case (q, m) of
        ((fs, ob, ibp, obp), (Input_plugin, env, pb)) \<Rightarrow>
          (case ip_inject_queue varint cfg env IM_Success (Some pb) (fs, ob, ibp) of
             Inl _ \<Rightarrow> None
           | Inr (fs', ob', ibp') \<Rightarrow> Some (fs', ob', ibp', obp))
      | ((fs, ob, ibp, obp), (Output_plugin, env, pb)) \<Rightarrow>
          (case op_inject varint cfg (env, pb) (fs, ob, obp) of
             Inl _ \<Rightarrow> None
           | Inr (_, fs', ob', obp') \<Rightarrow> Some (fs', ob', ibp, obp')))"

definition shared_inv :: "(nat \<Rightarrow> string) \<Rightarrow> nat \<Rightarrow> shared_queue \<Rightarrow> bool" where
  "shared_inv varint base q = (case q of (fs, ob, ibp, obp) \<Rightarrow> queue_inv varint base (fs, ob, ibp))"

definition shared_contents :: "nat \<Rightarrow> shared_queue \<Rightarrow> string" where
  "shared_contents base q = (case q of (fs, ob, ibp, obp) \<Rightarrow> queue_stream base fs ob)"

definition shared_fits :: "(nat \<Rightarrow> string) \<Rightarrow> shared_queue \<Rightarrow> queue_user \<times> im_env \<times> string \<Rightarrow> bool" where
  "shared_fits varint q m = (case q of (fs, ob, ibp, obp) \<Rightarrow> message_fits varint fs ob (snd (snd m)))"

definition shared_enc :: "(nat \<Rightarrow> string) \<Rightarrow> queue_user \<times> im_env \<times> string \<Rightarrow> string" where
  "shared_enc varint m = message_frame varint (snd (snd m))"

lemma shared_put_queue:
  assumes "shared_put varint cfg (fs, ob, ibp, obp) m = Some (fs', ob', ibp', obp')"
  shows "\<exists>bp bp'. queue_put varint cfg (fs, ob, bp) (snd m) = Some (fs', ob', bp')"
proof -
  obtain who env pb where m: "m = (who, env, pb)" by (cases m)
  obtain bp bp' where "queue_message varint cfg env pb fs ob bp = Inr (fs', ob', bp')"
    using assms by (cases who) (auto simp: m shared_put_def ip_inject_queue_def op_inject_def split: sum.splits)
  then have "queue_put varint cfg (fs, ob, bp) (snd m) = Some (fs', ob', bp')" by (simp add: m queue_put_def)
  then show ?thesis by blast
qed

interpretation shared_writer: append_log "shared_put varint cfg" "shared_contents base"
    "shared_enc varint" "shared_inv varint base" "shared_fits varint"
  for varint :: "nat \<Rightarrow> string" and cfg :: hs_config and base :: nat
proof
  fix s m s'
  assume i: "shared_inv varint base s" and f: "shared_fits varint s m" and p: "shared_put varint cfg s m = Some s'"
  obtain fs ob ibp obp fs' ob' ibp' obp' where e: "s = (fs, ob, ibp, obp)" "s' = (fs', ob', ibp', obp')"
    by (metis prod.exhaust)
  from shared_put_queue [OF p [unfolded e]] obtain bp bp' where
    q: "queue_put varint cfg (fs, ob, bp) (snd m) = Some (fs', ob', bp')" by blast
  have h: "queue_inv varint base (fs, ob, bp)" "queue_fits varint (fs, ob, bp) (snd m)"
    using i f by (simp_all add: e shared_inv_def shared_fits_def queue_fits_def queue_inv_def)
  show "shared_inv varint base s'"
    using queue_writer.put_inv [OF h q] by (simp add: e shared_inv_def queue_inv_def)
  show "shared_contents base s' = shared_contents base s @ shared_enc varint m"
    using queue_writer.put_contents [OF h q] by (simp add: e shared_contents_def shared_enc_def queue_contents_def queue_enc_def)
qed

section \<open>A sample\<close>

definition shared_fs :: fsys where
  "shared_fs = \<lparr>fs_files = [(''o/3.log'', [])], fs_dirs = [''o''], fs_denied = []\<rparr>"

definition shared_ob :: hs_output where
  "shared_ob = \<lparr>o_fh = Some ''o/3.log'', o_buf = [], o_path = ''o'', o_min_cp_id = 2, o_cp = \<lparr>cp_id = 3, cp_offset = 0\<rparr>\<rparr>"

definition shared_env :: im_env where
  "shared_env = \<lparr>env_write = True, env_statfs_roll = None, env_statfs_release = None, env_time1 = 0, env_time2 = 0\<rparr>"

definition bp_off :: bp_state where
  "bp_off = \<lparr>bp_last_check = 0, bp_on = False\<rparr>"

section \<open>Properties\<close>

text \<open>C21: input and output plugins share one queue: however their messages interleave, the queue grows
  by whole messages in the order they were accepted, across the files it rolls to.\<close>

theorem shared_queue_in_order:
  assumes "output_ok fs ob" and "varint_ok varint" and "base \<le> unat (cp_id (o_cp ob))"
    and "shared_writer.fit_all varint cfg (fs, ob, ibp, obp) ms"
    and "shared_writer.put_all varint cfg (fs, ob, ibp, obp) ms = Some (fs', ob', ibp', obp')"
  shows "output_ok fs' ob' \<and>
    queue_stream base fs' ob' = queue_stream base fs ob @ concat (map (\<lambda>(who, env, pb). message_frame varint pb) ms)"
proof -
  have "shared_inv varint base (fs, ob, ibp, obp)" using assms(1-3) by (simp add: shared_inv_def queue_inv_def)
  from shared_writer.put_all_contents [OF this assms(4,5)]
  have "shared_inv varint base (fs', ob', ibp', obp')"
    "queue_stream base fs' ob' = queue_stream base fs ob @ concat (map (shared_enc varint) ms)"
    by (simp_all add: shared_contents_def)
  moreover have "map (shared_enc varint) ms = map (\<lambda>(who, env, pb). message_frame varint pb) ms"
    by (auto simp: shared_enc_def)
  ultimately show ?thesis by (simp add: shared_inv_def queue_inv_def)
qed

theorem shared_queue_in_order_witness:
  "\<exists>fs' ob' ibp' obp'. shared_writer.put_all (\<lambda>n. [char_of n]) ((init_config 1)\<lparr>cfg_output_size := 6\<rparr>)
      (shared_fs, shared_ob, bp_off, bp_off) [(Output_plugin, shared_env, ''a''), (Input_plugin, shared_env, ''b'')] =
        Some (fs', ob', ibp', obp') \<and>
      queue_stream 3 fs' ob' =
        [CHR 0x1E, CHR 0x02, CHR 0x08, CHR 0x01, CHR 0x1F, CHR ''a'',
         CHR 0x1E, CHR 0x02, CHR 0x08, CHR 0x01, CHR 0x1F, CHR ''b'']"
proof -
  let ?v = "\<lambda>n. [char_of n]" and ?cfg = "(init_config 1)\<lparr>cfg_output_size := 6\<rparr>"
  let ?q = "(shared_fs, shared_ob, bp_off, bp_off)"
  let ?m1 = "(Output_plugin, shared_env, ''a'')" and ?m2 = "(Input_plugin, shared_env, ''b'')"
  have "case shared_put ?v ?cfg ?q ?m1 of None \<Rightarrow> False
      | Some q1 \<Rightarrow> shared_fits ?v q1 ?m2 \<and> (case shared_put ?v ?cfg q1 ?m2 of None \<Rightarrow> False | Some q2 \<Rightarrow> True)"
    by code_simp
  then obtain q1 q2 where p: "shared_put ?v ?cfg ?q ?m1 = Some q1" "shared_put ?v ?cfg q1 ?m2 = Some q2"
    and f2: "shared_fits ?v q1 ?m2" by (auto split: option.splits)
  obtain fs' ob' ibp' obp' where q2: "q2 = (fs', ob', ibp', obp')" by (cases q2)
  have f1: "shared_fits ?v ?q ?m1" by code_simp
  have ok: "output_ok shared_fs shared_ob"
    using output_ok_single [OF log_name_o3, of "[]" "[''o'']" "[]" "[]" 2] by (simp add: shared_fs_def shared_ob_def)
  have v: "varint_ok ?v" "3 \<le> unat (cp_id (o_cp shared_ob))" by (simp_all add: varint_ok_def shared_ob_def)
  have fit: "shared_writer.fit_all ?v ?cfg ?q [?m1, ?m2]"
    by (simp only: shared_writer.fit_all.simps option.case p f1 f2 simp_thms)
  have run: "shared_writer.put_all ?v ?cfg ?q [?m1, ?m2] = Some (fs', ob', ibp', obp')"
    by (simp only: shared_writer.put_all.simps option.case p q2)
  have "queue_stream 3 shared_fs shared_ob = []"
    "message_frame ?v ''a'' = [CHR 0x1E, CHR 0x02, CHR 0x08, CHR 0x01, CHR 0x1F, CHR ''a'']"
    "message_frame ?v ''b'' = [CHR 0x1E, CHR 0x02, CHR 0x08, CHR 0x01, CHR 0x1F, CHR ''b'']"
    by code_simp+
  with shared_queue_in_order [OF ok v fit run] run show ?thesis by auto
qed

text \<open>C22: the flag an output plugin's message sets does not slow the input plugins: when such a message
  takes the queue more than \<open>backpressure\<close> files ahead of its slowest reader, the input plugins
  go on unthrottled until one of their own messages rolls the file.\<close>

theorem output_roll_hides_lag:
  assumes "op_inject varint cfg (env, pb) (fs, ob, obp) = Inr (r, fs', ob', obp')"
    and "cp_id (o_cp ob') \<noteq> cp_id (o_cp ob)"
    and "cfg_backpressure cfg \<noteq> 0" and "cp_id (o_cp ob') - o_min_cp_id ob' > ucast (cfg_backpressure cfg)"
    and "cp_id (o_cp ob') \<noteq> o_min_cp_id ob'" and "\<not> bp_on ibp"
    and "ip_inject_queue varint cfg ienv IM_Success (Some m) (fs', ob', ibp) = Inr (fs2, ob2, ibp2)"
    and "cp_id (o_cp ob2) = cp_id (o_cp ob')"
  shows "bp_on obp' \<and> \<not> bp_on ibp2 \<and> \<not> lag_ok cfg ob2 ibp2"
proof -
  have q1: "queue_message varint cfg env pb fs ob obp = Inr (fs', ob', obp')"
    using assms(1) by (auto simp: op_inject_def split: sum.splits)
  have q2: "queue_message varint cfg ienv m fs' ob' ibp = Inr (fs2, ob2, ibp2)"
    using assms(7) by (simp add: ip_inject_queue_def)
  obtain bp where b: "obp' = release_backpressure cfg env ob' bp" "bp = roll_backpressure cfg env ob' obp"
    using queue_message_bp [OF q1] assms(2) by blast
  have "bp_on bp" using b(2) assms(3,4) by (simp add: roll_backpressure_def Let_def)
  then have on: "bp_on obp'" using b(1) release_backpressure_on [of bp cfg env ob'] assms(5) by auto
  obtain bp2 where b2: "ibp2 = release_backpressure cfg ienv ob2 bp2" "o_min_cp_id ob2 = o_min_cp_id ob'"
    "bp2 = ibp \<and> cp_id (o_cp ob2) = cp_id (o_cp ob') \<or>
     bp2 = roll_backpressure cfg ienv ob2 ibp \<and> cp_id (o_cp ob2) = cp_id (o_cp ob') + 1"
    using queue_message_bp [OF q2] by blast
  have "bp2 = ibp" using b2(3) assms(8) by simp
  then have off: "\<not> bp_on ibp2" using release_backpressure_cases [OF b2(1) [symmetric]] assms(6) by blast
  with assms(3,4,8) on b2(2) show ?thesis by (simp add: lag_ok_def)
qed

theorem output_roll_hides_lag_witness:
  "let cfg = (init_config 1)\<lparr>cfg_output_size := 12, cfg_backpressure := 1, cfg_backpressure_df := 0\<rparr>
   in \<exists>fs' ob' obp' fs2 ob2 ibp2.
        op_inject (\<lambda>n. [char_of n]) cfg (shared_env, ''abcdefgh'') (shared_fs, shared_ob, bp_off) =
          Inr (IM_Success, fs', ob', obp') \<and>
        ip_inject_queue (\<lambda>n. [char_of n]) cfg shared_env IM_Success (Some ''a'') (fs', ob', bp_off) = Inr (fs2, ob2, ibp2) \<and>
        bp_on obp' \<and> \<not> bp_on ibp2 \<and> \<not> lag_ok cfg ob2 ibp2"
proof -
  let ?v = "\<lambda>n. [char_of n]"
  let ?cfg = "(init_config 1)\<lparr>cfg_output_size := 12, cfg_backpressure := 1, cfg_backpressure_df := 0\<rparr>"
  have "case op_inject ?v ?cfg (shared_env, ''abcdefgh'') (shared_fs, shared_ob, bp_off) of Inl _ \<Rightarrow> False
      | Inr (r, fs', ob', obp') \<Rightarrow> r = IM_Success \<and> cp_id (o_cp ob') \<noteq> cp_id (o_cp shared_ob) \<and>
          cp_id (o_cp ob') - o_min_cp_id ob' > ucast (cfg_backpressure ?cfg) \<and> cp_id (o_cp ob') \<noteq> o_min_cp_id ob' \<and>
          (case ip_inject_queue ?v ?cfg shared_env IM_Success (Some ''a'') (fs', ob', bp_off) of Inl _ \<Rightarrow> False
           | Inr (fs2, ob2, ibp2) \<Rightarrow> cp_id (o_cp ob2) = cp_id (o_cp ob'))"
    by code_simp
  then obtain fs' ob' obp' fs2 ob2 ibp2 where
    o: "op_inject ?v ?cfg (shared_env, ''abcdefgh'') (shared_fs, shared_ob, bp_off) = Inr (IM_Success, fs', ob', obp')"
    and h: "cp_id (o_cp ob') \<noteq> cp_id (o_cp shared_ob)" "cp_id (o_cp ob') - o_min_cp_id ob' > ucast (cfg_backpressure ?cfg)"
      "cp_id (o_cp ob') \<noteq> o_min_cp_id ob'"
    and i: "ip_inject_queue ?v ?cfg shared_env IM_Success (Some ''a'') (fs', ob', bp_off) = Inr (fs2, ob2, ibp2)"
      "cp_id (o_cp ob2) = cp_id (o_cp ob')"
    by (auto split: sum.splits)
  have c: "cfg_backpressure ?cfg \<noteq> 0" "\<not> bp_on bp_off" by (simp_all add: bp_off_def)
  from output_roll_hides_lag [OF o h(1) c(1) h(2,3) c(2) i] o i(1) show ?thesis
    unfolding Let_def by blast
qed

end
