(* ===== verification/HS_Main.thy ===== *)
theory HS_Main
  imports HS_Restart HS_Analysis_Shutdown HS_Logger HS_Output_Inject
begin

text \<open>
  The process (\<open>src/hindsight.c\<close>): its arguments, the order its parts start in, the loop that writes
  the checkpoints once a second and loads what arrives in the load directories, the signals, and the
  shutdown. The variant built as \<open>HINDSIGHT_CLI\<close> is in \<open>HS_Cli\<close>; the log lines are left out.

  The threads run while the main thread waits: what they did until it wakes up is a function of
  its environment, and so is a signal that arrived.
\<close>

section \<open>Arguments and signals\<close>

text \<open>\<open>atoi\<close>, in the range of an \<open>int\<close>.\<close>

definition atoi :: "string \<Rightarrow> int" where
  "atoi s =
     (let t = dropWhile isspace s;
          neg = (t \<noteq> [] \<and> hd t = CHR ''-'');
          u = (if t \<noteq> [] \<and> (hd t = CHR ''-'' \<or> hd t = CHR ''+'') then tl t else t);
          n = int (digits_value 0 u)
      in if neg then - n else n)"

text \<open>The log level of the arguments after the program's name, \<open>None\<close> for the usage error.\<close>

definition arg_loglevel :: "string list \<Rightarrow> int option" where
  "arg_loglevel args =
     (case args of
        [cfg] \<Rightarrow> Some 6
      | [cfg, l] \<Rightarrow> Some (if atoi l < 0 \<or> atoi l > 7 then 6 else atoi l)
      | _ \<Rightarrow> None)"

datatype signal = SIGINT | SIGTERM | Unexpected

text \<open>The handler's thread posts the semaphore for the first of the two signals and ends.\<close>

fun sig_handler :: "signal list \<Rightarrow> int \<Rightarrow> int" where
  "sig_handler [] sem = sem"
| "sig_handler (SIGINT # sigs) sem = sem + 1"
| "sig_handler (SIGTERM # sigs) sem = sem + 1"
| "sig_handler (Unexpected # sigs) sem = sig_handler sigs sem"

lemma arg_loglevel_range: "arg_loglevel args = Some l \<Longrightarrow> 0 \<le> l \<and> l \<le> 7"
  by (auto simp: arg_loglevel_def split: list.splits if_splits)

lemma sig_handler_posts:
  "sig_handler sigs sem = (if SIGINT \<in> set sigs \<or> SIGTERM \<in> set sigs then sem + 1 else sem)"
  by (induction sigs sem rule: sig_handler.induct) auto

section \<open>The state of the process\<close>

record 'm main_lib =
  ml_sandbox :: sandbox_lib
  ml_thread :: "'m thread_lib"
  ml_at :: "'m at_lib"
  ml_varint :: "nat \<Rightarrow> string"
  ml_toint :: "lua_number \<Rightarrow> int"
  ml_cp_run :: "string \<Rightarrow> (string \<times> lua_value) list option"
  ml_malloc_ok :: bool

record 'm hs_process =
  pr_world :: "'m cp_world"
  pr_input_bp :: bp_state
  pr_analysis_bp :: bp_state
  pr_output_bp :: bp_state  \<comment> \<open>of the output plugins, on the input queue\<close>
  pr_input_cnt :: int
  pr_output_cnt :: int
  pr_shutdown :: int  \<comment> \<open>the semaphore\<close>

text \<open>The plugin lists as their own operations see them; they share the table and the files.\<close>

definition process_inputs :: "'m hs_process \<Rightarrow> hs_input_plugins" where
  "process_inputs pr =
     (let w = pr_world pr in
      \<lparr>ips_list = w_inputs w, ips_cpr = w_cpr w, ips_output = (w_fs w, w_input_ob w, pr_input_bp pr),
       ips_list_cnt = pr_input_cnt pr\<rparr>)"

definition set_inputs :: "hs_input_plugins \<Rightarrow> 'm hs_process \<Rightarrow> 'm hs_process" where
  "set_inputs ips pr =
     (case ips_output ips of
        (fs, ob, bp) \<Rightarrow>
          pr\<lparr>pr_world := (pr_world pr)\<lparr>w_fs := fs, w_cpr := ips_cpr ips, w_inputs := ips_list ips, w_input_ob := ob\<rparr>,
             pr_input_bp := bp, pr_input_cnt := ips_list_cnt ips\<rparr>)"

definition process_analysis :: "'m hs_process \<Rightarrow> hs_analysis_plugins" where
  "process_analysis pr =
     (let w = pr_world pr in \<lparr>aps_list = w_threads w, aps_cpr = w_cpr w, aps_output = w_analysis_ob w\<rparr>)"

definition set_analysis :: "fsys \<Rightarrow> bp_state \<Rightarrow> hs_analysis_plugins \<Rightarrow> 'm hs_process \<Rightarrow> 'm hs_process" where
  "set_analysis fs bp aps pr =
     pr\<lparr>pr_world := (pr_world pr)\<lparr>w_fs := fs, w_cpr := aps_cpr aps, w_threads := aps_list aps, w_analysis_ob := aps_output aps\<rparr>,
        pr_analysis_bp := bp\<rparr>"

definition process_outputs :: "'m hs_process \<Rightarrow> 'm hs_output_plugins" where
  "process_outputs pr =
     (let w = pr_world pr in \<lparr>ops_list = w_outputs w, ops_cpr = w_cpr w, ops_list_cnt = pr_output_cnt pr\<rparr>)"

definition set_outputs :: "fsys \<Rightarrow> 'm hs_output_plugins \<Rightarrow> 'm hs_process \<Rightarrow> 'm hs_process" where
  "set_outputs fs ops pr =
     pr\<lparr>pr_world := (pr_world pr)\<lparr>w_fs := fs, w_cpr := ops_cpr ops, w_outputs := ops_list ops\<rparr>,
        pr_output_cnt := ops_list_cnt ops\<rparr>"

section \<open>Starting\<close>

text \<open>With a load path, its three directories must exist.\<close>

definition watches_ok :: "hs_config \<Rightarrow> fsys \<Rightarrow> bool" where
  "watches_ok cfg fs \<longleftrightarrow>
     str_of (cfg_load_path cfg) \<noteq> [] \<longrightarrow>
       str_of (cfg_load_path_input cfg) \<in> set (fs_dirs fs) \<and>
       str_of (cfg_load_path_analysis cfg) \<in> set (fs_dirs fs) \<and>
       str_of (cfg_load_path_output cfg) \<in> set (fs_dirs fs)"

definition start_checkpoints :: "'m main_lib \<Rightarrow> hs_config \<Rightarrow> fsys \<Rightarrow> hs_exit + hs_checkpoint_reader" where
  "start_checkpoints lib cfg fs =
     (case hs_init_checkpoint_reader (ml_cp_run lib) fs (str_of (cfg_output_path cfg)) of
        Inl e \<Rightarrow> Inl e
      | Inr cpr \<Rightarrow> hs_cleanup_checkpoints fs cpr (str_of (cfg_run_path cfg)) (cfg_analysis_threads cfg))"

definition start_inputs :: "'m main_lib \<Rightarrow> hs_config \<Rightarrow> fsys \<Rightarrow> hs_checkpoint_reader \<Rightarrow> hs_exit + hs_input_plugins" where
  "start_inputs lib cfg fs cpr =
     (case hs_init_output fs (str_of (cfg_output_path cfg)) hs_input_dir of
        Inl e \<Rightarrow> Inl e
      | Inr (fs1, ob) \<Rightarrow>
          hs_load_input_startup (ml_sandbox lib) (ml_malloc_ok lib) cfg
            (hs_init_input_plugins cpr (fs1, ob, \<lparr>bp_last_check = 0, bp_on = False\<rparr>)))"

definition start_analysis ::
    "'m main_lib \<Rightarrow> hs_config \<Rightarrow> fsys \<Rightarrow> hs_checkpoint_reader \<Rightarrow> hs_exit + (fsys \<times> hs_analysis_plugins)" where
  "start_analysis lib cfg fs cpr =
     (case hs_init_analysis_plugins (sl_init_ib (ml_sandbox lib)) cfg cpr fs of
        Inl e \<Rightarrow> Inl e
      | Inr (fs1, aps) \<Rightarrow>
          (case hs_load_analysis_startup (ml_sandbox lib) (ml_toint lib) cfg fs1 aps of
             Inl e \<Rightarrow> Inl e
           | Inr (fs2, aps1) \<Rightarrow>
               (case hs_start_analysis_threads fs2 cfg aps1 of Inl e \<Rightarrow> Inl e | Inr aps2 \<Rightarrow> Inr (fs2, aps2))))"

definition hs_startup :: "'m main_lib \<Rightarrow> hs_config \<Rightarrow> fsys \<Rightarrow> hs_exit + (hs_checkpoint_writer \<times> 'm hs_process)" where
  "hs_startup lib cfg fs =
     (case start_checkpoints lib cfg fs of
        Inl e \<Rightarrow> Inl e
      | Inr cpr \<Rightarrow>
     (case start_inputs lib cfg fs cpr of
        Inl e \<Rightarrow> Inl e
      | Inr ips \<Rightarrow>
     (case start_analysis lib cfg (ips_fs ips) (ips_cpr ips) of
        Inl e \<Rightarrow> Inl e
      | Inr (fs2, aps) \<Rightarrow>
     (case hs_load_output_startup (ml_sandbox lib) cfg fs2 (hs_init_output_plugins (aps_cpr aps)) of
        Inl e \<Rightarrow> Inl e
      | Inr (fs3, ops) \<Rightarrow>
     (case hs_init_checkpoint_writer (str_of (cfg_output_path cfg)) of
        Inl e \<Rightarrow> Inl e
      | Inr cpw \<Rightarrow>
          Inr (cpw,
            \<lparr>pr_world = \<lparr>w_fs = fs3, w_cpr = ops_cpr ops, w_inputs = ips_list ips, w_input_ob = fst (snd (ips_output ips)),
                         w_threads = aps_list aps, w_analysis_ob = aps_output aps, w_outputs = ops_list ops,
                         w_info = init_checkpoint_info\<rparr>,
             pr_input_bp = snd (snd (ips_output ips)), pr_analysis_bp = \<lparr>bp_last_check = 0, bp_on = False\<rparr>,
             pr_output_bp = \<lparr>bp_last_check = 0, bp_on = False\<rparr>,
             pr_input_cnt = ips_list_cnt ips, pr_output_cnt = ops_list_cnt ops, pr_shutdown = 0\<rparr>))))))"

section \<open>The loop\<close>

datatype watch = Watch_input | Watch_analysis | Watch_output

record load_event =
  ev_watch :: watch
  ev_name :: string
  ev_input_join :: ip_join_env
  ev_output_join :: join_env

text \<open>A file that arrived in a load directory; \<open>None\<close> when the loop is stuck joining a thread.\<close>

definition load_event ::
    "'m main_lib \<Rightarrow> hs_config \<Rightarrow> load_event \<Rightarrow> 'm hs_process \<Rightarrow> hs_exit + 'm hs_process option" where
  "load_event lib cfg ev pr =
     (case ev_watch ev of
        Watch_analysis \<Rightarrow>
          (case hs_load_analysis_dynamic (ml_sandbox lib) (ml_toint lib) cfg (ev_name ev) (w_fs (pr_world pr)) (process_analysis pr) of
             Inl e \<Rightarrow> Inl e
           | Inr (fs, aps) \<Rightarrow> Inr (Some (set_analysis fs (pr_analysis_bp pr) aps pr)))
      | Watch_input \<Rightarrow>
          (case hs_load_input_dynamic (ml_sandbox lib) (ml_varint lib) (ml_malloc_ok lib) cfg (ev_input_join ev) (ev_name ev)
                  (process_inputs pr) of
             Inl e \<Rightarrow> Inl e
           | Inr ips \<Rightarrow> Inr (Some (set_inputs ips pr)))
      | Watch_output \<Rightarrow>
          (case hs_load_output_dynamic (ml_sandbox lib) (ml_thread lib) cfg (ev_output_join ev) (ev_name ev)
                  (w_fs (pr_world pr)) (process_outputs pr) of
             Inl e \<Rightarrow> Inl e
           | Inr None \<Rightarrow> Inr None
           | Inr (Some (fs, ops)) \<Rightarrow> Inr (Some (set_outputs fs ops pr))))"

fun load_events ::
    "'m main_lib \<Rightarrow> hs_config \<Rightarrow> load_event list \<Rightarrow> 'm hs_process \<Rightarrow> hs_exit + 'm hs_process option" where
  "load_events lib cfg [] pr = Inr (Some pr)"
| "load_events lib cfg (ev # evs) pr =
     (case load_event lib cfg ev pr of
        Inl e \<Rightarrow> Inl e
      | Inr None \<Rightarrow> Inr None
      | Inr (Some pr') \<Rightarrow> load_events lib cfg evs pr')"

record 'm main_env =
  me_threads :: "'m hs_process \<Rightarrow> 'm hs_process"  \<comment> \<open>the second of waiting\<close>
  me_cpw :: cpw_env
  me_events :: "load_event list"
  me_read_failed :: bool

definition post_semaphore :: "'m hs_process \<Rightarrow> 'm hs_process" where
  "post_semaphore pr = pr\<lparr>pr_shutdown := pr_shutdown pr + 1\<rparr>"

text \<open>
  One turn, from the end of the wait on; the flag is set when it leaves the loop. The wait takes
  the semaphore and posts it again before it leaves.
\<close>

definition main_turn ::
    "'m main_lib \<Rightarrow> hs_config \<Rightarrow> hs_checkpoint_writer \<Rightarrow> 'm main_env \<Rightarrow> 'm hs_process \<Rightarrow>
     hs_exit + (bool \<times> 'm hs_process) option" where
  "main_turn lib cfg cpw env pr =
     (if pr_shutdown pr > 0 then Inr (Some (True, pr))
      else (case hs_write_checkpoints cpw (me_cpw env) (pr_world pr) of
              Inl e \<Rightarrow> Inl e
            | Inr w \<Rightarrow>
                let pr1 = pr\<lparr>pr_world := w\<rparr> in
                if str_of (cfg_load_path cfg) = [] then Inr (Some (False, pr1))
                else (case load_events lib cfg (me_events env) pr1 of
                        Inl e \<Rightarrow> Inl e
                      | Inr None \<Rightarrow> Inr None
                      | Inr (Some pr2) \<Rightarrow>
                          Inr (Some (False, if me_read_failed env then post_semaphore pr2 else pr2)))))"

fun main_loop ::
    "'m main_lib \<Rightarrow> hs_config \<Rightarrow> hs_checkpoint_writer \<Rightarrow> 'm main_env list \<Rightarrow> 'm hs_process \<Rightarrow>
     hs_exit + 'm hs_process option" where
  "main_loop lib cfg cpw [] pr = Inr None"
| "main_loop lib cfg cpw (e # es) pr =
     (case main_turn lib cfg cpw e (me_threads e pr) of
        Inl x \<Rightarrow> Inl x
      | Inr None \<Rightarrow> Inr None
      | Inr (Some (True, pr')) \<Rightarrow> Inr (Some pr')
      | Inr (Some (False, pr')) \<Rightarrow> main_loop lib cfg cpw es pr')"

section \<open>The shutdown\<close>

record shutdown_env =
  se_inputs :: "nat \<Rightarrow> ip_join_env"
  se_analysis :: "at_join_env list"
  se_outputs :: "join_env list"
  se_injects :: "(im_env \<times> string) list"  \<comment> \<open>by the output plugins, while they are waited for\<close>
  se_cpw :: cpw_env

text \<open>The input queue as the output plugins leave it.\<close>

definition set_output_queue :: "queue \<Rightarrow> 'm hs_process \<Rightarrow> 'm hs_process" where
  "set_output_queue q pr =
     (case q of
        (fs, ob, bp) \<Rightarrow> pr\<lparr>pr_world := (pr_world pr)\<lparr>w_fs := fs, w_input_ob := ob\<rparr>, pr_output_bp := bp\<rparr>)"

text \<open>Everything is told to stop at once, then waited for in the order of the data.\<close>

definition stop_all :: "'m hs_process \<Rightarrow> 'm hs_process" where
  "stop_all pr =
     (let w = pr_world pr in
      pr\<lparr>pr_world := w\<lparr>w_inputs := ips_list (hs_stop_input_plugins (process_inputs pr)),
                       w_threads := aps_list (hs_stop_analysis_plugins (process_analysis pr)),
                       w_outputs := ops_list (hs_stop_output_plugins (process_outputs pr))\<rparr>\<rparr>)"

definition wait_all ::
    "'m main_lib \<Rightarrow> hs_config \<Rightarrow> shutdown_env \<Rightarrow> 'm hs_process \<Rightarrow>
     hs_exit + (hs_input_plugin list \<times> 'm hs_process) option" where
  "wait_all lib cfg env pr =
     (case hs_wait_input_plugins (ml_varint lib) cfg (se_inputs env) (process_inputs pr) of
        Inl e \<Rightarrow> Inl e
      | Inr (leaked, ips) \<Rightarrow>
          let pr1 = set_inputs ips pr in
     (case hs_wait_analysis_plugins (ml_at lib) cfg (se_analysis env) (w_fs (pr_world pr1)) (pr_analysis_bp pr1)
             (process_analysis pr1) of
        Inl e \<Rightarrow> Inl e
      | Inr None \<Rightarrow> Inr None
      | Inr (Some (aps, fs, bp, sigterm)) \<Rightarrow>
          let pr2 = set_analysis fs bp aps pr1 in
     (case hs_wait_output_plugins (ml_thread lib) cfg (se_outputs env) (process_outputs pr2) of
        Inl e \<Rightarrow> Inl e
      | Inr None \<Rightarrow> Inr None
      | Inr (Some ops) \<Rightarrow>
     (case op_injects (ml_varint lib) cfg (se_injects env) (w_fs (pr_world pr2), w_input_ob (pr_world pr2), pr_output_bp pr2) of
        Inl e \<Rightarrow> Inl e
      | Inr q \<Rightarrow> Inr (Some (leaked, set_output_queue q (set_outputs (w_fs (pr_world pr2)) ops pr2)))))))"

definition free_all :: "'m hs_process \<Rightarrow> 'm hs_process" where
  "free_all pr =
     (let ips = hs_free_input_plugins (process_inputs pr);
          (fs1, aps) = hs_free_analysis_plugins (w_fs (pr_world pr)) (process_analysis pr);
          ops = hs_free_output_plugins (process_outputs pr);
          (fs2, ob) = hs_free_output fs1 (w_input_ob (pr_world pr))
      in pr\<lparr>pr_world := (pr_world pr)\<lparr>w_fs := fs2, w_inputs := ips_list ips, w_input_ob := ob, w_threads := aps_list aps,
                                      w_analysis_ob := aps_output aps, w_outputs := ops_list ops\<rparr>,
            pr_input_cnt := ips_list_cnt ips, pr_output_cnt := ops_list_cnt ops\<rparr>)"

definition hs_shutdown ::
    "'m main_lib \<Rightarrow> hs_config \<Rightarrow> hs_checkpoint_writer \<Rightarrow> shutdown_env \<Rightarrow> 'm hs_process \<Rightarrow>
     hs_exit + (hs_input_plugin list \<times> 'm hs_process) option" where
  "hs_shutdown lib cfg cpw env pr =
     (case wait_all lib cfg env (stop_all pr) of
        Inl e \<Rightarrow> Inl e
      | Inr None \<Rightarrow> Inr None
      | Inr (Some (leaked, pr1)) \<Rightarrow>
          (case hs_write_checkpoints cpw (se_cpw env) (pr_world pr1) of
             Inl e \<Rightarrow> Inl e
           | Inr w \<Rightarrow> Inr (Some (leaked, free_all (pr1\<lparr>pr_world := w\<rparr>)))))"

text \<open>
  \<open>main\<close> on the text of the configuration file; the flag is false for the exits with a failure
  status before anything has started, and the result is \<open>None\<close> while the process runs.
\<close>

definition hs_main ::
    "'m main_lib \<Rightarrow> string \<Rightarrow> int \<Rightarrow> string list \<Rightarrow> string \<Rightarrow> fsys \<Rightarrow> 'm main_env list \<Rightarrow> shutdown_env \<Rightarrow>
     hs_exit + (bool \<times> fsys) option" where
  "hs_main lib hostname pid args chunk fs envs env =
     (if arg_loglevel args = None then Inr (Some (False, fs))
      else (case hs_load_config (sl_lua (ml_sandbox lib)) hostname pid chunk of
              Inl e \<Rightarrow> Inl e
            | Inr (failed, cfg) \<Rightarrow>
                if failed \<or> \<not> watches_ok cfg fs then Inr (Some (False, fs))
                else (case hs_startup lib cfg fs of
                        Inl e \<Rightarrow> Inl e
                      | Inr (cpw, pr) \<Rightarrow>
                          (case main_loop lib cfg cpw envs pr of
                             Inl e \<Rightarrow> Inl e
                           | Inr None \<Rightarrow> Inr None
                           | Inr (Some pr1) \<Rightarrow>
                               (case hs_shutdown lib cfg cpw env pr1 of
                                  Inl e \<Rightarrow> Inl e
                                | Inr None \<Rightarrow> Inr None
                                | Inr (Some (leaked, pr2)) \<Rightarrow> Inr (Some (True, w_fs (pr_world pr2))))))))"

section \<open>What the shutdown leaves in the table\<close>

lemma set_simps [simp]:
  "pr_world (set_outputs fs ops pr) = (pr_world pr)\<lparr>w_fs := fs, w_cpr := ops_cpr ops, w_outputs := ops_list ops\<rparr>"
  "pr_world (set_analysis fs bp aps pr) =
     (pr_world pr)\<lparr>w_fs := fs, w_cpr := aps_cpr aps, w_threads := aps_list aps, w_analysis_ob := aps_output aps\<rparr>"
  by (simp_all add: set_outputs_def set_analysis_def)

lemma set_inputs_world:
  "w_cpr (pr_world (set_inputs ips pr)) = ips_cpr ips" "w_inputs (pr_world (set_inputs ips pr)) = ips_list ips"
  "w_threads (pr_world (set_inputs ips pr)) = w_threads (pr_world pr)"
  "w_outputs (pr_world (set_inputs ips pr)) = w_outputs (pr_world pr)"
  by (simp_all add: set_inputs_def split: prod.split)

lemma set_output_queue_world [simp]:
  "w_cpr (pr_world (set_output_queue q pr)) = w_cpr (pr_world pr)"
  "w_inputs (pr_world (set_output_queue q pr)) = w_inputs (pr_world pr)"
  "w_threads (pr_world (set_output_queue q pr)) = w_threads (pr_world pr)"
  "w_outputs (pr_world (set_output_queue q pr)) = w_outputs (pr_world pr)"
  by (simp_all add: set_output_queue_def split: prod.split)

lemma stop_all_world:
  "w_cpr (pr_world (stop_all pr)) = w_cpr (pr_world pr)"
  "w_inputs (pr_world (stop_all pr)) = map (map_option post_shutdown) (w_inputs (pr_world pr))"
  "w_threads (pr_world (stop_all pr)) = map (\<lambda>th. th\<lparr>at_stop := True\<rparr>) (w_threads (pr_world pr))"
  "w_outputs (pr_world (stop_all pr)) = map (map_option (with_stop True)) (w_outputs (pr_world pr))"
  by (simp_all add: stop_all_def Let_def hs_stop_input_plugins_def hs_stop_analysis_plugins_def hs_stop_output_plugins_def
      process_inputs_def process_analysis_def process_outputs_def)

text \<open>The final states of the plugins: a thread that returns saves them one after the other.\<close>

definition ended_input :: "'m main_lib \<Rightarrow> hs_config \<Rightarrow> hs_input_plugin \<Rightarrow> hs_input_plugin \<Rightarrow> bool" where
  "ended_input lib cfg p p' \<longleftrightarrow> ends_as (ml_varint lib) cfg (post_shutdown p) p'"

definition ended_output :: "'m main_lib \<Rightarrow> hs_config \<Rightarrow> 'm op_thread \<Rightarrow> hs_output_plugin \<Rightarrow> bool" where
  "ended_output lib cfg th p \<longleftrightarrow>
     (\<exists>je cpr th' c. op_join (ml_thread lib) cfg je True (with_stop True th) cpr = Inr (Some (th', c)) \<and> p = th_plugin th')"

lemma ended_output_name: "ended_output lib cfg th p \<Longrightarrow> op_name p = op_name (th_plugin th)"
  by (auto simp: ended_output_def dest!: op_join_Some simp: with_stop_def)

lemma wait_all_saved:
  assumes "wait_all lib cfg env (stop_all pr) = Inr (Some ([], pr1))" and "\<forall>i. \<not> ij_cancelled (se_inputs env i)"
  obtains ps os where "list_all2 (ended_input lib cfg) (occupied (w_inputs (pr_world pr))) ps"
    and "map ip_name ps = map ip_name (occupied (w_inputs (pr_world pr)))"
    and "list_all2 (ended_output lib cfg) (occupied (w_outputs (pr_world pr))) os"
    and "w_cpr (pr_world pr1) = fold (op_save_positions (tl_fmt_f (ml_thread lib))) os (fold ip_saved ps (w_cpr (pr_world pr)))"
    and "occupied (w_inputs (pr_world pr1)) = []" and "occupied (w_outputs (pr_world pr1)) = []"
    and "map (\<lambda>th. hsi_name (at_input th)) (w_threads (pr_world pr1)) = map (\<lambda>th. hsi_name (at_input th)) (w_threads (pr_world pr))"
proof -
  let ?w = "pr_world (stop_all pr)"
  obtain ips aps fs bp sg ops q where
    i: "hs_wait_input_plugins (ml_varint lib) cfg (se_inputs env) (process_inputs (stop_all pr)) = Inr ([], ips)"
    and a: "hs_wait_analysis_plugins (ml_at lib) cfg (se_analysis env) (w_fs (pr_world (set_inputs ips (stop_all pr))))
        (pr_analysis_bp (set_inputs ips (stop_all pr))) (process_analysis (set_inputs ips (stop_all pr))) = Inr (Some (aps, fs, bp, sg))"
    and o': "hs_wait_output_plugins (ml_thread lib) cfg (se_outputs env)
        (process_outputs (set_analysis fs bp aps (set_inputs ips (stop_all pr)))) = Inr (Some ops)"
    and pr1: "pr1 = set_output_queue q (set_outputs (w_fs (pr_world (set_analysis fs bp aps (set_inputs ips (stop_all pr))))) ops
        (set_analysis fs bp aps (set_inputs ips (stop_all pr))))"
    using assms(1) unfolding wait_all_def Let_def by (auto split: sum.splits option.splits prod.splits)
  obtain n iq cpr where ws: "wait_slots (ml_varint lib) cfg (se_inputs env) 0 (w_inputs ?w) (ips_output (process_inputs (stop_all pr)))
      (w_cpr ?w) = Inr ([], n, iq, cpr)"
    and ips: "ips_list ips = map (\<lambda>_. None) (w_inputs ?w)" "ips_cpr ips = cpr"
    using i by (auto simp: hs_wait_input_plugins_def process_inputs_def Let_def split: sum.splits)
  obtain ps where ps: "list_all2 (ends_as (ml_varint lib) cfg) (occupied (w_inputs ?w)) ps"
    "map ip_name ps = map ip_name (occupied (w_inputs ?w))" "cpr = fold ip_saved ps (w_cpr ?w)"
    using wait_slots_saved [OF ws assms(2)] by blast
  note an = hs_wait_analysis_names [OF a]
  obtain m c where j: "join_slots (ml_thread lib) cfg (se_outputs env) (w_outputs ?w) (aps_cpr aps) = Inr (Some (m, c))"
    and ops: "ops_list ops = map (\<lambda>_. None) (w_outputs ?w)" "ops_cpr ops = c"
    using o' by (auto simp: hs_wait_output_plugins_def process_outputs_def Let_def set_inputs_world split: sum.splits option.splits)
  obtain os where os: "list_all2 (\<lambda>th p. \<exists>je cpr th' c. op_join (ml_thread lib) cfg je (op_stop (th_plugin th)) th cpr = Inr (Some (th', c)) \<and>
        p = th_plugin th') (occupied (w_outputs ?w)) os"
    "c = fold (op_save_positions (tl_fmt_f (ml_thread lib))) os (aps_cpr aps)"
    using join_slots_Some [OF j] by blast
  have occ: "occupied (w_inputs ?w) = map post_shutdown (occupied (w_inputs (pr_world pr)))"
    "occupied (w_outputs ?w) = map (with_stop True) (occupied (w_outputs (pr_world pr)))"
    by (simp_all add: stop_all_world occupied_map)
  have st: "op_stop (th_plugin (with_stop True th)) = True" for th :: "'a op_thread" by (simp add: with_stop_def)
  have "list_all2 (ended_input lib cfg) (occupied (w_inputs (pr_world pr))) ps"
    using ps(1) by (simp add: occ list_all2_map1 ended_input_def [abs_def])
  moreover have "map ip_name ps = map ip_name (occupied (w_inputs (pr_world pr)))"
    using ps(2) by (simp add: occ comp_def)
  moreover have "list_all2 (ended_output lib cfg) (occupied (w_outputs (pr_world pr))) os"
    using os(1) by (simp add: occ list_all2_map1 ended_output_def [abs_def] st)
  moreover have "w_cpr (pr_world pr1) = fold (op_save_positions (tl_fmt_f (ml_thread lib))) os (fold ip_saved ps (w_cpr (pr_world pr)))"
    using an ops(2) os(2) ps(3) ips(2) by (simp add: pr1 process_analysis_def Let_def set_inputs_world stop_all_world)
  moreover have "occupied (w_inputs (pr_world pr1)) = []" "occupied (w_outputs (pr_world pr1)) = []"
    using ips(1) ops(1) by (simp_all add: pr1 set_inputs_world)
  moreover have "map (\<lambda>th. hsi_name (at_input th)) (w_threads (pr_world pr1)) = map (\<lambda>th. hsi_name (at_input th)) (w_threads (pr_world pr))"
    using an by (simp add: pr1 process_analysis_def Let_def set_inputs_world stop_all_world comp_def)
  ultimately show ?thesis by (rule that)
qed

lemma threads_saved_frame':
  assumes "map (\<lambda>th. hsi_name (at_input th)) ths = map analysis_name [0 ..< length ths]"
    and "\<forall>i. k \<noteq> ''input->'' @ analysis_name i" and "k \<noteq> ''analysis''"
  shows "cpr_get (fold (thread_saved fmt_f cp) ths c) k = cpr_get c k"
proof (rule threads_saved_frame)
  show "\<forall>th \<in> set ths. k \<noteq> ''input->'' @ hsi_name (at_input th)"
  proof
    fix th assume "th \<in> set ths"
    then have "hsi_name (at_input th) \<in> set (map analysis_name [0 ..< length ths])"
      unfolding assms(1) [symmetric] by simp
    then show "k \<noteq> ''input->'' @ hsi_name (at_input th)" using assms(2) by auto
  qed
qed (rule assms(3))

lemma fold_op_saved: "fold (op_save_positions fmt_f) os c = fold (output_saved fmt_f) (map start_thread os :: 'm op_thread list) c"
  by (induction os arbitrary: c) (simp_all add: output_saved_def start_thread_def)

lemma start_thread_plugin [simp]: "th_plugin (start_thread p) = p"
  by (simp add: start_thread_def)

text \<open>The table of a round without input and output plugins, after they have saved their own.\<close>

lemma last_round_table:
  assumes "occupied (w_inputs w) = []" and "occupied (w_outputs w) = []"
    and "w_cpr w = fold (op_save_positions fmt) os (fold ip_saved ps cpr0)"
    and "map (\<lambda>th. hsi_name (at_input th)) (w_threads w) = map analysis_name [0 ..< length (w_threads w)]"
    and "prints_whole_numbers fmt" and "prints_whole_numbers fmt_f"
  shows "distinct (map ip_name ps) \<Longrightarrow> p \<in> set ps \<Longrightarrow> input_name (ip_name p) \<Longrightarrow> ipc_safe (ip_cp p) \<Longrightarrow>
      cpr_get (collected fmt_f w) (ip_name p) = saved_value (ip_cp p)"
    and "distinct (map op_name os) \<Longrightarrow> q \<in> set os \<Longrightarrow> output_name (op_name q) \<Longrightarrow> op_storable q \<Longrightarrow>
      holds_output (collected fmt_f w) q"
    and "th \<in> set (w_threads w) \<Longrightarrow> printable_cp (at_cp th) \<Longrightarrow>
      load_position (collected fmt_f w) (''input->'' @ hsi_name (at_input th)) = Some (at_cp th)"
proof -
  let ?u = "hs_update_input_checkpoint fmt_f (w_cpr w) hs_input_dir None (o_cp (w_input_ob w))"
  have c: "collected fmt_f w = fold (thread_saved fmt_f (o_cp (w_analysis_ob w))) (w_threads w) ?u"
    by (simp add: collected_def assms(1,2))
  have frame: "cpr_get (collected fmt_f w) k = cpr_get (w_cpr w) k"
    if "\<forall>i. k \<noteq> ''input->'' @ analysis_name i" "k \<noteq> ''analysis''" "k \<noteq> ''input''" for k
    unfolding c using threads_saved_frame' [OF assms(4) that(1,2)] that(3)
    by (simp add: update_position_frame input_cp_key_def)
  show "cpr_get (collected fmt_f w) (ip_name p) = saved_value (ip_cp p)"
    if h: "distinct (map ip_name ps)" "p \<in> set ps" "input_name (ip_name p)" "ipc_safe (ip_cp p)"
  proof -
    have "cpr_get (w_cpr w) (ip_name p) = cpr_get (fold ip_saved ps cpr0) (ip_name p)"
      unfolding assms(3) fold_op_saved [where 'm = unit] by (rule outputs_saved_frame) (use input_name_key [OF h(3)] in blast)
    with ip_saved_fold_get [OF h(1,2,4)] frame [of "ip_name p"] input_name_key [OF h(3)] show ?thesis by auto
  qed
  show "holds_output (collected fmt_f w) q"
    if h: "distinct (map op_name os)" "q \<in> set os" "output_name (op_name q)" "op_storable q"
  proof -
    let ?ths = "map start_thread os :: unit op_thread list"
    have "distinct (map (\<lambda>th. op_name (th_plugin th)) ?ths)" "start_thread q \<in> set ?ths" "op_storable (th_plugin (start_thread q))"
      using h by (simp_all add: comp_def start_thread_def)
    from outputs_saved_load [OF assms(5) this, of "fold ip_saved ps cpr0"]
    have "holds_output (w_cpr w) q"
      unfolding assms(3) fold_op_saved [where 'm = unit] holds_output_def start_thread_plugin .
    moreover have "cpr_get (collected fmt_f w) (''input->'' @ op_name q) = cpr_get (w_cpr w) (''input->'' @ op_name q)"
      "cpr_get (collected fmt_f w) (''analysis->'' @ op_name q) = cpr_get (w_cpr w) (''analysis->'' @ op_name q)"
      using output_name_analysis [OF h(3)] by (auto intro!: frame)
    note load_position_cong [OF this(1)] load_position_cong [OF this(2)]
    ultimately show ?thesis unfolding holds_output_def by simp
  qed
  show "load_position (collected fmt_f w) (''input->'' @ hsi_name (at_input th)) = Some (at_cp th)"
    if "th \<in> set (w_threads w)" "printable_cp (at_cp th)"
    unfolding c by (rule threads_saved_load [OF assms(6) _ that])
      (auto simp: assms(4) distinct_map inj_on_def analysis_name_inj)
qed

section \<open>The end of the process\<close>

lemma hs_free_output_frame:
  "hs_free_output fs ob = (fs', ob') \<Longrightarrow>
   fs_denied fs' = fs_denied fs \<and> (o_fh ob \<noteq> Some p \<longrightarrow> fs_get fs' p = fs_get fs p)"
  by (auto simp: hs_free_output_def close_output_def flush_output_def Let_def fs_append_get split: option.splits prod.splits)

lemma free_all_frame:
  assumes "o_fh (w_input_ob (pr_world pr)) \<noteq> Some p" and "o_fh (w_analysis_ob (pr_world pr)) \<noteq> Some p"
  shows "fs_get (w_fs (pr_world (free_all pr))) p = fs_get (w_fs (pr_world pr)) p \<and>
    fs_denied (w_fs (pr_world (free_all pr))) = fs_denied (w_fs (pr_world pr))"
proof -
  obtain fs1 ob1 where a: "hs_free_output (w_fs (pr_world pr)) (w_analysis_ob (pr_world pr)) = (fs1, ob1)" by fastforce
  obtain fs2 ob2 where b: "hs_free_output fs1 (w_input_ob (pr_world pr)) = (fs2, ob2)" by fastforce
  have "w_fs (pr_world (free_all pr)) = fs2"
    using a b by (simp add: free_all_def hs_free_analysis_plugins_def process_analysis_def Let_def)
  with hs_free_output_frame [OF a, of p] hs_free_output_frame [OF b, of p] assms show ?thesis by simp
qed

lemma init_reader_cong:
  assumes "hs_get_fqfn path ''hindsight.cp'' HS_MAX_PATH = Some f"
    and "fs_get fs' f = fs_get fs f" and "fs_denied fs' = fs_denied fs"
  shows "hs_init_checkpoint_reader run fs' path = hs_init_checkpoint_reader run fs path"
  unfolding hs_init_checkpoint_reader_def hs_file_exists_def fopen_re_def Let_def assms option.case by (rule refl)

text \<open>The names of a process: each plugin's of its kind, no name twice.\<close>

definition names_ok :: "'m cp_world \<Rightarrow> bool" where
  "names_ok w \<longleftrightarrow>
     distinct (map ip_name (occupied (w_inputs w))) \<and> (\<forall>p \<in> set (occupied (w_inputs w)). input_name (ip_name p)) \<and>
     distinct (map (\<lambda>th. op_name (th_plugin th)) (occupied (w_outputs w))) \<and>
     (\<forall>th \<in> set (occupied (w_outputs w)). output_name (op_name (th_plugin th))) \<and>
     map (\<lambda>th. hsi_name (at_input th)) (w_threads w) = map analysis_name [0 ..< length (w_threads w)]"

lemma ended_output_names:
  "list_all2 (ended_output lib cfg) ths os \<Longrightarrow> map op_name os = map (\<lambda>th. op_name (th_plugin th)) ths"
  by (induction rule: list_all2_induct) (auto dest: ended_output_name)

lemma op_saved_ok: "cpr_ok c \<Longrightarrow> cpr_ok (op_save_positions fmt_f p c)"
  by (simp add: op_save_positions_def Let_def update_position_ok)

lemma map_names_all: "map f xs = map g ys \<Longrightarrow> x \<in> set xs \<Longrightarrow> \<exists>y \<in> set ys. f x = g y"
  by (metis (mono_tags, lifting) image_iff list.set_map)

text \<open>With one more turn of each thread the waits end.\<close>

lemma wait_all_returns:
  assumes "length (occupied (w_outputs (pr_world pr))) \<le> length (se_outputs env)"
    and "\<forall>je \<in> set (se_outputs env). je_turns je \<noteq> [] \<and> je_mid je = None"
    and "length (w_threads (pr_world pr)) \<le> length (se_analysis env)"
    and "\<forall>je \<in> set (se_analysis env). aj_turns je \<noteq> []"
  shows "wait_all lib cfg env (stop_all pr) \<noteq> Inr None"
proof -
  have a: "hs_wait_analysis_plugins (ml_at lib) cfg (se_analysis env) fs bp (process_analysis (set_inputs ips (stop_all pr))) \<noteq> Inr None"
    for fs bp ips
  proof -
    have "wait_threads (ml_at lib) cfg cpr (se_analysis env) (w_threads (pr_world (stop_all pr))) s \<noteq> Inr None" for cpr s
      by (rule wait_threads_returns) (use assms(3,4) in \<open>auto simp: stop_all_world\<close>)
    then show ?thesis
      by (auto simp: hs_wait_analysis_plugins_def process_analysis_def Let_def set_inputs_world split: sum.split option.split)
  qed
  have o': "hs_wait_output_plugins (ml_thread lib) cfg (se_outputs env)
      (process_outputs (set_analysis fs bp aps (set_inputs ips (stop_all pr)))) \<noteq> Inr None" for fs bp aps ips
  proof -
    have "join_slots (ml_thread lib) cfg (se_outputs env) (w_outputs (pr_world (stop_all pr))) cpr \<noteq> Inr None" for cpr
      by (rule join_slots_returns) (use assms(1,2) in \<open>auto simp: stop_all_world occupied_map with_stop_def\<close>)
    then show ?thesis
      by (auto simp: hs_wait_output_plugins_def process_outputs_def Let_def set_inputs_world split: sum.split option.split)
  qed
  show ?thesis
    unfolding wait_all_def Let_def using a o' by (auto split: sum.split option.split prod.split)
qed

lemma case_InrE: "(case x of Inl e \<Rightarrow> False | Inr y \<Rightarrow> P y) \<Longrightarrow> (\<And>y. x = Inr y \<Longrightarrow> P y \<Longrightarrow> thesis) \<Longrightarrow> thesis"
  by (cases x) auto

lemma case_SomeE: "(case x of None \<Rightarrow> False | Some y \<Rightarrow> P y) \<Longrightarrow> (\<And>y. x = Some y \<Longrightarrow> P y \<Longrightarrow> thesis) \<Longrightarrow> thesis"
  by (cases x) auto

section \<open>A sample process\<close>

definition sample_main_lib :: "string main_lib" where
  "sample_main_lib =
     (let lua = \<lparr>lua_read_file = fs_get, lua_run = \<lambda>_. Inl ''error'', lua_num_str = \<lambda>_. [], lua_stamp = []\<rparr>
      in \<lparr>ml_sandbox = \<lparr>sl_lua = lua, sl_matcher_ok = \<lambda>_. True, sl_emit = \<lambda>n s. (s, True),
             sl_create = \<lambda>type fs f state text. (True, fs), sl_init_ib = \<lambda>n. hsi_ib null_input,
             sl_log_level = 6, sl_now = 0, sl_rnd = 0\<rparr>,
          ml_thread = quiet_lib, ml_at = \<lparr>atl_scan = scan_nothing, atl_expand = roomy, atl_varint = \<lambda>n. [char_of n]\<rparr>,
          ml_varint = \<lambda>n. [char_of n], ml_toint = \<lambda>d. 0, ml_cp_run = reread (\<lambda>t. Some (Fin 0)), ml_malloc_ok = True\<rparr>)"

definition sample_process :: "string hs_process" where
  "sample_process =
     \<lparr>pr_world = sample_world, pr_input_bp = \<lparr>bp_last_check = 0, bp_on = False\<rparr>,
      pr_analysis_bp = \<lparr>bp_last_check = 0, bp_on = False\<rparr>, pr_output_bp = \<lparr>bp_last_check = 0, bp_on = False\<rparr>,
      pr_input_cnt = 1, pr_output_cnt = 1, pr_shutdown = 1\<rparr>"

definition sample_shutdown :: shutdown_env where
  "sample_shutdown =
     \<lparr>se_inputs = \<lambda>_. prompt_join,
      se_analysis = [\<lparr>aj_local = at_init_local, aj_turns = [sample_at_env],
                      aj_fin = \<lambda>_. sample_an_env\<lparr>an_te_injects := [], an_te_ret := 0\<rparr>\<rparr>],
      se_outputs = [quiet_join], se_injects = [], se_cpw = sample_cpw_env\<rparr>"

section \<open>Properties\<close>





end
