(* ===== verification/HS_Crash.thy ===== *)
theory HS_Crash
  imports HS_Main
begin

text \<open>
  The running process as a transition system: the steps of its threads in any order, each on the
  shared state, and the rounds of the checkpoint writer between them. What a crash at any reachable
  state leaves behind is a theorem about the reachable states.

  The two halves of an input's \<open>inject_message\<close> are steps of their own, so that a round may fall
  between them; what a thread reads from the queue files is not tied to the state, so that the
  relation has all runs of the program. Configurations loaded at run time are not steps.
\<close>

section \<open>The steps\<close>

definition input_queue :: "'m hs_process \<Rightarrow> queue" where
  "input_queue pr = (w_fs (pr_world pr), w_input_ob (pr_world pr), pr_input_bp pr)"

definition output_queue :: "'m hs_process \<Rightarrow> queue" where
  "output_queue pr = (w_fs (pr_world pr), w_input_ob (pr_world pr), pr_output_bp pr)"

definition analysis_queue :: "'m hs_process \<Rightarrow> queue" where
  "analysis_queue pr = (w_fs (pr_world pr), w_analysis_ob (pr_world pr), pr_analysis_bp pr)"

definition with_input :: "nat \<Rightarrow> hs_input_plugin \<Rightarrow> 'm hs_process \<Rightarrow> 'm hs_process" where
  "with_input i p pr = pr\<lparr>pr_world := (pr_world pr)\<lparr>w_inputs := (w_inputs (pr_world pr))[i := Some p]\<rparr>\<rparr>"

definition with_input_queue :: "queue \<Rightarrow> 'm hs_process \<Rightarrow> 'm hs_process" where
  "with_input_queue q pr =
     pr\<lparr>pr_world := (pr_world pr)\<lparr>w_fs := fst q, w_input_ob := fst (snd q)\<rparr>, pr_input_bp := snd (snd q)\<rparr>"

definition with_analysis :: "nat \<Rightarrow> an_state \<Rightarrow> 'm hs_process \<Rightarrow> 'm hs_process" where
  "with_analysis i s pr =
     pr\<lparr>pr_world := (pr_world pr)\<lparr>w_fs := fst (as_queue s), w_analysis_ob := fst (snd (as_queue s)),
          w_threads := (w_threads (pr_world pr))[i := as_at s]\<rparr>,
        pr_analysis_bp := snd (snd (as_queue s)),
        pr_shutdown := (if as_sigterm s then pr_shutdown pr + 1 else pr_shutdown pr)\<rparr>"

definition with_output :: "nat \<Rightarrow> 'm op_thread \<Rightarrow> 'm hs_process \<Rightarrow> 'm hs_process" where
  "with_output i th pr = pr\<lparr>pr_world := (pr_world pr)\<lparr>w_outputs := (w_outputs (pr_world pr))[i := Some th]\<rparr>\<rparr>"

definition post_if :: "bool \<Rightarrow> 'm hs_process \<Rightarrow> 'm hs_process" where
  "post_if b pr = (if b then post_semaphore pr else pr)"

definition analysis_state :: "nat \<Rightarrow> 'm hs_process \<Rightarrow> an_state" where
  "analysis_state i pr = \<lparr>as_at = w_threads (pr_world pr) ! i, as_queue = analysis_queue pr, as_sigterm = False\<rparr>"

inductive thread_step :: "'m main_lib \<Rightarrow> hs_config \<Rightarrow> 'm hs_process \<Rightarrow> 'm hs_process \<Rightarrow> bool"
  for lib :: "'m main_lib" and cfg :: hs_config where
  input_checkpoint:
    "i < length (w_inputs (pr_world pr)) \<Longrightarrow> w_inputs (pr_world pr) ! i = Some p \<Longrightarrow>
     ip_inject_checkpoint m pb d s p = (rv, p') \<Longrightarrow> thread_step lib cfg pr (with_input i p' pr)"
| input_message:
    "ip_inject_queue (ml_varint lib) cfg env rv pb (input_queue pr) = Inr q \<Longrightarrow>
     thread_step lib cfg pr (with_input_queue q pr)"
| input_end:
    "i < length (w_inputs (pr_world pr)) \<Longrightarrow> w_inputs (pr_world pr) ! i = Some p \<Longrightarrow>
     ip_detach cfg ex i p ret (process_inputs pr) = Inr (ips, term) \<Longrightarrow>
     thread_step lib cfg pr (post_if term (set_inputs ips pr))"
| analysis_turn:
    "i < length (w_threads (pr_world pr)) \<Longrightarrow>
     at_turn (atl_scan (ml_at lib)) (atl_expand (ml_at lib)) (atl_varint (ml_at lib)) cfg (w_cpr (pr_world pr)) aenv
       (analysis_state i pr, l) = Inr (stop, s', l') \<Longrightarrow>
     thread_step lib cfg pr (with_analysis i s' pr)"
| analysis_end:
    "i < length (w_threads (pr_world pr)) \<Longrightarrow>
     shutdown_timer_event (atl_varint (ml_at lib)) cfg fin (analysis_state i pr) = Inr s' \<Longrightarrow>
     thread_step lib cfg pr (with_analysis i s' pr)"
| output_turn:
    "i < length (w_outputs (pr_world pr)) \<Longrightarrow> w_outputs (pr_world pr) ! i = Some th \<Longrightarrow>
     op_turn (tl_scan (ml_thread lib)) (tl_expand (ml_thread lib)) (tl_ts (ml_thread lib)) cfg tenv (w_cpr (pr_world pr)) th =
       Inr (r, th') \<Longrightarrow>
     thread_step lib cfg pr (with_output i th' pr)"
| output_message:
    "op_inject (ml_varint lib) cfg m (output_queue pr) = Inr (res, q) \<Longrightarrow>
     thread_step lib cfg pr (set_output_queue q pr)"
| output_end:
    "i < length (w_outputs (pr_world pr)) \<Longrightarrow> w_outputs (pr_world pr) ! i = Some th \<Longrightarrow>
     op_detach (tl_fmt_f (ml_thread lib)) (cfg_run_path cfg) ox i th (w_fs (pr_world pr)) (process_outputs pr) = (fs, ops, term) \<Longrightarrow>
     thread_step lib cfg pr (post_if term (set_outputs fs ops pr))"
| stdio_drain:
    "drain_output n (w_fs (pr_world pr)) (w_input_ob (pr_world pr)) = (fs, ob) \<Longrightarrow>
     thread_step lib cfg pr (with_input_queue (fs, ob, pr_input_bp pr) pr)"
| signal: "thread_step lib cfg pr (post_if (sig_handler sigs 0 > 0) pr)"

inductive_cases thread_stepE: "thread_step lib cfg pr pr'"

text \<open>
  The runs, with the state and the environment of the last round that was completed.
\<close>

inductive process_run ::
    "'m main_lib \<Rightarrow> hs_config \<Rightarrow> hs_checkpoint_writer \<Rightarrow> 'm hs_process \<Rightarrow> 'm hs_process \<Rightarrow>
     ('m cp_world \<times> cpw_env) option \<Rightarrow> bool"
  for lib :: "'m main_lib" and cfg :: hs_config and cpw :: hs_checkpoint_writer and pr0 :: "'m hs_process" where
  start: "process_run lib cfg cpw pr0 pr0 None"
| thread: "process_run lib cfg cpw pr0 pr lr \<Longrightarrow> thread_step lib cfg pr pr' \<Longrightarrow> process_run lib cfg cpw pr0 pr' lr"
| round: "process_run lib cfg cpw pr0 pr lr \<Longrightarrow> hs_write_checkpoints cpw env (pr_world pr) = Inr w' \<Longrightarrow>
    process_run lib cfg cpw pr0 (pr\<lparr>pr_world := w'\<rparr>) (Some (pr_world pr, env))"

section \<open>Files no thread touches\<close>

text \<open>The threads write queue files, \<open>.log\<close>, and error files, \<open>.err\<close>.\<close>

definition keeps_file :: "string \<Rightarrow> queue \<Rightarrow> queue \<Rightarrow> bool" where
  "keeps_file f q q' \<longleftrightarrow>
     fs_denied (fst q') = fs_denied (fst q) \<and>
     (last f = CHR ''p'' \<longrightarrow> o_fh (fst (snd q)) \<noteq> Some f \<longrightarrow>
        o_fh (fst (snd q')) \<noteq> Some f \<and> fs_get (fst q') f = fs_get (fst q) f)"

lemma keeps_refl [simp]: "keeps_file f q q"
  by (simp add: keeps_file_def)

lemma keeps_trans: "keeps_file f q q1 \<Longrightarrow> keeps_file f q1 q2 \<Longrightarrow> keeps_file f q q2"
  by (auto simp: keeps_file_def)

lemma last_log_name: "last (log_name d i) = CHR ''g''"
  by (simp add: log_name_def)

lemma hs_open_output_keeps: "hs_open_output_file fs ob = Inr (fs', ob') \<Longrightarrow> keeps_file f (fs, ob, bp) (fs', ob', bp')"
  using fopen_ae_get fopen_ae_denied
  by (auto simp: hs_open_output_file_def close_output_def flush_output_def format_output_name_def fopen_output_def
      keeps_file_def Let_def fs_append_get last_log_name split: option.splits if_splits prod.splits)

lemma queue_message_keeps:
  assumes "queue_message varint cfg env pb fs ob bp = Inr q'"
  shows "keeps_file f (fs, ob, bp) q'"
proof -
  let ?ob = "next_output_id (write_frame (message_frame varint pb) ob)"
  have w: "keeps_file f (fs, ob, bp) (fs, write_frame (message_frame varint pb) ob, bp')" for bp'
    by (simp add: keeps_file_def)
  have o': "keeps_file f (fs, ob, bp) (fs2, ob2, bp2)" if "hs_open_output_file fs ?ob = Inr (fs2, ob2)" for fs2 ob2 bp2
    using hs_open_output_keeps [OF that, of f bp bp2] by (simp add: keeps_file_def)
  show ?thesis
    using assms w o' by (auto simp: queue_message_def Let_def split: if_splits sum.splits prod.splits)
qed

lemma ip_inject_queue_keeps: "ip_inject_queue varint cfg env rv pb q = Inr q' \<Longrightarrow> keeps_file f q q'"
  by (auto simp: ip_inject_queue_def dest: queue_message_keeps split: option.splits if_splits prod.splits)

lemma drain_output_keeps: "drain_output n fs ob = (fs', ob') \<Longrightarrow> keeps_file f (fs, ob, bp) (fs', ob', bp)"
  by (auto simp: drain_output_def keeps_file_def fs_append_get split: option.splits)

lemma save_err_keeps:
  "last f = CHR ''p'' \<Longrightarrow> fs_get (hs_save_termination_err fs stamp path name err) f = fs_get fs f"
  "fs_denied (hs_save_termination_err fs stamp path name err) = fs_denied fs"
  by (auto simp: hs_save_termination_err_def common_termination_err_def get_termination_fn_def fopen_we_def fs_append_get
      Let_def split: option.splits if_splits)

lemma ap_injects_keeps:
  assumes "ap_injects varint cfg ms (p, q) = Inr (p', q')"
  shows "keeps_file f q q'"
proof -
  have s: "keeps_file f (snd s) (snd s')" if "(case ap_inject varint cfg m s of Inl e \<Rightarrow> Inl e | Inr (_, s') \<Rightarrow> Inr s') = Inr s'" for m s s'
    using that by (auto simp: ap_inject_def Let_def split: prod.splits sum.splits if_splits dest: queue_message_keeps)
  have "keeps_file f q (snd (p', q'))"
    using assms unfolding ap_injects_def
    by (rule fold_exit_invariant) (simp, rule keeps_trans [OF _ s])
  then show ?thesis by simp
qed

lemma ap_analyze_keeps: "ap_analyze varint cfg has_raw sample t env (p, q) = Inr (ret, p', q') \<Longrightarrow> keeps_file f q q'"
  by (auto simp: ap_analyze_def ap_process_def ap_timer_def Let_def split: if_splits sum.splits
      dest!: ap_injects_keeps [of _ _ _ _ _ _ _ f] intro: keeps_trans)

lemma terminate_sandbox_keeps: "keeps_file f (as_queue s) (as_queue (terminate_sandbox cfg env i p s))"
  by (auto simp: terminate_sandbox_def keeps_file_def save_err_keeps split: prod.split)

lemma analyze_slot_keeps:
  assumes "analyze_slot varint cfg has_raw sample envs i s = Inr s'"
  shows "keeps_file f (as_queue s) (as_queue s')"
proof (cases "at_list (as_at s) ! i")
  case (Some p)
  obtain ret p' q' u where a: "ap_analyze varint cfg has_raw sample (at_current_t (as_at s)) (envs i) (p, as_queue s) = Inr (ret, p', q')"
    and u: "u = s\<lparr>as_at := (as_at s)\<lparr>at_list := (at_list (as_at s))[i := Some p']\<rparr>, as_queue := q'\<rparr>"
    and s': "s' = (if ret > 0 then terminate_sandbox cfg (envs i) i p' u else u)"
    by (rule analyze_slot_Some [OF assms Some])
  have "keeps_file f (as_queue s) (as_queue u)" using ap_analyze_keeps [OF a] u by simp
  with terminate_sandbox_keeps [of f u cfg "envs i" i p'] s' show ?thesis by (auto intro: keeps_trans)
qed (use assms in \<open>simp add: analyze_slot_None\<close>)

lemma analyze_message_keeps:
  assumes "analyze_message varint cfg has_raw sample envs s = Inr s'"
  shows "keeps_file f (as_queue s) (as_queue s')"
  using assms unfolding analyze_message_def
  by (rule fold_exit_invariant) (simp, metis keeps_trans analyze_slot_keeps)

lemma shutdown_slot_keeps:
  assumes "shutdown_slot varint cfg envs i s = Inr s'"
  shows "keeps_file f (as_queue s) (as_queue s')"
proof (cases "at_list (as_at s) ! i")
  case (Some p)
  obtain p' q' u where a: "ap_injects varint cfg (an_te_injects (envs i)) (p\<lparr>ap_im_limit := ap_te_im_limit p\<rparr>, as_queue s) = Inr (p', q')"
    and u: "u = s\<lparr>as_at := (as_at s)\<lparr>at_list := (at_list (as_at s))[i := Some p']\<rparr>, as_queue := q'\<rparr>"
    and s': "s' = (if an_te_ret (envs i) \<noteq> 0 then terminate_sandbox cfg (envs i) i p' u else u)"
    using assms Some by (auto simp: shutdown_slot_def Let_def split: sum.splits)
  have "keeps_file f (as_queue s) (as_queue u)" using ap_injects_keeps [OF a] u by simp
  with terminate_sandbox_keeps [of f u cfg "envs i" i p'] s' show ?thesis by (auto intro: keeps_trans)
qed (use assms in \<open>simp add: shutdown_slot_def\<close>)

lemma shutdown_timer_keeps:
  assumes "shutdown_timer_event varint cfg envs s = Inr s'"
  shows "keeps_file f (as_queue s) (as_queue s')"
  using assms unfolding shutdown_timer_event_def
  by (rule fold_exit_invariant) (simp, metis keeps_trans shutdown_slot_keeps)

lemma at_idle_keeps: "at_idle varint cfg env sample s = Inr s' \<Longrightarrow> keeps_file f (as_queue s) (as_queue s')"
  by (auto simp: at_idle_def dest!: analyze_message_keeps [of _ _ _ _ _ _ _ f] split: sum.splits if_splits)

lemma at_deliver_keeps: "at_deliver varint cfg env sample s = Inr s' \<Longrightarrow> keeps_file f (as_queue s) (as_queue s')"
  by (auto simp: at_deliver_def Let_def dest!: analyze_message_keeps [of _ _ _ _ _ _ _ f] split: sum.splits)

lemma at_turn_keeps:
  "at_turn scan expand varint cfg cpr env (s, l) = Inr (stop, s', l') \<Longrightarrow> keeps_file f (as_queue s) (as_queue s')"
  by (auto simp: at_turn_def Let_def split: if_splits sum.splits option.splits prod.splits
      dest!: at_idle_keeps [of _ _ _ _ _ _ f] at_deliver_keeps [of _ _ _ _ _ _ f])

lemma op_inject_keeps: "op_inject varint cfg m q = Inr (r, q') \<Longrightarrow> keeps_file f q q'"
  by (auto simp: op_inject_def dest: queue_message_keeps split: prod.splits sum.splits)

section \<open>What the steps keep\<close>

text \<open>Replacing or freeing a slot, as far as the names go.\<close>

lemma occupied_replace:
  "i < length xs \<Longrightarrow> xs ! i = Some x \<Longrightarrow> f y = f x \<Longrightarrow> map f (occupied (xs[i := Some y])) = map f (occupied xs)"
proof (induction xs arbitrary: i)
  case (Cons z zs)
  then show ?case by (cases i; cases z) auto
qed simp

lemma occupied_free:
  assumes "i < length xs" and "xs ! i = Some x"
  shows "set (occupied (xs[i := None])) \<subseteq> set (occupied xs)"
    and "distinct (map f (occupied xs)) \<Longrightarrow> distinct (map f (occupied (xs[i := None])))"
proof -
  note m = occupied_update_None [OF assms]
  then have "set (occupied xs) = insert x (set (occupied (xs[i := None])))" by (metis set_mset_add_mset_insert set_mset_mset)
  then show "set (occupied (xs[i := None])) \<subseteq> set (occupied xs)" by blast
  have "mset (map f (occupied xs)) = mset (f x # map f (occupied (xs[i := None])))" using m by simp
  then have "distinct (map f (occupied xs)) \<longleftrightarrow> distinct (f x # map f (occupied (xs[i := None])))"
    by (rule mset_eq_imp_distinct_iff)
  then show "distinct (map f (occupied xs)) \<Longrightarrow> distinct (map f (occupied (xs[i := None])))" by simp
qed

definition world_names :: "'m cp_world \<Rightarrow> string list \<times> string list \<times> string list" where
  "world_names w =
     (map ip_name (occupied (w_inputs w)), map (\<lambda>th. hsi_name (at_input th)) (w_threads w),
      map (\<lambda>th. op_name (th_plugin th)) (occupied (w_outputs w)))"

lemma names_ok_cong:
  assumes "world_names w' = world_names w" and "names_ok w"
  shows "names_ok w'"
proof -
  have n: "map ip_name (occupied (w_inputs w')) = map ip_name (occupied (w_inputs w))"
    "map (\<lambda>th. hsi_name (at_input th)) (w_threads w') = map (\<lambda>th. hsi_name (at_input th)) (w_threads w)"
    "map (\<lambda>th. op_name (th_plugin th)) (occupied (w_outputs w')) = map (\<lambda>th. op_name (th_plugin th)) (occupied (w_outputs w))"
    using assms(1) by (simp_all add: world_names_def)
  have l: "length (w_threads w') = length (w_threads w)" using n(2) by (metis length_map)
  have i: "input_name (ip_name p)" if "p \<in> set (occupied (w_inputs w'))" for p
    using map_names_all [OF n(1) that] assms(2) by (auto simp: names_ok_def)
  have o': "output_name (op_name (th_plugin th))" if "th \<in> set (occupied (w_outputs w'))" for th
    using map_names_all [OF n(3) that] assms(2) by (auto simp: names_ok_def)
  show ?thesis using assms(2) i o' unfolding names_ok_def n l by blast
qed

text \<open>
  The invariant of a running process, for the path of the checkpoint file: the table is well formed,
  the names are in order and no queue writer has the file open.
\<close>

definition process_ok :: "string \<Rightarrow> 'm hs_process \<Rightarrow> bool" where
  "process_ok f pr \<longleftrightarrow>
     names_ok (pr_world pr) \<and> cpr_ok (w_cpr (pr_world pr)) \<and>
     o_fh (w_input_ob (pr_world pr)) \<noteq> Some f \<and> o_fh (w_analysis_ob (pr_world pr)) \<noteq> Some f"

definition same_file :: "string \<Rightarrow> 'm hs_process \<Rightarrow> 'm hs_process \<Rightarrow> bool" where
  "same_file f pr pr' \<longleftrightarrow>
     fs_get (w_fs (pr_world pr')) f = fs_get (w_fs (pr_world pr)) f \<and>
     fs_denied (w_fs (pr_world pr')) = fs_denied (w_fs (pr_world pr))"

lemma same_file_trans: "same_file f pr pr1 \<Longrightarrow> same_file f pr1 pr2 \<Longrightarrow> same_file f pr pr2"
  by (simp add: same_file_def)

lemma ip_inject_checkpoint_name: "ip_inject_checkpoint m pb d s p = (rv, p') \<Longrightarrow> ip_name p' = ip_name p"
  by (auto simp: ip_inject_checkpoint_def split: prod.splits)

lemma ip_detach_result:
  assumes "ip_detach cfg ex i p ret ips = Inr (ips', term)"
  shows "ips_list ips' = (ips_list ips)[i := None] \<and> ips_cpr ips' = ip_saved p (ips_cpr ips) \<and>
    snd (ips_output ips') = snd (ips_output ips) \<and>
    (last f = CHR ''p'' \<longrightarrow> fs_get (ips_fs ips') f = fs_get (ips_fs ips) f) \<and> fs_denied (ips_fs ips') = fs_denied (ips_fs ips)"
  using assms
  by (auto simp: ip_detach_def ip_saved_def set_ips_fs_def ips_fs_def Let_def save_err_keeps split: sum.splits)

lemma remove_checkpoint_q_ok: "cpr_ok c \<Longrightarrow> cpr_ok (remove_checkpoint_q c n q)"
  by (simp add: remove_checkpoint_q_def hs_remove_checkpoint_def cprtab.inv_del)

lemma op_detach_result:
  assumes "op_detach fmt_f run_path ex i th fs ops = (fs', ops', term)"
  shows "ops_list ops' = (ops_list ops)[i := None] \<and> (cpr_ok (ops_cpr ops) \<longrightarrow> cpr_ok (ops_cpr ops')) \<and>
    (last f = CHR ''p'' \<longrightarrow> fs_get fs' f = fs_get fs f) \<and> fs_denied fs' = fs_denied fs"
  using assms
  by (auto simp: op_detach_def op_leave_def Let_def save_err_keeps remove_checkpoint_q_ok op_saved_ok)

lemma op_turn_name: "op_turn scan expand ts cfg env cpr th = Inr (r, th') \<Longrightarrow> op_name (th_plugin th') = op_name (th_plugin th)"
  by (drule op_turn_fixed) (simp add: op_fixed_def)

lemma map_replace: "i < length xs \<Longrightarrow> f y = f (xs ! i) \<Longrightarrow> map f (xs[i := y]) = map f xs"
  by (metis length_map list_update_id map_update nth_map)

lemma with_queue_ok:
  assumes "keeps_file f (input_queue pr) q" and "last f = CHR ''p''" and "process_ok f pr"
  shows "process_ok f (with_input_queue q pr) \<and> same_file f pr (with_input_queue q pr)"
  using assms
  by (auto simp: keeps_file_def with_input_queue_def process_ok_def same_file_def input_queue_def names_ok_def)

lemma output_queue_ok:
  assumes "keeps_file f (output_queue pr) q" and "last f = CHR ''p''" and "process_ok f pr"
  shows "process_ok f (set_output_queue q pr) \<and> same_file f pr (set_output_queue q pr)"
  using assms
  by (auto simp: keeps_file_def set_output_queue_def process_ok_def same_file_def output_queue_def names_ok_def
      split: prod.split)

lemma with_analysis_ok:
  assumes "keeps_file f (analysis_queue pr) (as_queue s)" and "last f = CHR ''p''" and "process_ok f pr"
    and "i < length (w_threads (pr_world pr))" and "hsi_name (at_input (as_at s)) = hsi_name (at_input (w_threads (pr_world pr) ! i))"
  shows "process_ok f (with_analysis i s pr) \<and> same_file f pr (with_analysis i s pr)"
proof -
  have "world_names (pr_world (with_analysis i s pr)) = world_names (pr_world pr)"
    using assms(4,5) by (simp add: world_names_def with_analysis_def map_replace)
  from names_ok_cong [OF this] assms(1-3) show ?thesis
    by (auto simp: keeps_file_def with_analysis_def process_ok_def same_file_def analysis_queue_def)
qed

lemma with_input_ok:
  assumes "process_ok f pr" and "i < length (w_inputs (pr_world pr))" and "w_inputs (pr_world pr) ! i = Some p"
    and "ip_name p' = ip_name p"
  shows "process_ok f (with_input i p' pr) \<and> same_file f pr (with_input i p' pr)"
proof -
  have "world_names (pr_world (with_input i p' pr)) = world_names (pr_world pr)"
    using assms(2-4) by (simp add: world_names_def with_input_def occupied_replace)
  from names_ok_cong [OF this] assms(1) show ?thesis
    by (auto simp: with_input_def process_ok_def same_file_def)
qed

lemma with_output_ok:
  fixes pr :: "'m hs_process"
  assumes "process_ok f pr" and "i < length (w_outputs (pr_world pr))" and "w_outputs (pr_world pr) ! i = Some th"
    and "op_name (th_plugin th') = op_name (th_plugin th)"
  shows "process_ok f (with_output i th' pr) \<and> same_file f pr (with_output i th' pr)"
proof -
  have "world_names (pr_world (with_output i th' pr)) = world_names (pr_world pr)"
    using assms(2-4) occupied_replace [of i "w_outputs (pr_world pr)" th "\<lambda>th. op_name (th_plugin th)" th']
    by (simp add: world_names_def with_output_def)
  from names_ok_cong [OF this] assms(1) show ?thesis
    by (auto simp: with_output_def process_ok_def same_file_def)
qed

lemma post_if_world [simp]: "pr_world (post_if b pr) = pr_world pr"
  by (simp add: post_if_def post_semaphore_def)

lemma post_if_ok [simp]: "process_ok f (post_if b pr) = process_ok f pr" "same_file f pr0 (post_if b pr) = same_file f pr0 pr"
  by (simp_all add: process_ok_def same_file_def)

lemma input_end_ok:
  assumes "ip_detach cfg ex i p ret (process_inputs pr) = Inr (ips, term)" and "last f = CHR ''p''" and "process_ok f pr"
    and "i < length (w_inputs (pr_world pr))" and "w_inputs (pr_world pr) ! i = Some p"
  shows "process_ok f (set_inputs ips pr) \<and> same_file f pr (set_inputs ips pr)"
proof -
  note d = ip_detach_result [OF assms(1), of f]
  note fr = occupied_free [OF assms(4,5)]
  obtain fs ob bp where o': "ips_output ips = (fs, ob, bp)" by (cases "ips_output ips")
  have w: "pr_world (set_inputs ips pr) = (pr_world pr)\<lparr>w_fs := fs, w_cpr := ip_saved p (w_cpr (pr_world pr)),
      w_inputs := (w_inputs (pr_world pr))[i := None]\<rparr>"
    and f: "fs_get fs f = fs_get (w_fs (pr_world pr)) f" "fs_denied fs = fs_denied (w_fs (pr_world pr))"
    using d o' assms(2) by (auto simp: set_inputs_def process_inputs_def ips_fs_def Let_def)
  have "names_ok (pr_world (set_inputs ips pr))"
    using assms(3) fr(1) fr(2) [of ip_name] unfolding w by (auto simp: process_ok_def names_ok_def)
  with assms(3) f show ?thesis unfolding process_ok_def same_file_def w by (simp add: ip_saved_ok)
qed

lemma output_end_ok:
  fixes pr :: "'m hs_process"
  assumes "op_detach fmt_f run_path ox i th (w_fs (pr_world pr)) (process_outputs pr) = (fs, ops, term)"
    and "last f = CHR ''p''" and "process_ok f pr"
    and "i < length (w_outputs (pr_world pr))" and "w_outputs (pr_world pr) ! i = Some th"
  shows "process_ok f (set_outputs fs ops pr) \<and> same_file f pr (set_outputs fs ops pr)"
proof -
  note d = op_detach_result [OF assms(1), of f]
  note fr = occupied_free [OF assms(4,5)]
  have w: "pr_world (set_outputs fs ops pr) = (pr_world pr)\<lparr>w_fs := fs, w_cpr := ops_cpr ops,
      w_outputs := (w_outputs (pr_world pr))[i := None]\<rparr>"
    and f: "fs_get fs f = fs_get (w_fs (pr_world pr)) f" "fs_denied fs = fs_denied (w_fs (pr_world pr))"
      "cpr_ok (w_cpr (pr_world pr)) \<Longrightarrow> cpr_ok (ops_cpr ops)"
    using d assms(2) by (auto simp: process_outputs_def Let_def)
  have "names_ok (pr_world (set_outputs fs ops pr))"
    using assms(3) fr(1) fr(2) [of "\<lambda>th. op_name (th_plugin th)"] unfolding w by (auto simp: process_ok_def names_ok_def)
  with assms(3) f show ?thesis unfolding process_ok_def same_file_def w by simp
qed

lemma thread_step_ok:
  assumes "thread_step lib cfg pr pr'" and "last f = CHR ''p''" and "process_ok f pr"
  shows "process_ok f pr' \<and> same_file f pr pr'"
  using assms(1)
proof cases
  case (input_checkpoint i p m pb d s rv p')
  then show ?thesis using with_input_ok [OF assms(3)] ip_inject_checkpoint_name by metis
next
  case (input_message env rv pb q)
  then show ?thesis using with_queue_ok [OF ip_inject_queue_keeps assms(2,3)] by metis
next
  case (input_end i p ex ret ips tm)
  then show ?thesis using input_end_ok [OF _ assms(2,3)] by simp
next
  case (analysis_turn i aenv l stop s' l')
  have "as_queue (analysis_state i pr) = analysis_queue pr" "as_at (analysis_state i pr) = w_threads (pr_world pr) ! i"
    by (simp_all add: analysis_state_def)
  then show ?thesis
    unfolding analysis_turn(1)
    using with_analysis_ok [OF _ assms(2,3) analysis_turn(2)] at_turn_keeps [OF analysis_turn(3)] at_turn_name [OF analysis_turn(3)]
    by metis
next
  case (analysis_end i fin s')
  have "as_queue (analysis_state i pr) = analysis_queue pr" "as_at (analysis_state i pr) = w_threads (pr_world pr) ! i"
    by (simp_all add: analysis_state_def)
  then show ?thesis
    unfolding analysis_end(1)
    using with_analysis_ok [OF _ assms(2,3) analysis_end(2)] shutdown_timer_keeps [OF analysis_end(3)]
      shutdown_timer_input [OF analysis_end(3)]
    by metis
next
  case (output_turn i th tenv r th')
  then show ?thesis using with_output_ok [OF assms(3)] op_turn_name by metis
next
  case (output_message m res q)
  then show ?thesis using output_queue_ok [OF op_inject_keeps assms(2,3)] by metis
next
  case (output_end i th ox fs ops tm)
  then show ?thesis using output_end_ok [OF _ assms(2,3)] by simp
next
  case (stdio_drain n fs ob)
  then show ?thesis
    using with_queue_ok [OF _ assms(2,3)] drain_output_keeps [OF stdio_drain(2)] by (simp add: input_queue_def)
next
  case (signal sigs)
  then show ?thesis using assms(3) by (simp add: same_file_def)
qed

section \<open>Rounds\<close>

lemma visit_slots_map:
  assumes "visit_slots f i xs s = Inr (s', ys)" and "\<And>j s x s1 y. f j s x = Inr (s1, y) \<Longrightarrow> g y = g x"
  shows "map g (occupied ys) = map g (occupied xs)"
  using assms by (induction f i xs s arbitrary: ys rule: visit_slots.induct) (fastforce split: sum.splits)+

lemma input_stats_names:
  assumes "input_stats env w = Inr w'"
  shows "map ip_name (occupied (w_inputs w')) = map ip_name (occupied (w_inputs w))"
proof -
  obtain ci cpr ps fs ob cp where v: "visit_slots input_plugin_stats 0 (w_inputs w) (w_info w, w_cpr w) = Inr ((ci, cpr), ps)"
    and w': "w_inputs w' = ps"
    using assms by (auto simp: input_stats_def split: sum.splits)
  have "map ip_name (occupied ps) = map ip_name (occupied (w_inputs w))"
    by (rule visit_slots_map [OF v]) (auto simp: input_plugin_stats_def Let_def split: prod.splits sum.splits if_splits)
  then show ?thesis by (simp add: w')
qed

lemma output_stats_names:
  fixes w :: "'m cp_world"
  assumes "output_stats env w = Inr w'"
  shows "map (\<lambda>th. op_name (th_plugin th)) (occupied (w_outputs w')) = map (\<lambda>th. op_name (th_plugin th)) (occupied (w_outputs w))"
proof -
  obtain ci cpr ths where v: "visit_slots (output_plugin_stats env) 0 (w_outputs w) (w_info w, w_cpr w) = Inr ((ci, cpr), ths)"
    and w': "w_outputs w' = ths"
    using assms by (auto simp: output_stats_def split: sum.splits)
  have "map (\<lambda>th. op_name (th_plugin th)) (occupied ths) = map (\<lambda>th. op_name (th_plugin th)) (occupied (w_outputs w))"
    by (rule visit_slots_map [OF v])
      (auto simp: output_plugin_stats_def report_output_def Let_def split: prod.splits if_splits)
  then show ?thesis by (simp add: w')
qed

lemma round_names:
  assumes "hs_write_checkpoints cpw env w = Inr w'"
  shows "world_names w' = world_names w"
proof -
  obtain w1 w2 w3 fs where s: "input_stats env (begin_round cpw w) = Inr w1" "analysis_stats env w1 = Inr w2"
      "output_stats env w2 = Inr w3"
    and w': "w' = (set_min_ids (close_reports cpw env w3))\<lparr>w_info := count_sample (w_info w3), w_fs := fs\<rparr>"
    by (rule hs_write_checkpoints_steps [OF assms])
  note b = begin_round_result [of cpw w]
  note i = input_stats_result [OF s(1)]
  note a = analysis_prefix_result [OF s(2) [unfolded analysis_stats_def] order.refl]
  note o' = output_stats_result [OF s(3)]
  note c = close_reports_result [of cpw env w3]
  have t: "map thread_position (w_threads w2) = map thread_position (w_threads w)" using a i b by simp
  have "map (fst \<circ> thread_position) (w_threads w2) = map (fst \<circ> thread_position) (w_threads w)"
    unfolding map_map [symmetric] t by (rule refl)
  then have "map (\<lambda>th. hsi_name (at_input th)) (w_threads w2) = map (\<lambda>th. hsi_name (at_input th)) (w_threads w)"
    by (simp add: thread_position_def comp_def)
  then show ?thesis
    using input_stats_names [OF s(1)] output_stats_names [OF s(3)] b i a o' c
    by (simp add: world_names_def w' set_min_ids_def)
qed

lemma round_ok:
  assumes "hs_write_checkpoints cpw env (pr_world pr) = Inr w'" and "process_ok f pr"
  shows "process_ok f (pr\<lparr>pr_world := w'\<rparr>)"
proof -
  note r = hs_write_checkpoints_result [OF assms(1)]
  have "cpr_ok (w_cpr w')" unfolding r(1) by (rule collected_ok) (use assms(2) in \<open>simp add: process_ok_def\<close>)
  with r(4,5) assms(2) names_ok_cong [OF round_names [OF assms(1)]] show ?thesis by (simp add: process_ok_def)
qed

text \<open>The file of the last round that was completed is the one on disk.\<close>

definition last_round :: "string \<Rightarrow> hs_checkpoint_writer \<Rightarrow> 'm hs_process \<Rightarrow> ('m cp_world \<times> cpw_env) option \<Rightarrow> bool" where
  "last_round f cpw pr lr \<longleftrightarrow>
     (case lr of
        None \<Rightarrow> True
      | Some (w, env) \<Rightarrow>
          names_ok w \<and> cpr_ok (w_cpr w) \<and> fs_denied (w_fs w) = fs_denied (w_fs (pr_world pr)) \<and>
          (\<exists>w'. hs_write_checkpoints cpw env w = Inr w' \<and> fs_denied (w_fs w') = fs_denied (w_fs (pr_world pr)) \<and>
             fs_get (w_fs (pr_world pr)) f = fs_get (w_fs w') f))"

lemma process_run_ok:
  assumes "process_run lib cfg cpw pr0 pr lr" and "last f = CHR ''p''" and "process_ok f pr0"
  shows "process_ok f pr \<and> fs_denied (w_fs (pr_world pr)) = fs_denied (w_fs (pr_world pr0)) \<and> last_round f cpw pr lr"
  using assms(1)
proof induction
  case start
  then show ?case using assms(3) by (simp add: last_round_def)
next
  case (thread pr lr pr')
  then have ok: "process_ok f pr" "fs_denied (w_fs (pr_world pr)) = fs_denied (w_fs (pr_world pr0))" "last_round f cpw pr lr"
    by simp_all
  from thread_step_ok [OF thread.hyps(2) assms(2) ok(1)] ok show ?case
    by (auto simp: same_file_def last_round_def split: option.splits)
next
  case (round pr lr env w')
  then have ok: "process_ok f pr" "fs_denied (w_fs (pr_world pr)) = fs_denied (w_fs (pr_world pr0))" by simp_all
  have "names_ok (pr_world pr)" "cpr_ok (w_cpr (pr_world pr))" using ok(1) by (simp_all add: process_ok_def)
  with round_ok [OF round.hyps(2) ok(1)] hs_write_checkpoints_result(7) [OF round.hyps(2)] ok(2) round.hyps(2)
  show ?case by (simp add: last_round_def)
qed

text \<open>What a plugin must be to be saved whole: see the properties about the longest checkpoint.\<close>

definition positions_storable :: "'m cp_world \<Rightarrow> bool" where
  "positions_storable w \<longleftrightarrow>
     (\<forall>p \<in> set (occupied (w_inputs w)). ip_storable p) \<and>
     (\<forall>th \<in> set (w_threads w). printable_cp (at_cp th)) \<and>
     (\<forall>th \<in> set (occupied (w_outputs w)). op_storable (th_plugin th))"

lemma names_world_ok: "names_ok w \<Longrightarrow> cpr_ok (w_cpr w) \<Longrightarrow> positions_storable w \<Longrightarrow> world_ok w"
  by (simp add: names_ok_def world_ok_def positions_storable_def ip_storable_def)

lemma writer_path_last:
  assumes "hs_init_checkpoint_writer path = Inr cpw"
  shows "last (cpw_cp_path cpw) = CHR ''p''"
proof -
  have "cpw_cp_path cpw = path @ ''/hindsight.cp''"
    using hs_init_checkpoint_writer_paths(1) [OF assms] by (simp add: hs_get_fqfn_def Let_def split: if_splits)
  then show ?thesis by simp
qed

section \<open>Properties\<close>



end
