(* ===== verification/HS_Startup.thy ===== *)
theory HS_Startup
  imports HS_Crash
begin

text \<open>
  The state the process starts in: the names of its plugins come from the files of the run
  directories, so no name is there twice and each is of its kind, the table is well formed and the
  queue writers have their own files open. Every state the process reaches is then as the
  checkpoint writer needs it.
\<close>

section \<open>The file system stays one\<close>

named_theorems fs_ok_intros

lemma fs_ok_put [fs_ok_intros]: "fs_ok fs \<Longrightarrow> fs_ok (fs_put fs p c)"
  by (rule fstab.inv_put)

lemma fs_ok_del [fs_ok_intros]: "fs_ok fs \<Longrightarrow> fs_ok (fs_del fs p)"
  by (rule fstab.inv_del)

lemma fs_ok_append [fs_ok_intros]: "fs_ok fs \<Longrightarrow> fs_ok (fs_append fs p c)"
  by (auto simp: fs_append_def fs_ok_put split: option.split)

lemma fs_ok_unlink [fs_ok_intros]: "fs_ok fs \<Longrightarrow> fs_ok (snd (unlink fs p))"
  by (auto simp: unlink_def fs_ok_del)

lemma fs_ok_rename [fs_ok_intros]: "fs_ok fs \<Longrightarrow> fs_ok (snd (rename fs p q))"
  by (auto simp: rename_def fs_ok_del fs_ok_put split: option.split)

lemma fs_ok_fopen_we: "fopen_we fs p = Some fs' \<Longrightarrow> fs_ok fs \<Longrightarrow> fs_ok fs'"
  by (auto simp: fopen_we_def fs_ok_put split: if_splits)

lemma fs_ok_fopen_ae: "fopen_ae fs p = Some fs' \<Longrightarrow> fs_ok fs \<Longrightarrow> fs_ok fs'"
  by (auto simp: fopen_ae_def fs_ok_put split: if_splits option.splits)

lemma fs_ok_mkdir: "mkdir fs d = Some fs' \<Longrightarrow> fs_ok fs \<Longrightarrow> fs_ok fs'"
  by (auto simp: mkdir_def fs_ok_def split: if_splits)

lemma fs_ok_prune [fs_ok_intros]: "fs_ok fs \<Longrightarrow> fs_ok (hs_prune_err fs d)"
proof -
  have "fs_ok fs \<Longrightarrow> fs_ok (prune_entries fs d es)" for es
    by (induction fs d es rule: prune_entries.induct)
      (auto simp: hs_remove_file_def fs_ok_unlink split: option.split)
  then show "fs_ok fs \<Longrightarrow> fs_ok (hs_prune_err fs d)" by (simp add: hs_prune_err_def split: option.split)
qed

lemma fs_ok_save_err [fs_ok_intros]: "fs_ok fs \<Longrightarrow> fs_ok (hs_save_termination_err fs stamp path name err)"
  by (auto simp: hs_save_termination_err_def common_termination_err_def fs_ok_append dest: fs_ok_fopen_we split: option.splits)

lemma fs_ok_init_output:
  assumes "hs_init_output fs path sub = Inr (fs', ob)" and "fs_ok fs"
  shows "fs_ok fs' \<and> (\<exists>d i. o_fh ob = Some (log_name d i))"
  using assms
  by (auto simp: hs_init_output_def hs_open_output_file_def close_output_def flush_output_def format_output_name_def
      fopen_output_def Let_def split: option.splits if_splits dest!: fs_ok_mkdir fs_ok_fopen_ae)

text \<open>Creating a sandbox runs foreign code; it must leave a directory listing that names no file twice.\<close>

definition keeps_listing :: "sandbox_lib \<Rightarrow> bool" where
  "keeps_listing lib \<longleftrightarrow> (\<forall>type fs f st text. fs_ok fs \<longrightarrow> fs_ok (snd (sl_create lib type fs f st text)))"

lemma fs_ok_bad_state: "hs_is_bad_state rd fs path name st = Inr (b, fs') \<Longrightarrow> fs_ok fs \<Longrightarrow> fs_ok fs'"
  by (auto simp: hs_is_bad_state_def Let_def intro!: fs_ok_unlink split: option.splits)

lemma fs_ok_create:
  assumes "create_sandbox lib type fs path name f st text = Inr (b, fs')" and "keeps_listing lib" and "fs_ok fs"
  shows "fs_ok fs'"
proof -
  have c: "fs_ok (snd (sl_create lib type fs0 f st text))" if "fs_ok fs0" for fs0
    using assms(2) that by (simp add: keeps_listing_def)
  then show ?thesis
    using assms(1,3) c [OF assms(3)]
    by (auto simp: create_sandbox_def split: prod.splits bool.splits sum.splits dest!: fs_ok_bad_state) (metis snd_conv)+
qed

lemma fs_ok_prepare:
  assumes "prepare_sandbox lib type ptype fs cfg sbc = Inr (r, fs')" and "keeps_listing lib" and "fs_ok fs"
  shows "fs_ok fs'"
proof -
  have "fs_ok fs1" if "hs_output_runtime_cfg emit l fs type cfg sbc = (b, fs1)" for emit l b fs1
    using that assms(3) by (auto simp: hs_output_runtime_cfg_def Let_def fs_ok_append dest!: fs_ok_fopen_we split: prod.splits option.splits)
  then show ?thesis
    using assms by (auto simp: prepare_sandbox_def Let_def split: option.splits if_splits prod.splits bool.splits sum.splits
        dest!: fs_ok_create)
qed

lemma fs_ok_load_sandbox:
  assumes "hs_load_sandbox_config lenv fs dir fn dflt type = Inr (fs', r)" and "fs_ok fs"
  shows "fs_ok fs'"
  using assms
  by (auto simp: hs_load_sandbox_config_def Let_def intro!: fs_ok_save_err
      split: if_splits option.splits sum.splits prod.splits bool.splits)

section \<open>Names from files\<close>

lemma readdir_distinct: "readdir fs dir = Some es \<Longrightarrow> fs_ok fs \<Longrightarrow> distinct es"
proof -
  have "distinct ps \<Longrightarrow> distinct (List.map_filter (entry_of dir) ps)" for ps
  proof (induction ps)
    case (Cons p ps)
    have "n \<notin> set (List.map_filter (entry_of dir) ps)" if "entry_of dir p = Some n" for n
    proof
      assume "n \<in> set (List.map_filter (entry_of dir) ps)"
      then obtain q where "q \<in> set ps" "entry_of dir q = Some n" by (auto simp: map_filter_def)
      with that Cons.prems show False using entry_of_Some [of dir p n] entry_of_Some [of dir q n] by simp
    qed
    with Cons show ?case by (cases "entry_of dir p") (simp_all add: map_filter_def)
  qed (simp add: map_filter_def)
  then show "readdir fs dir = Some es \<Longrightarrow> fs_ok fs \<Longrightarrow> distinct es"
    by (auto simp: readdir_def fs_ok_def split: if_splits)
qed

lemma create_name_inj:
  assumes "hs_has_ext f hs_cfg_ext" and "hs_has_ext g hs_cfg_ext" and "create_name pre f = create_name pre g"
  shows "f = g"
  using assms by (auto simp: hs_has_ext_iff create_name_def)

text \<open>The names of a list, of plugins loaded from configurations among the entries \<open>es\<close>.\<close>

definition named_by :: "string \<Rightarrow> string list \<Rightarrow> string list \<Rightarrow> bool" where
  "named_by pre es ns \<longleftrightarrow>
     distinct ns \<and> (\<forall>n \<in> set ns. \<exists>e \<in> set es. hs_has_ext e hs_cfg_ext \<and> n = create_name pre e)"

lemma named_by_nil [simp]: "named_by pre [] []"
  by (simp add: named_by_def)

lemma named_by_more: "named_by pre es ns \<Longrightarrow> named_by pre (es @ [e]) ns"
  by (auto simp: named_by_def)

lemma named_by_add:
  assumes "named_by pre es ns" and "e \<notin> set es" and "hs_has_ext e hs_cfg_ext"
    and "mset ns' = add_mset (create_name pre e) (mset ns)"
  shows "named_by pre (es @ [e]) ns'"
proof -
  have "mset ns' = mset (create_name pre e # ns)" using assms(4) by simp
  then have d: "distinct ns' \<longleftrightarrow> distinct (create_name pre e # ns)" and s: "set ns' = insert (create_name pre e) (set ns)"
    by (rule mset_eq_imp_distinct_iff, metis assms(4) set_mset_add_mset_insert set_mset_mset)
  have "create_name pre e \<notin> set ns"
    using assms(1-3) create_name_inj by (auto simp: named_by_def) blast
  with d s assms(1,3) show ?thesis by (auto simp: named_by_def)
qed

lemma named_kinds:
  "take (Suc (length ''input'')) n = ''input'' @ ''.'' \<Longrightarrow> input_name n"
  "take (Suc (length ''output'')) n = ''output'' @ ''.'' \<Longrightarrow> output_name n"
  by (simp_all add: input_name_def output_name_def eval_nat_numeral)

lemma named_by_prefix: "named_by pre es ns \<Longrightarrow> n \<in> set ns \<Longrightarrow> take (Suc (length pre)) n = pre @ ''.''"
  by (auto simp: named_by_def create_name_def)

section \<open>Loading at startup\<close>

definition inputs_named :: "string list \<Rightarrow> hs_input_plugins \<Rightarrow> bool" where
  "inputs_named es ips \<longleftrightarrow> named_by ''input'' es (map ip_name (occupied (ips_list ips))) \<and> fs_ok (ips_fs ips)"

lemma load_input_named:
  assumes "load_input_plugin lib m cfg dir e ips = Inr ips'" and "inputs_named es ips" and "e \<notin> set es" and "keeps_listing lib"
  shows "inputs_named (es @ [e]) ips' \<and> ips_cpr ips' = ips_cpr ips \<and> snd (ips_output ips') = snd (ips_output ips)"
proof -
  have "fs_ok (ips_fs ips)" using assms(2) by (simp add: inputs_named_def)
  obtain fs1 r where l: "hs_load_sandbox_config (sl_lua lib) (ips_fs ips) dir e (cfg_ipd cfg) (CHR ''i'') = Inr (fs1, r)"
    using assms(1) by (auto simp: load_input_plugin_def split: sum.splits prod.splits)
  have f1: "fs_ok fs1" by (rule fs_ok_load_sandbox [OF l]) fact
  show ?thesis
  proof (cases r)
    case None
    then show ?thesis
      using assms(1,2) l f1 by (auto simp: load_input_plugin_def inputs_named_def set_ips_fs_def ips_fs_def named_by_more)
  next
    case (Some sbc)
    then obtain q fs2 where c: "create_input_plugin lib fs1 cfg sbc = Inr (q, fs2)"
      using assms(1) l by (auto simp: load_input_plugin_def split: sum.splits prod.splits)
    then have f2: "fs_ok fs2"
      by (auto simp: create_input_plugin_def split: sum.splits prod.splits option.splits
          intro: fs_ok_prepare [OF _ assms(4) f1])
    note n = loaded_name [OF l [unfolded Some]]
    show ?thesis
    proof (cases q)
      case None
      then show ?thesis
        using assms(1,2) l Some c f2 by (auto simp: load_input_plugin_def inputs_named_def set_ips_fs_def ips_fs_def named_by_more)
    next
      case (Some p)
      then have p: "ip_name p = create_name ''input'' e"
        using c n by (auto simp: create_input_plugin_def init_input_plugin_def type_prefix_def str_of_def
            split: sum.splits prod.splits option.splits)
      have i: "ips' = add_to_input_plugins m p (set_ips_fs fs2 ips)"
        using assms(1) l \<open>r = Some sbc\<close> c Some by (simp add: load_input_plugin_def)
      obtain p1 where p1: "ips_list ips' = slot_add p1 (ips_list ips)" "ip_name p1 = ip_name p"
        by (rule that [of "ip_lookup m (p\<lparr>ip_list_index := int (free_slot (ips_list ips))\<rparr>) (ips_cpr ips)"])
          (simp_all add: i add_to_input_plugins_def Let_def set_ips_fs_def ip_lookup_def)
      have "mset (map ip_name (occupied (ips_list ips'))) = add_mset (create_name ''input'' e) (mset (map ip_name (occupied (ips_list ips))))"
        unfolding p1(1) using p1(2) p slot_add_occupied [of p1 "ips_list ips"] by simp
      with named_by_add [OF _ assms(3)] assms(2) n f2 show ?thesis
        by (auto simp: inputs_named_def i add_to_input_plugins_def Let_def set_ips_fs_def ips_fs_def)
    qed
  qed
qed

lemma fold_named:
  assumes "fold_exit f es s = Inr s'" and "distinct (seen @ es)" and "I seen s"
    and step: "\<And>seen e s s'. f e s = Inr s' \<Longrightarrow> I seen s \<Longrightarrow> e \<notin> set seen \<Longrightarrow> I (seen @ [e]) s'"
  shows "I (seen @ es) s'"
  using assms(1-3)
proof (induction es arbitrary: seen s)
  case (Cons e es)
  obtain t where t: "f e s = Inr t" "fold_exit f es t = Inr s'" using Cons.prems(1) by (auto split: sum.splits)
  have "I (seen @ [e]) t" using step [OF t(1) Cons.prems(3)] Cons.prems(2) by simp
  from Cons.IH [OF t(2) _ this] Cons.prems(2) show ?case by simp
qed simp

lemma load_inputs_named:
  assumes "hs_load_input_startup lib m cfg ips = Inr ips'" and "ips_list ips = []" and "fs_ok (ips_fs ips)" and "keeps_listing lib"
  shows "\<exists>es. inputs_named es ips' \<and> ips_cpr ips' = ips_cpr ips \<and> snd (ips_output ips') = snd (ips_output ips)"
proof -
  let ?dir = "str_of (cfg_run_path_input cfg)"
  let ?fs = "hs_prune_err (ips_fs ips) ?dir"
  obtain es where es: "readdir ?fs ?dir = Some es"
    and f: "fold_exit (load_input_plugin lib m cfg ?dir) es (set_ips_fs ?fs ips) = Inr ips'"
    using assms(1) by (auto simp: hs_load_input_startup_def Let_def split: option.splits)
  have ok: "fs_ok ?fs" by (rule fs_ok_prune) (rule assms(3))
  let ?I = "\<lambda>seen x. inputs_named seen x \<and> ips_cpr x = ips_cpr ips \<and> snd (ips_output x) = snd (ips_output ips)"
  have "?I ([] @ es) ips'"
    by (rule fold_named [where I = ?I, OF f])
      (use readdir_distinct [OF es ok] assms(2,4) ok load_input_named in
        \<open>auto simp: inputs_named_def set_ips_fs_def ips_fs_def\<close>)
  then show ?thesis by auto
qed

definition outputs_named :: "string list \<Rightarrow> fsys \<times> 'm hs_output_plugins \<Rightarrow> bool" where
  "outputs_named es s \<longleftrightarrow>
     named_by ''output'' es (map (\<lambda>th. op_name (th_plugin th)) (occupied (ops_list (snd s)))) \<and>
     fs_ok (fst s) \<and> cpr_ok (ops_cpr (snd s))"

lemma op_sync_keeps:
  "op_sync fs path p cpr = Inr (q, c) \<Longrightarrow> op_name q = op_name p \<and> (cpr_ok cpr \<longrightarrow> cpr_ok c)"
  by (auto simp: op_sync_def op_sync_input_def op_sync_analysis_def remove_checkpoint_q_ok split: if_splits sum.splits)

lemma case_Inr_InrE:
  assumes "(case x of Inl e \<Rightarrow> Inl e | Inr y \<Rightarrow> g y) = Inr z"
  obtains y where "x = Inr y" and "g y = Inr z"
  using assms by (cases x) simp_all

lemma add_to_output_result:
  fixes ops :: "'m hs_output_plugins"
  assumes "add_to_output_plugins fs cfg p dyn ops = Inr ops'"
  obtains q c where "op_name q = op_name p" and "cpr_ok (ops_cpr ops) \<longrightarrow> cpr_ok c"
    and "ops_list ops' = slot_add (start_thread q) (ops_list ops)" and "ops_cpr ops' = c"
proof -
  let ?p = "p\<lparr>op_list_index := int (free_slot (ops_list ops))\<rparr>"
  let ?path = "if dyn then None else cfg_output_path cfg"
  obtain q c where s: "op_sync fs ?path ?p (ops_cpr ops) = Inr (q, c)"
  proof (cases "op_sync fs ?path ?p (ops_cpr ops)")
    case (Inl e)
    then show ?thesis using assms by (simp add: add_to_output_plugins_def Let_def)
  next
    case (Inr r)
    then show ?thesis using that by (cases r) simp
  qed
  then have "ops' = ops\<lparr>ops_list := slot_add (start_thread q) (ops_list ops), ops_cpr := c, ops_list_cnt := ops_list_cnt ops + 1\<rparr>"
    using assms by (simp add: add_to_output_plugins_def Let_def)
  with op_sync_keeps [OF s] show ?thesis by (intro that [of q c]) simp_all
qed

lemma load_output_named:
  fixes ops ops' :: "'m hs_output_plugins"
  assumes "load_output_plugin lib fs cfg dir e dyn ops = Inr (fs', ops', a, b)" and "outputs_named es (fs, ops)"
    and "e \<notin> set es" and "keeps_listing lib"
  shows "outputs_named (es @ [e]) (fs', ops')"
proof -
  have fs: "fs_ok fs" "cpr_ok (ops_cpr ops)" using assms(2) by (simp_all add: outputs_named_def)
  obtain fs1 r where l: "hs_load_sandbox_config (sl_lua lib) fs dir e (cfg_opd cfg) (CHR ''o'') = Inr (fs1, r)"
    using assms(1) by (auto simp: load_output_plugin_def split: sum.splits prod.splits)
  have f1: "fs_ok fs1" by (rule fs_ok_load_sandbox [OF l fs(1)])
  show ?thesis
  proof (cases r)
    case None
    then show ?thesis using assms(1,2) l f1 by (auto simp: load_output_plugin_def outputs_named_def named_by_more)
  next
    case (Some sbc)
    then obtain q fs2 where c: "create_output_plugin lib fs1 cfg sbc = Inr (q, fs2)"
      using assms(1) l by (auto simp: load_output_plugin_def split: sum.splits prod.splits)
    then have f2: "fs_ok fs2"
      by (auto simp: create_output_plugin_def split: sum.splits prod.splits option.splits
          intro: fs_ok_prepare [OF _ assms(4) f1])
    note n = loaded_name [OF l [unfolded Some]]
    show ?thesis
    proof (cases q)
      case None
      then show ?thesis
        using assms(1,2) l Some c f2 by (auto simp: load_output_plugin_def outputs_named_def named_by_more)
    next
      case (Some p)
      then have p: "op_name p = create_name ''output'' e"
        using c n by (auto simp: create_output_plugin_def init_output_plugin_def Let_def type_prefix_def str_of_def
            split: sum.splits prod.splits option.splits)
      obtain hsi where a: "add_to_output_plugins fs2 cfg (p\<lparr>op_input := hsi, op_analysis := hsi\<rparr>) dyn ops = Inr ops'" "fs' = fs2"
      proof -
        from assms(1) l \<open>r = Some sbc\<close> c Some
        have "(case hs_init_input (sl_init_ib lib) (ucast (cfg_max_message_size cfg)) (str_of (cfg_output_path cfg)) (op_name p) of
             Inl e \<Rightarrow> Inl e
           | Inr hsi \<Rightarrow>
               (case add_to_output_plugins fs2 cfg (p\<lparr>op_input := hsi, op_analysis := hsi\<rparr>) dyn ops of
                  Inl e \<Rightarrow> Inl e
                | Inr ops' \<Rightarrow> Inr (fs2, ops', True, sbc_rm_cp_terminate sbc))) = Inr (fs', ops', a, b)"
          by (simp add: load_output_plugin_def)
        then obtain hsi where "(case add_to_output_plugins fs2 cfg (p\<lparr>op_input := hsi, op_analysis := hsi\<rparr>) dyn ops of
            Inl e \<Rightarrow> Inl e | Inr ops' \<Rightarrow> Inr (fs2, ops', True, sbc_rm_cp_terminate sbc)) = Inr (fs', ops', a, b)"
          by (rule case_Inr_InrE)
        then obtain ops2 where o2: "add_to_output_plugins fs2 cfg (p\<lparr>op_input := hsi, op_analysis := hsi\<rparr>) dyn ops = Inr ops2"
          and e: "Inr (fs2, ops2, True, sbc_rm_cp_terminate sbc) = (Inr (fs', ops', a, b) :: hs_exit + _)"
          by (rule case_Inr_InrE)
        from e have "ops2 = ops'" "fs' = fs2" by simp_all
        with o2 show ?thesis using that by blast
      qed
      obtain p2 c2 where k: "op_name p2 = create_name ''output'' e" "cpr_ok c2"
        and o': "ops_list ops' = slot_add (start_thread p2) (ops_list ops)" "ops_cpr ops' = c2"
        by (rule add_to_output_result [OF a(1)]) (use fs(2) p that in simp)
      have "mset (map (\<lambda>th. op_name (th_plugin th)) (occupied (ops_list ops'))) =
          add_mset (create_name ''output'' e) (mset (map (\<lambda>th. op_name (th_plugin th)) (occupied (ops_list ops))))"
        unfolding o'(1) using k(1) slot_add_occupied [of "start_thread p2" "ops_list ops"] by simp
      with named_by_add [OF _ assms(3)] assms(2) n k(2) f2 a(2) o' show ?thesis by (auto simp: outputs_named_def)
    qed
  qed
qed

lemma load_output_entries_named:
  fixes ops :: "'m hs_output_plugins"
  assumes "load_output_entries lib cfg dir es fs ops = Inr s'" and "distinct (seen @ es)" and "outputs_named seen (fs, ops)"
    and "keeps_listing lib"
  shows "outputs_named (seen @ es) s'"
  using assms(1-3)
proof (induction es arbitrary: seen fs ops)
  case (Cons e es)
  obtain fs1 ops1 a b where l: "load_output_plugin lib fs cfg dir e False ops = Inr (fs1, ops1, a, b)"
    and r: "load_output_entries lib cfg dir es fs1 ops1 = Inr s'"
    using Cons.prems(1) by (auto split: sum.splits)
  have "outputs_named (seen @ [e]) (fs1, ops1)"
    by (rule load_output_named [OF l Cons.prems(3) _ assms(4)]) (use Cons.prems(2) in simp)
  from Cons.IH [OF r _ this] Cons.prems(2) show ?case by simp
qed simp

lemma load_outputs_named:
  fixes ops :: "'m hs_output_plugins"
  assumes "hs_load_output_startup lib cfg fs ops = Inr s'" and "ops_list ops = []" and "fs_ok fs" and "cpr_ok (ops_cpr ops)"
    and "keeps_listing lib"
  shows "\<exists>es. outputs_named es s'"
proof -
  let ?dir = "str_of (cfg_run_path_output cfg)"
  let ?fs = "hs_prune_err fs ?dir"
  obtain es where es: "readdir ?fs ?dir = Some es" and f: "load_output_entries lib cfg ?dir es ?fs ops = Inr s'"
    using assms(1) by (auto simp: hs_load_output_startup_def Let_def split: option.splits)
  have ok: "fs_ok ?fs" by (rule fs_ok_prune) (rule assms(3))
  have "outputs_named ([] @ es) s'"
    by (rule load_output_entries_named [OF f _ _ assms(5)])
      (use readdir_distinct [OF es ok] assms(2,4) ok in \<open>simp_all add: outputs_named_def\<close>)
  then show ?thesis by auto
qed

section \<open>The analysis threads\<close>

lemma init_threads_names:
  "init_threads init_ib cfg is = Inr ths \<Longrightarrow> map (\<lambda>th. hsi_name (at_input th)) ths = map analysis_name is"
  by (induction init_ib cfg "is" arbitrary: ths rule: init_threads.induct)
    (auto simp: init_analysis_thread_def hs_init_input_def split: sum.splits if_splits)

lemma add_to_analysis_names:
  "map (\<lambda>th. hsi_name (at_input th)) (aps_list (add_to_analysis_plugins cfg sbc p aps)) =
   map (\<lambda>th. hsi_name (at_input th)) (aps_list aps)"
proof (cases "unat (sbc_thread sbc mod ucast (cfg_analysis_threads cfg)) < length (aps_list aps)")
  case True
  then show ?thesis by (simp add: add_to_analysis_plugins_def Let_def map_replace at_add_plugin_def)
qed (simp add: add_to_analysis_plugins_def Let_def list_update_beyond linorder_not_less)

definition analysis_kept :: "hs_analysis_plugins \<Rightarrow> fsys \<times> hs_analysis_plugins \<times> int list \<Rightarrow> bool" where
  "analysis_kept aps0 s \<longleftrightarrow>
     map (\<lambda>th. hsi_name (at_input th)) (aps_list (fst (snd s))) = map (\<lambda>th. hsi_name (at_input th)) (aps_list aps0) \<and>
     aps_cpr (fst (snd s)) = aps_cpr aps0 \<and> aps_output (fst (snd s)) = aps_output aps0 \<and> fs_ok (fst s)"

lemma load_analysis_entry_kept:
  assumes "load_analysis_entry lib toint cfg dir e s = Inr s'" and "analysis_kept aps0 s" and "keeps_listing lib"
  shows "analysis_kept aps0 s'"
proof -
  obtain fs aps counts where s: "s = (fs, aps, counts)" by (cases s)
  have fs: "fs_ok fs" using assms(2) by (simp add: analysis_kept_def s)
  obtain fs1 r where l: "hs_load_sandbox_config (sl_lua lib) fs dir e (cfg_apd cfg) (CHR ''a'') = Inr (fs1, r)"
    using assms(1) by (auto simp: load_analysis_entry_def s split: sum.splits prod.splits)
  have f1: "fs_ok fs1" by (rule fs_ok_load_sandbox [OF l fs])
  show ?thesis
  proof (cases r)
    case None
    then show ?thesis using assms(1,2) l f1 by (auto simp: load_analysis_entry_def s analysis_kept_def)
  next
    case (Some sbc)
    obtain sbc1 counts1 where a: "assign_thread (sl_lua lib) toint cfg fs1 e sbc counts = (sbc1, counts1)" by fastforce
    obtain q fs2 where c: "create_analysis_plugin lib fs1 cfg sbc1 = Inr (q, fs2)"
      using assms(1) l Some a by (auto simp: load_analysis_entry_def s split: sum.splits prod.splits)
    then have f2: "fs_ok fs2"
      by (auto simp: create_analysis_plugin_def split: sum.splits prod.splits option.splits
          intro: fs_ok_prepare [OF _ assms(3) f1])
    have "aps_cpr (add_to_analysis_plugins cfg sbc1 p aps) = aps_cpr aps"
      "aps_output (add_to_analysis_plugins cfg sbc1 p aps) = aps_output aps" for p
      by (simp_all add: add_to_analysis_plugins_def Let_def)
    then show ?thesis
      using assms(1,2) l Some a c f2
      by (cases q) (auto simp: load_analysis_entry_def s analysis_kept_def add_to_analysis_names)
  qed
qed

lemma fs_ok_migrate: "migrate_rtc cfg dir e fs = Inr fs' \<Longrightarrow> fs_ok fs \<Longrightarrow> fs_ok fs'"
  by (auto simp: migrate_rtc_def Let_def fs_ok_append split: if_splits option.splits prod.splits bool.splits
      dest!: fs_ok_fopen_we dest: fs_ok_rename) (metis fs_ok_rename snd_conv)+

lemma load_analysis_kept:
  assumes "hs_load_analysis_startup lib toint cfg fs aps = Inr (fs', aps')" and "fs_ok fs" and "keeps_listing lib"
  shows "\<exists>counts. analysis_kept aps (fs', aps', counts)"
proof -
  let ?dir = "str_of (cfg_run_path_analysis cfg)"
  obtain es where es: "readdir (hs_prune_err fs ?dir) ?dir = Some es"
    using assms(1) by (auto simp: hs_load_analysis_startup_def Let_def split: option.splits)
  then obtain fs2 where m: "fold_exit (migrate_rtc cfg ?dir) es (hs_prune_err fs ?dir) = Inr fs2"
    using assms(1) by (auto simp: hs_load_analysis_startup_def Let_def split: sum.splits)
  let ?es2 = "case readdir fs2 ?dir of None \<Rightarrow> [] | Some es2 \<Rightarrow> es2"
  let ?counts = "fold (count_provisioned (sl_lua lib) toint cfg fs2 ?dir) ?es2 (replicate (length (aps_list aps)) 0)"
  obtain counts' where f: "fold_exit (load_analysis_entry lib toint cfg ?dir) ?es2 (fs2, aps, ?counts) = Inr (fs', aps', counts')"
    using assms(1) es m by (auto simp: hs_load_analysis_startup_def Let_def split: sum.splits)
  have "fs_ok fs2"
    using m by (rule fold_exit_invariant) (rule fs_ok_prune, rule assms(2), rule fs_ok_migrate)
  then have "analysis_kept aps (fs2, aps, ?counts)" by (simp add: analysis_kept_def)
  with f have "analysis_kept aps (fs', aps', counts')"
    by (rule fold_exit_invariant) (rule load_analysis_entry_kept [OF _ _ assms(3)])
  then show ?thesis by blast
qed

lemma start_analysis_names:
  "start_analysis_list fs cfg cpr ths = Inr ths' \<Longrightarrow>
   map (\<lambda>th. hsi_name (at_input th)) ths' = map (\<lambda>th. hsi_name (at_input th)) ths"
  by (induction fs cfg cpr ths arbitrary: ths' rule: start_analysis_list.induct)
    (auto simp: start_analysis_thread_def split: sum.splits)

section \<open>The whole start\<close>

lemma init_reader_ok: "hs_init_checkpoint_reader run fs path = Inr cpr \<Longrightarrow> cpr_ok cpr"
proof -
  have "cpr_ok \<lparr>cpr_values = [(''_G'', LTable 0)]\<rparr>" by (simp add: cpr_ok_def)
  then show "hs_init_checkpoint_reader run fs path = Inr cpr \<Longrightarrow> cpr_ok cpr"
    by (auto simp: hs_init_checkpoint_reader_def Let_def intro!: fold_ok cpr_ok_put split: option.splits if_splits)
qed

lemma cleanup_loop_ok: "cleanup_loop fs path n ks cpr = Inr cpr' \<Longrightarrow> cpr_ok cpr \<Longrightarrow> cpr_ok cpr'"
proof (induction ks arbitrary: cpr)
  case (Cons k ks)
  have "cleanup_entry fs path n k cpr = Inr c \<Longrightarrow> cpr_ok c" for c
    using Cons.prems(2)
    by (auto simp: cleanup_entry_def Let_def cprtab.inv_del split: option.splits if_splits prod.splits)
  with Cons show ?case by (auto split: sum.splits)
qed simp

lemma startup_ok:
  assumes "hs_startup lib cfg fs = Inr (cpw, pr)" and "fs_ok fs" and "keeps_listing (ml_sandbox lib)"
  shows "hs_init_checkpoint_writer (str_of (cfg_output_path cfg)) = Inr cpw \<and> process_ok (cpw_cp_path cpw) pr"
proof -
  obtain cpr ips fs2 aps fs3 ops where
    c: "start_checkpoints lib cfg fs = Inr cpr"
    and i: "start_inputs lib cfg fs cpr = Inr ips"
    and a: "start_analysis lib cfg (ips_fs ips) (ips_cpr ips) = Inr (fs2, aps)"
    and o': "hs_load_output_startup (ml_sandbox lib) cfg fs2 (hs_init_output_plugins (aps_cpr aps)) = Inr (fs3, ops)"
    and w: "hs_init_checkpoint_writer (str_of (cfg_output_path cfg)) = Inr cpw"
    and pr: "pr_world pr = \<lparr>w_fs = fs3, w_cpr = ops_cpr ops, w_inputs = ips_list ips, w_input_ob = fst (snd (ips_output ips)),
        w_threads = aps_list aps, w_analysis_ob = aps_output aps, w_outputs = ops_list ops, w_info = init_checkpoint_info\<rparr>"
    using assms(1) by (auto simp: hs_startup_def split: sum.splits)
  have cpr: "cpr_ok cpr"
    using c by (auto simp: start_checkpoints_def hs_cleanup_checkpoints_def split: sum.splits
        dest!: init_reader_ok intro: cleanup_loop_ok)
  obtain fs1 ob where io: "hs_init_output fs (str_of (cfg_output_path cfg)) hs_input_dir = Inr (fs1, ob)"
    and li: "hs_load_input_startup (ml_sandbox lib) (ml_malloc_ok lib) cfg
        (hs_init_input_plugins cpr (fs1, ob, \<lparr>bp_last_check = 0, bp_on = False\<rparr>)) = Inr ips"
    using i by (auto simp: start_inputs_def split: sum.splits)
  note f1 = fs_ok_init_output [OF io assms(2)]
  have "ips_list (hs_init_input_plugins cpr (fs1, ob, \<lparr>bp_last_check = 0, bp_on = False\<rparr>)) = []"
    "fs_ok (ips_fs (hs_init_input_plugins cpr (fs1, ob, \<lparr>bp_last_check = 0, bp_on = False\<rparr>)))"
    using f1 by (simp_all add: hs_init_input_plugins_def ips_fs_def)
  from load_inputs_named [OF li this assms(3)] obtain es where
    es: "inputs_named es ips" "ips_cpr ips = cpr" "fst (snd (ips_output ips)) = ob"
    by (auto simp: hs_init_input_plugins_def)
  obtain fsa aps0 aps1 where ia: "hs_init_analysis_plugins (sl_init_ib (ml_sandbox lib)) cfg (ips_cpr ips) (ips_fs ips) = Inr (fsa, aps0)"
    and la: "hs_load_analysis_startup (ml_sandbox lib) (ml_toint lib) cfg fsa aps0 = Inr (fs2, aps1)"
    and sa: "hs_start_analysis_threads fs2 cfg aps1 = Inr aps"
    using a by (auto simp: start_analysis_def split: sum.splits)
  obtain aob ths where ao: "hs_init_output (ips_fs ips) (str_of (cfg_output_path cfg)) hs_analysis_dir = Inr (fsa, aob)"
    and it: "init_threads (sl_init_ib (ml_sandbox lib)) cfg [0 ..< unat (cfg_analysis_threads cfg)] = Inr ths"
    and aps0: "aps0 = \<lparr>aps_list = ths, aps_cpr = ips_cpr ips, aps_output = aob\<rparr>"
    using ia by (auto simp: hs_init_analysis_plugins_def split: sum.splits)
  have "fs_ok (ips_fs ips)" using es(1) by (simp add: inputs_named_def)
  note fa = fs_ok_init_output [OF ao this]
  obtain counts where k: "analysis_kept aps0 (fs2, aps1, counts)" using load_analysis_kept [OF la _ assms(3)] fa by blast
  obtain ths' where st: "start_analysis_list fs2 cfg (aps_cpr aps1) (aps_list aps1) = Inr ths'" and aps: "aps = aps1\<lparr>aps_list := ths'\<rparr>"
    using sa by (auto simp: hs_start_analysis_threads_def split: sum.splits)
  have tn: "map (\<lambda>th. hsi_name (at_input th)) (aps_list aps) = map analysis_name [0 ..< unat (cfg_analysis_threads cfg)]"
    using start_analysis_names [OF st] init_threads_names [OF it] k aps aps0 by (simp add: analysis_kept_def)
  then have len: "length (aps_list aps) = unat (cfg_analysis_threads cfg)" by (metis diff_zero length_map length_upt)
  have ac: "aps_cpr aps = cpr" "aps_output aps = aob" "fs_ok fs2" using k aps aps0 es(2) by (simp_all add: analysis_kept_def)
  have "\<exists>es. outputs_named es (fs3, ops)"
    by (rule load_outputs_named [OF o' _ ac(3) _ assms(3)]) (simp_all add: hs_init_output_plugins_def ac(1) cpr)
  then obtain es' where eo: "outputs_named es' (fs3, ops)" by blast
  have nm: "input_name (ip_name p)" if "p \<in> set (occupied (ips_list ips))" for p
    by (rule named_kinds(1), rule named_by_prefix [of _ es "map ip_name (occupied (ips_list ips))"])
      (use es(1) that in \<open>simp_all add: inputs_named_def\<close>)
  have no: "output_name (op_name (th_plugin th))" if "th \<in> set (occupied (ops_list ops))" for th
    by (rule named_kinds(2), rule named_by_prefix [of _ es' "map (\<lambda>th. op_name (th_plugin th)) (occupied (ops_list ops))"])
      (use eo that in \<open>simp_all add: outputs_named_def\<close>)
  have "names_ok (pr_world pr)"
    using es(1) eo tn len nm no unfolding pr names_ok_def by (simp add: inputs_named_def outputs_named_def named_by_def)
  moreover have "o_fh ob \<noteq> Some (cpw_cp_path cpw)" "o_fh aob \<noteq> Some (cpw_cp_path cpw)"
    using f1 fa writer_path_last [OF w] last_log_name by fastforce+
  ultimately show ?thesis using w eo es(3) ac(2) by (simp add: process_ok_def pr outputs_named_def)
qed

section \<open>A sample start\<close>

text \<open>One input plugin; its configuration names the Lua file beside it.\<close>

definition startup_lib :: "string main_lib" where
  "startup_lib =
     (let L = \<lparr>ls_stack = [], ls_globals = [(LString ''filename'', LString ''x.lua''), (LString ''message_matcher'', LString ''TRUE'')],
              ls_tables = []\<rparr>;
          lua = \<lparr>lua_read_file = fs_get, lua_run = \<lambda>_. Inr L, lua_num_str = \<lambda>_. [], lua_stamp = []\<rparr>
      in sample_main_lib\<lparr>ml_sandbox := (ml_sandbox sample_main_lib)\<lparr>sl_lua := lua, sl_emit := \<lambda>_ _. ([], True)\<rparr>\<rparr>)"

definition startup_cfg :: hs_config where
  "startup_cfg = (init_config 1)\<lparr>cfg_output_path := Some ''o'', cfg_run_path := Some ''r'', cfg_run_path_input := Some ''r/input'',
     cfg_run_path_analysis := Some ''r/analysis'', cfg_run_path_output := Some ''r/output'', cfg_install_path := Some ''i''\<rparr>"

definition startup_fs :: fsys where
  "startup_fs =
     \<lparr>fs_files = [(''r/input/a.cfg'', ''c''), (''r/input/x.lua'', ''l'')],
      fs_dirs = [''r/input'', ''r/analysis'', ''r/output'', ''o''], fs_denied = []\<rparr>"


definition startup_fs1 :: fsys where
  "startup_fs1 = startup_fs\<lparr>fs_files := fs_files startup_fs @ [(''o/input/0.log'', [])], fs_dirs := fs_dirs startup_fs @ [''o/input'']\<rparr>"

definition startup_fs2 :: fsys where
  "startup_fs2 = startup_fs1\<lparr>fs_files := fs_files startup_fs1 @ [(''o/input.a.rtc'', [])]\<rparr>"

definition startup_fs3 :: fsys where
  "startup_fs3 = startup_fs2\<lparr>fs_files := fs_files startup_fs2 @ [(''o/analysis/0.log'', [])], fs_dirs := fs_dirs startup_fs2 @ [''o/analysis'']\<rparr>"

lemma startup_prepare:
  assumes "hs_find_lua fs ''i'' (str_of (sbc_dir sbc)) (str_of (sbc_filename sbc)) ptype HS_MAX_PATH = Some f"
    and "fs_denied fs = []" and "sbc_cfg_name sbc = Some name"
  shows "prepare_sandbox (ml_sandbox startup_lib) (CHR ''i'') ptype fs startup_cfg sbc =
    Inr (Some f, fs_append (fs_put fs (''o/'' @ name @ ''.rtc'') []) (''o/'' @ name @ ''.rtc'') [])"
proof -
  have c: "str_of (cfg_install_path startup_cfg) = ''i''" "str_of (cfg_output_path startup_cfg) = ''o''"
    by (simp_all add: startup_cfg_def)
  have l: "sl_emit (ml_sandbox startup_lib) = (\<lambda>_ _. ([], True))" "sl_create (ml_sandbox startup_lib) = (\<lambda>type fs f state text. (True, fs))"
    by (simp_all add: startup_lib_def sample_main_lib_def Let_def)
  show ?thesis
    unfolding prepare_sandbox_def c assms(1) l option.case Let_def hs_output_runtime_cfg_def create_sandbox_def fopen_we_def assms(2,3)
    by simp
qed

lemma startup_inputs:
  "\<exists>ips p. start_inputs startup_lib startup_cfg startup_fs \<lparr>cpr_values = [(''_G'', LTable 0)]\<rparr> = Inr ips \<and> ips_list ips = [Some p] \<and>
     ip_name p = ''input.a'' \<and> ips_cpr ips = \<lparr>cpr_values = [(''_G'', LTable 0)]\<rparr> \<and>
     ips_fs ips = startup_fs2"
proof -
  let ?cpr = "\<lparr>cpr_values = [(''_G'', LTable 0)]\<rparr> :: hs_checkpoint_reader"
  let ?lua = "sl_lua (ml_sandbox startup_lib)"
  have "case hs_load_sandbox_config ?lua startup_fs1 ''r/input'' ''a.cfg'' (cfg_ipd startup_cfg) (CHR ''i'') of Inl _ \<Rightarrow> False
    | Inr r \<Rightarrow> fst r = startup_fs1 \<and> (case snd r of None \<Rightarrow> False | Some sbc \<Rightarrow> sbc_cfg_name sbc = Some ''input.a'' \<and>
        hs_find_lua startup_fs1 ''i'' (str_of (sbc_dir sbc)) (str_of (sbc_filename sbc)) ''input'' HS_MAX_PATH = Some ''r/input/x.lua'')"
    by code_simp
  then obtain sbc where l1: "hs_load_sandbox_config ?lua startup_fs1 ''r/input'' ''a.cfg'' (cfg_ipd startup_cfg) (CHR ''i'') = Inr (startup_fs1, Some sbc)"
    and s: "sbc_cfg_name sbc = Some ''input.a''"
    and f: "hs_find_lua startup_fs1 ''i'' (str_of (sbc_dir sbc)) (str_of (sbc_filename sbc)) ''input'' HS_MAX_PATH = Some ''r/input/x.lua''"
    by (elim case_InrE case_SomeE conjE) (metis prod.collapse that)
  have "case hs_load_sandbox_config ?lua startup_fs2 ''r/input'' ''x.lua'' (cfg_ipd startup_cfg) (CHR ''i'') of Inl _ \<Rightarrow> False
    | Inr r \<Rightarrow> fst r = startup_fs2 \<and> snd r = None" by code_simp
  then have l2: "hs_load_sandbox_config ?lua startup_fs2 ''r/input'' ''x.lua'' (cfg_ipd startup_cfg) (CHR ''i'') = Inr (startup_fs2, None)"
    by (elim case_InrE conjE) (metis prod.collapse)
  have r: "readdir startup_fs1 ''r/input'' = Some [''a.cfg'', ''x.lua'']" "hs_prune_err startup_fs1 ''r/input'' = startup_fs1"
    "fs_append (fs_put startup_fs1 (''o/'' @ ''input.a'' @ ''.rtc'') []) (''o/'' @ ''input.a'' @ ''.rtc'') [] = startup_fs2"
    "fs_denied startup_fs1 = []" "str_of (cfg_run_path_input startup_cfg) = ''r/input''" "str_of (cfg_output_path startup_cfg) = ''o''"
    by code_simp+
  have "case hs_init_output startup_fs ''o'' hs_input_dir of Inl _ \<Rightarrow> False | Inr r \<Rightarrow> fst r = startup_fs1" by code_simp
  then obtain ob where o': "hs_init_output startup_fs ''o'' hs_input_dir = Inr (startup_fs1, ob)"
    by (elim case_InrE) (metis prod.collapse that)
  let ?p = "init_input_plugin sbc ''r/input/x.lua''"
  let ?q = "(startup_fs1, ob, \<lparr>bp_last_check = 0, bp_on = False\<rparr>)"
  let ?ips = "hs_init_input_plugins ?cpr ?q"
  have c: "create_input_plugin (ml_sandbox startup_lib) startup_fs1 startup_cfg sbc = Inr (Some ?p, startup_fs2)"
    using startup_prepare [OF f r(4) s] r(3) by (simp add: create_input_plugin_def)
  let ?ips1 = "add_to_input_plugins (ml_malloc_ok startup_lib) ?p (set_ips_fs startup_fs2 ?ips)"
  have i0: "ips_fs ?ips = startup_fs1" "set_ips_fs startup_fs1 ?ips = ?ips" "ips_fs ?ips1 = startup_fs2" "set_ips_fs startup_fs2 ?ips1 = ?ips1"
    by (simp_all add: hs_init_input_plugins_def ips_fs_def set_ips_fs_def add_to_input_plugins_def Let_def)
  have a1: "load_input_plugin (ml_sandbox startup_lib) (ml_malloc_ok startup_lib) startup_cfg ''r/input'' ''a.cfg'' ?ips = Inr ?ips1"
    unfolding load_input_plugin_def i0(1) l1 by (simp add: c)
  have a2: "load_input_plugin (ml_sandbox startup_lib) (ml_malloc_ok startup_lib) startup_cfg ''r/input'' ''x.lua'' ?ips1 = Inr ?ips1"
    unfolding load_input_plugin_def i0(3) l2 by (simp add: i0(4))
  have st: "start_inputs startup_lib startup_cfg startup_fs ?cpr = Inr ?ips1"
    unfolding start_inputs_def r(6) o' by (simp add: hs_load_input_startup_def Let_def i0(1,2) r(1,2,5) a1 a2 del: hs_input_dir_def)
  obtain p where p: "ips_list ?ips1 = [Some p]" "ip_name p = ''input.a''"
    by (rule that [of "ip_lookup (ml_malloc_ok startup_lib) (?p\<lparr>ip_list_index := int (free_slot (ips_list (set_ips_fs startup_fs2 ?ips)))\<rparr>) ?cpr"])
      (simp_all add: add_to_input_plugins_def Let_def hs_init_input_plugins_def set_ips_fs_def slot_add_def ip_lookup_def
        init_input_plugin_def s)
  have "ips_cpr ?ips1 = ?cpr" by (simp add: add_to_input_plugins_def Let_def hs_init_input_plugins_def set_ips_fs_def)
  with st p i0(3) show ?thesis by blast
qed

lemma startup_run:
  "\<exists>cpw pr. hs_startup startup_lib startup_cfg startup_fs = Inr (cpw, pr) \<and>
     map ip_name (occupied (w_inputs (pr_world pr))) = [''input.a'']"
proof -
  let ?cpr = "\<lparr>cpr_values = [(''_G'', LTable 0)]\<rparr> :: hs_checkpoint_reader"
  have e: "c = ?cpr" if "cpr_values c = [(''_G'', LTable 0)]" for c using that by (cases c) simp
  have "case start_checkpoints startup_lib startup_cfg startup_fs of Inl _ \<Rightarrow> False | Inr c \<Rightarrow> cpr_values c = [(''_G'', LTable 0)]"
    by code_simp
  then have c: "start_checkpoints startup_lib startup_cfg startup_fs = Inr ?cpr" by (elim case_InrE) (simp add: e)
  obtain ips p where i: "start_inputs startup_lib startup_cfg startup_fs ?cpr = Inr ips" "ips_list ips = [Some p]"
      "ip_name p = ''input.a''" "ips_cpr ips = ?cpr" "ips_fs ips = startup_fs2"
    using startup_inputs by blast
  have "case start_analysis startup_lib startup_cfg startup_fs2 ?cpr of Inl _ \<Rightarrow> False
      | Inr r \<Rightarrow> fst r = startup_fs3 \<and> cpr_values (aps_cpr (snd r)) = [(''_G'', LTable 0)]" by code_simp
  then obtain aps where a: "start_analysis startup_lib startup_cfg startup_fs2 ?cpr = Inr (startup_fs3, aps)" "aps_cpr aps = ?cpr"
    by (elim case_InrE conjE) (metis e prod.collapse that)
  have "case hs_load_output_startup (ml_sandbox startup_lib) startup_cfg startup_fs3 (hs_init_output_plugins ?cpr :: string hs_output_plugins)
      of Inl _ \<Rightarrow> False | Inr r \<Rightarrow> True" by code_simp
  then obtain fs ops where o': "hs_load_output_startup (ml_sandbox startup_lib) startup_cfg startup_fs3
      (hs_init_output_plugins ?cpr :: string hs_output_plugins) = Inr (fs, ops)"
    by (elim case_InrE) (metis prod.collapse that)
  have "case hs_init_checkpoint_writer (str_of (cfg_output_path startup_cfg)) of Inl _ \<Rightarrow> False | Inr c \<Rightarrow> True" by code_simp
  then obtain cpw where w: "hs_init_checkpoint_writer (str_of (cfg_output_path startup_cfg)) = Inr cpw" by (elim case_InrE) (rule that)
  show ?thesis
    unfolding hs_startup_def c i(1) sum.case i(4,5) a(1) prod.case a(2) o' w by (simp add: i(2,3))
qed

section \<open>Properties\<close>



end
