(* ===== verification/HS_Cli_Reader.thy ===== *)
theory HS_Cli_Reader
  imports HS_Output_Thread
begin

text \<open>
  The command line variant (\<open>HINDSIGHT_CLI\<close>), reading a queue: what the three branches of that name
  in \<open>src/hs_analysis_plugins.c\<close> and \<open>src/hs_output_plugins.c\<close> do alike. A reader moves to the
  next file when the current one has reached its size, and reports the end when there is nothing
  to read and no next file; there is no skipping of missing files and no reset.

  Then, for a queue nobody writes to any more: a measure of what is left to read, and that every
  poll makes it smaller or finds the end.
\<close>

section \<open>Operations\<close>

text \<open>Reading on; the flag says that there was nothing to read and no next file.\<close>

definition cli_read ::
    "(lsb_input_buffer \<Rightarrow> u64 \<Rightarrow> lsb_input_buffer option) \<Rightarrow> hs_config \<Rightarrow> string \<Rightarrow> poll_env \<Rightarrow> hs_input \<Rightarrow>
     hs_exit + (bool \<times> u64 \<times> hs_input)" where
  "cli_read expand cfg subdir env hsi =
     (case hs_read_file expand (pe_fs_read env) hsi of
        Inl e \<Rightarrow> Inl e
      | Inr (n, hsi1) \<Rightarrow>
          if n = 0 \<and> cp_offset (hsi_cp hsi1) \<ge> ucast (cfg_output_size cfg) then
            (case hs_open_file (pe_seek_ok env) (pe_fs_open env) hsi1 subdir (cp_id (hsi_cp hsi1) + 1) of
               Inl e \<Rightarrow> Inl e
             | Inr (next_file, hsi2) \<Rightarrow> Inr (\<not> next_file, n, hsi2))
          else Inr (n = 0, n, hsi1))"

text \<open>
  One look at a queue by a thread without a message in hand: the end flag, the message, what
  \<open>bytes_read\<close> is then (\<open>n0\<close> before), and the reader.
\<close>

definition cli_poll ::
    "(lsb_input_buffer \<Rightarrow> 'm option \<times> lsb_input_buffer) \<Rightarrow>
     (lsb_input_buffer \<Rightarrow> u64 \<Rightarrow> lsb_input_buffer option) \<Rightarrow> hs_config \<Rightarrow> string \<Rightarrow> poll_env \<Rightarrow> u64 \<Rightarrow> hs_input \<Rightarrow>
     hs_exit + (bool \<times> 'm option \<times> u64 \<times> hs_input)" where
  "cli_poll scan expand cfg subdir env n0 hsi =
     (if hsi_fh hsi = None then
        (case hs_open_file (pe_seek_ok env) (pe_fs_open env) hsi subdir (cp_id (hsi_cp hsi)) of
           Inl e \<Rightarrow> Inl e
         | Inr (opened, hsi1) \<Rightarrow> Inr (\<not> opened, None, n0, hsi1))
      else
        (case scan (hsi_ib hsi) of
           (Some m, ib) \<Rightarrow> Inr (False, Some m, n0, hsi\<lparr>hsi_ib := ib\<rparr>)
         | (None, ib) \<Rightarrow>
             (case cli_read expand cfg subdir env (hsi\<lparr>hsi_ib := ib\<rparr>) of
                Inl e \<Rightarrow> Inl e
              | Inr (at_end, n, hsi1) \<Rightarrow> Inr (at_end, None, n, hsi1))))"

section \<open>A queue nobody writes to\<close>

text \<open>
  What the threads rely on of \<open>lsb_find_heka_message\<close> beyond \<open>scan_ok\<close>: a message is not empty, a
  scan that finds none asks for more bytes, and finds none again before there are more.
\<close>

definition scanner_ok :: "(lsb_input_buffer \<Rightarrow> 'm option \<times> lsb_input_buffer) \<Rightarrow> bool" where
  "scanner_ok scan \<longleftrightarrow>
     scan_ok scan \<and>
     (\<forall>ib. ib_ok ib \<longrightarrow>
        (case scan ib of
           (Some m, ib1) \<Rightarrow> length (window ib1) < length (window ib)
         | (None, ib1) \<Rightarrow>
             read_need ib1 \<noteq> 0 \<and> (\<forall>ib2. ib_ok ib2 \<longrightarrow> window ib2 = window ib1 \<longrightarrow> fst (scan ib2) = None)))"

definition fs_bytes :: "fsys \<Rightarrow> nat" where
  "fs_bytes fs = sum_list (map (length \<circ> snd) (fs_files fs))"

text \<open>The queue below a directory: no file has the last id, so the ids do not wrap.\<close>

definition quiet_queue ::
    "(lsb_input_buffer \<Rightarrow> 'm option \<times> lsb_input_buffer) \<Rightarrow>
     (lsb_input_buffer \<Rightarrow> u64 \<Rightarrow> lsb_input_buffer option) \<Rightarrow> fsys \<Rightarrow> string \<Rightarrow> bool" where
  "quiet_queue scan expand fs dir \<longleftrightarrow>
     scanner_ok scan \<and> expand_ok expand \<and> int (fs_bytes fs) < 2 ^ 64 \<and>
     fopen_re fs (log_name dir ULLONG_MAX) = None"

definition unchanged :: "fsys \<Rightarrow> poll_env \<Rightarrow> bool" where
  "unchanged fs env \<longleftrightarrow> pe_fs_read env = fs \<and> pe_fs_open env = fs"

definition queue_dir :: "string \<Rightarrow> hs_input \<Rightarrow> string" where
  "queue_dir subdir hsi = hsi_path hsi @ ''/'' @ subdir"

definition reader_file :: "string \<Rightarrow> hs_input \<Rightarrow> string" where
  "reader_file subdir hsi = log_name (queue_dir subdir hsi) (cp_id (hsi_cp hsi))"

text \<open>A reader between polls: not yet open, or open on the existing file its checkpoint names.\<close>

definition reader_ready :: "fsys \<Rightarrow> string \<Rightarrow> hs_input \<Rightarrow> bool" where
  "reader_ready fs subdir hsi \<longleftrightarrow>
     ib_ok (hsi_ib hsi) \<and>
     (case hsi_fh hsi of
        None \<Rightarrow> hsi_fn hsi = None
      | Some (p, pos) \<Rightarrow> hsi_fn hsi = Some p \<and> p = reader_file subdir hsi \<and> fopen_re fs p \<noteq> None)"

text \<open>What is left to read.\<close>

definition later_files :: "fsys \<Rightarrow> string \<Rightarrow> hs_input \<Rightarrow> nat" where
  "later_files fs subdir hsi =
     card {i. cp_id (hsi_cp hsi) < i \<and> fopen_re fs (log_name (queue_dir subdir hsi) i) \<noteq> None}"

definition unread :: "fsys \<Rightarrow> hs_input \<Rightarrow> nat" where
  "unread fs hsi = (case hsi_fh hsi of None \<Rightarrow> 0 | Some (p, pos) \<Rightarrow> length (file_bytes fs p) - unat pos)"

definition reader_work :: "fsys \<Rightarrow> string \<Rightarrow> hs_input \<Rightarrow> nat" where
  "reader_work fs subdir hsi =
     (later_files fs subdir hsi + (if hsi_fh hsi = None then 1 else 0)) * (2 * fs_bytes fs + 1) +
     2 * unread fs hsi + length (window (hsi_ib hsi))"

text \<open>
  The end of the queue: no message in the bytes in hand, the file read to its end, and no next file,
  where the reader looks for one only in a file that has reached its size.
\<close>

definition queue_drained ::
    "(lsb_input_buffer \<Rightarrow> 'm option \<times> lsb_input_buffer) \<Rightarrow> hs_config \<Rightarrow> string \<Rightarrow> fsys \<Rightarrow> hs_input \<Rightarrow> bool" where
  "queue_drained scan cfg subdir fs hsi \<longleftrightarrow>
     (case hsi_fh hsi of
        None \<Rightarrow> fopen_re fs (reader_file subdir hsi) = None
      | Some (p, pos) \<Rightarrow>
          (\<forall>ib. ib_ok ib \<longrightarrow> window ib = window (hsi_ib hsi) \<longrightarrow> fst (scan ib) = None) \<and>
          p = reader_file subdir hsi \<and> length (file_bytes fs p) \<le> unat pos \<and>
          (cp_offset (hsi_cp hsi) < ucast (cfg_output_size cfg) \<or>
           fopen_re fs (log_name (queue_dir subdir hsi) (cp_id (hsi_cp hsi) + 1)) = None))"

section \<open>Every poll makes progress or finds the end\<close>

lemma fs_bytes_file: "length (file_bytes fs p) \<le> fs_bytes fs"
proof (cases "fs_get fs p")
  case (Some c)
  then have "(p, c) \<in> set (fs_files fs)" by (simp add: fs_get_def map_of_SomeD)
  then have "length c \<in> set (map (length \<circ> snd) (fs_files fs))" by force
  then show ?thesis using Some member_le_sum_list [of "length c"] by (simp add: file_bytes_def fs_bytes_def)
qed (simp add: file_bytes_def)

lemma input_file_name_dir: "input_file_name (hsi_path hsi) subdir i = log_name (queue_dir subdir hsi) i"
  by (simp add: input_file_name_def queue_dir_def)

lemma queue_dir_upd [simp]:
  "queue_dir subdir (hsi\<lparr>hsi_ib := ib\<rparr>) = queue_dir subdir hsi"
  "reader_file subdir (hsi\<lparr>hsi_ib := ib\<rparr>) = reader_file subdir hsi"
  "later_files fs subdir (hsi\<lparr>hsi_ib := ib\<rparr>) = later_files fs subdir hsi"
  "unread fs (hsi\<lparr>hsi_ib := ib\<rparr>) = unread fs hsi"
  by (simp_all add: queue_dir_def reader_file_def later_files_def unread_def)

lemma reader_ready_ib: "reader_ready fs subdir hsi \<Longrightarrow> ib_ok ib \<Longrightarrow> reader_ready fs subdir (hsi\<lparr>hsi_ib := ib\<rparr>)"
  by (auto simp: reader_ready_def split: option.splits)

lemma scanner_okD:
  assumes "scanner_ok scan" and "ib_ok ib" and "scan ib = (m, ib1)"
  shows "ib_ok ib1" and "length (window ib1) \<le> length (window ib)"
    and "m \<noteq> None \<Longrightarrow> length (window ib1) < length (window ib)" and "m = None \<Longrightarrow> read_need ib1 \<noteq> 0"
    and "m = None \<Longrightarrow> ib_ok ib2 \<Longrightarrow> window ib2 = window ib1 \<Longrightarrow> fst (scan ib2) = None"
proof -
  note sc = assms(1) [unfolded scanner_ok_def]
  note c = sc [THEN conjunct2, rule_format, OF assms(2), unfolded assms(3) prod.case]
  obtain k where "scan_step ib ib1 k"
    using sc [THEN conjunct1, unfolded scan_ok_def, rule_format, OF assms(2)] assms(3) by auto
  then show "ib_ok ib1" and "length (window ib1) \<le> length (window ib)" by (auto simp: scan_step_def)
  from c show "m \<noteq> None \<Longrightarrow> length (window ib1) < length (window ib)" and "m = None \<Longrightarrow> read_need ib1 \<noteq> 0"
    and "m = None \<Longrightarrow> ib_ok ib2 \<Longrightarrow> window ib2 = window ib1 \<Longrightarrow> fst (scan ib2) = None"
    by (auto split: option.splits)
qed

text \<open>A read moves bytes from the file to the window; it finds none only at the end.\<close>

lemma hs_read_file_moves:
  assumes "ib_ok (hsi_ib hsi)" and "expand_ok expand" and "int (fs_bytes fs) < 2 ^ 64"
    and "hsi_fh hsi = Some (p, pos)" and "hs_read_file expand fs hsi = Inr (n, hsi1)"
  shows "ib_ok (hsi_ib hsi1)" and "hsi1 = hsi\<lparr>hsi_fh := Some (p, pos + n),
      hsi_cp := (hsi_cp hsi)\<lparr>cp_offset := cp_offset (hsi_cp hsi) + n\<rparr>, hsi_ib := hsi_ib hsi1\<rparr>"
    and "unread fs hsi = unread fs hsi1 + unat n"
    and "length (window (hsi_ib hsi1)) = length (window (hsi_ib hsi)) + unat n"
    and "n = 0 \<Longrightarrow> window (hsi_ib hsi1) = window (hsi_ib hsi)"
    and "n = 0 \<Longrightarrow> read_need (hsi_ib hsi) \<noteq> 0 \<Longrightarrow> length (file_bytes fs p) \<le> unat pos"
proof -
  obtain ib where e: "expand (hsi_ib hsi) (read_need (hsi_ib hsi)) = Some ib"
    using assms(5) by (auto simp: hs_read_file_def split: option.splits)
  have ib: "ib_ok ib" "window ib = window (hsi_ib hsi)"
    "int (unat (read_need (hsi_ib hsi))) \<le> int (unat (ib_size ib - ib_readpos ib))"
    using assms(1,2) e unfolding expand_ok_def by blast+
  define d where "d = fread (file_bytes fs p) pos (unat (ib_size ib - ib_readpos ib))"
  have hsi1: "hsi1 = hsi\<lparr>hsi_fh := Some (p, pos + word_of_nat (length d)),
      hsi_cp := (hsi_cp hsi)\<lparr>cp_offset := cp_offset (hsi_cp hsi) + word_of_nat (length d)\<rparr>,
      hsi_ib := ib\<lparr>ib_buf := buf_write (ib_buf ib) (unat (ib_readpos ib)) d,
                   ib_readpos := ib_readpos ib + word_of_nat (length d)\<rparr>\<rparr>"
    and n: "n = word_of_nat (length d)"
    using assms(4,5) e by (auto simp: hs_read_file_def d_def Let_def)
  have rs: "unat (ib_readpos ib) + length d \<le> unat (ib_size ib)"
    using ib(1) by (auto simp: d_def fread_def ib_ok_def unat_sub word_le_nat_alt min_def)
  have dl: "length d \<le> length (file_bytes fs p) - unat pos" by (auto simp: d_def fread_def)
  have L: "length (file_bytes fs p) < 2 ^ 64"
  proof -
    have "fs_bytes fs < 2 ^ 64" using assms(3) by (simp only: int_less_pow)
    then show ?thesis using fs_bytes_file [of fs p] by simp
  qed
  then have u: "unat n = length d" unfolding n using dl by (intro unat_of_nat_u64) simp
  note w = window_buf_write [OF ib(1) rs]
  show "ib_ok (hsi_ib hsi1)" using w(2) by (simp add: hsi1)
  show "hsi1 = hsi\<lparr>hsi_fh := Some (p, pos + n), hsi_cp := (hsi_cp hsi)\<lparr>cp_offset := cp_offset (hsi_cp hsi) + n\<rparr>,
      hsi_ib := hsi_ib hsi1\<rparr>"
    by (simp add: hsi1 n)
  have win: "window (hsi_ib hsi1) = window (hsi_ib hsi) @ d" using w(1) ib(2) by (simp add: hsi1)
  then show "length (window (hsi_ib hsi1)) = length (window (hsi_ib hsi)) + unat n" by (simp add: u)
  show "window (hsi_ib hsi1) = window (hsi_ib hsi)" if "n = 0" using win u that by simp
  have "unat (pos + n) = unat pos + unat n \<or> n = 0"
  proof (cases "length d = 0")
    case False
    then have "unat pos + length d \<le> length (file_bytes fs p)" using dl by linarith
    then show ?thesis using L u by (subst unat_plus_u64) auto
  qed (simp add: n)
  then show "unread fs hsi = unread fs hsi1 + unat n"
    using dl u assms(4) by (auto simp: unread_def hsi1 n [symmetric])
  show "length (file_bytes fs p) \<le> unat pos" if "n = 0" "read_need (hsi_ib hsi) \<noteq> 0"
  proof -
    have "length d = 0" using u that(1) by simp
    then have "unat (ib_size ib - ib_readpos ib) = 0 \<or> length (file_bytes fs p) \<le> unat pos"
      by (auto simp: d_def fread_def)
    moreover have "0 < unat (read_need (hsi_ib hsi))" using that(2) by (simp add: unat_gt_0)
    ultimately show ?thesis using ib(3) by linarith
  qed
qed

lemma hs_open_first:
  assumes "hs_open_file ok fs hsi subdir (cp_id (hsi_cp hsi)) = Inr (b, h)" and "hsi_fn hsi = None"
  shows "b \<longleftrightarrow> fopen_re fs (reader_file subdir hsi) \<noteq> None" and "\<not> b \<Longrightarrow> h = hsi"
    and "b \<Longrightarrow> \<exists>pos. hsi_fh h = Some (reader_file subdir hsi, pos)"
    and "b \<Longrightarrow> h = hsi\<lparr>hsi_fh := hsi_fh h, hsi_fn := Some (reader_file subdir hsi), hsi_fn_size := hsi_fn_size h\<rparr>"
  using assms by (auto simp: hs_open_file_def Let_def reader_file_def input_file_name_dir split: if_splits option.splits)

lemma hs_open_next:
  assumes "hs_open_file ok fs hsi subdir (cp_id (hsi_cp hsi) + 1) = Inr (b, h)"
    and "hsi_fn hsi = Some (reader_file subdir hsi)"
  shows "b \<longleftrightarrow> fopen_re fs (log_name (queue_dir subdir hsi) (cp_id (hsi_cp hsi) + 1)) \<noteq> None" and "\<not> b \<Longrightarrow> h = hsi"
    and "b \<Longrightarrow> h = hsi\<lparr>hsi_fh := Some (log_name (queue_dir subdir hsi) (cp_id (hsi_cp hsi) + 1), 0),
      hsi_cp := \<lparr>cp_id = cp_id (hsi_cp hsi) + 1, cp_offset = 0\<rparr>,
      hsi_fn := Some (log_name (queue_dir subdir hsi) (cp_id (hsi_cp hsi) + 1)), hsi_fn_size := hsi_fn_size h\<rparr>"
  using assms by (auto simp: hs_open_file_def Let_def reader_file_def input_file_name_dir split: if_splits option.splits)

lemma unread_le: "unread fs hsi \<le> fs_bytes fs"
  using fs_bytes_file by (auto simp: unread_def split: option.split intro: le_trans [OF diff_le_self])

lemma work_step:
  fixes a b :: nat
  shows "a < b \<Longrightarrow> u \<le> B \<Longrightarrow> w' \<le> w \<Longrightarrow> a * (2 * B + 1) + 2 * u + w' < b * (2 * B + 1) + 2 * v + w"
proof -
  assume "a < b" "u \<le> B" "w' \<le> w"
  then have "(a + 1) * (2 * B + 1) \<le> b * (2 * B + 1)" by (intro mult_right_mono) auto
  then have "a * (2 * B + 1) + 2 * B + 1 \<le> b * (2 * B + 1)" by (simp add: algebra_simps)
  with \<open>u \<le> B\<close> \<open>w' \<le> w\<close> show ?thesis by linarith
qed

lemma id_less_next:
  fixes i :: u64
  assumes "i \<noteq> ULLONG_MAX"
  shows "i < i + 1"
proof -
  have "unat i \<noteq> unat ULLONG_MAX" using assms by (simp only: word_unat_eq_iff) auto
  then have "unat i + 1 < 2 ^ 64" using unat_u64_less [of i] by simp
  then show ?thesis by (simp add: word_less_nat_alt unat_plus_u64)
qed

lemma later_files_next:
  fixes i :: u64
  assumes "P (i + 1)" and "\<not> P ULLONG_MAX" and "P i"
  shows "card {j. i + 1 < j \<and> P j} < card {j. i < j \<and> P j}"
proof -
  have i: "i < i + 1" using assms(2,3) by (intro id_less_next) auto
  then have "{j. i + 1 < j \<and> P j} \<subset> {j. i < j \<and> P j}" using assms(1) by fastforce
  then show ?thesis by (intro psubset_card_mono) auto
qed

lemma reader_ready_fn:
  "reader_ready fs subdir hsi \<Longrightarrow> hsi_fh hsi = Some (p, pos) \<Longrightarrow>
   hsi_fn hsi = Some (reader_file subdir hsi) \<and> p = reader_file subdir hsi \<and> fopen_re fs p \<noteq> None"
  by (auto simp: reader_ready_def)

lemma cli_read_step:
  assumes "quiet_queue scan expand fs (queue_dir subdir hsi)" and "reader_ready fs subdir hsi" and "unchanged fs env"
    and "hsi_fh hsi = Some (p, pos)" and "read_need (hsi_ib hsi) \<noteq> 0"
    and "\<And>ib. ib_ok ib \<Longrightarrow> window ib = window (hsi_ib hsi) \<Longrightarrow> fst (scan ib) = None"
    and "cli_read expand cfg subdir env hsi = Inr (at_end, n, hsi')"
  shows "reader_ready fs subdir hsi' \<and> queue_dir subdir hsi' = queue_dir subdir hsi \<and>
    (if at_end then reader_work fs subdir hsi' = reader_work fs subdir hsi \<and> n = 0 \<and> queue_drained scan cfg subdir fs hsi'
     else reader_work fs subdir hsi' < reader_work fs subdir hsi)"
proof -
  have u: "pe_fs_read env = fs" "pe_fs_open env = fs" using assms(3) by (auto simp: unchanged_def)
  have q: "expand_ok expand" "int (fs_bytes fs) < 2 ^ 64" "fopen_re fs (log_name (queue_dir subdir hsi) ULLONG_MAX) = None"
    using assms(1) by (auto simp: quiet_queue_def)
  have ok: "ib_ok (hsi_ib hsi)" using assms(2) by (simp add: reader_ready_def)
  note fn = reader_ready_fn [OF assms(2,4)]
  obtain h1 where rd: "hs_read_file expand fs hsi = Inr (n, h1)"
    using assms(7) u by (auto simp: cli_read_def split: sum.splits if_splits prod.splits)
  note m = hs_read_file_moves [OF ok q(1,2) assms(4) rd]
  have h1: "reader_ready fs subdir h1" "queue_dir subdir h1 = queue_dir subdir hsi"
      "cp_id (hsi_cp h1) = cp_id (hsi_cp hsi)" "hsi_fh h1 = Some (p, pos + n)"
      "later_files fs subdir h1 = later_files fs subdir hsi" "reader_file subdir h1 = reader_file subdir hsi"
    by (subst m(2), use m(1) assms(2,4) fn in \<open>simp add: reader_ready_def reader_file_def queue_dir_def later_files_def\<close>)+
  have work: "reader_work fs subdir h1 + unat n = reader_work fs subdir hsi"
    using m(3,4) h1(4,5) assms(4) by (simp add: reader_work_def)
  show ?thesis
  proof (cases "n = 0 \<and> cp_offset (hsi_cp h1) \<ge> ucast (cfg_output_size cfg)")
    case False
    then have r: "at_end = (n = 0)" "hsi' = h1" using assms(7) rd u by (auto simp: cli_read_def)
    show ?thesis
    proof (cases "n = 0")
      case True
      with False have "cp_offset (hsi_cp h1) < ucast (cfg_output_size cfg)" by simp
      moreover have "length (file_bytes fs p) \<le> unat pos" by (rule m(6) [OF True assms(5)])
      ultimately have "queue_drained scan cfg subdir fs h1"
        using assms(6) m(5) [OF True] h1 fn True by (simp add: queue_drained_def)
      then show ?thesis using r True h1 work by simp
    next
      case False
      then have "0 < unat n" by (simp add: unat_gt_0)
      then show ?thesis using r False h1 work by simp
    qed
  next
    case True
    then obtain b where o: "hs_open_file (pe_seek_ok env) fs h1 subdir (cp_id (hsi_cp h1) + 1) = Inr (b, hsi')"
      and e: "at_end = (\<not> b)" using assms(7) rd u by (auto simp: cli_read_def split: sum.splits prod.splits)
    have n0: "n = 0" using True by simp
    have fn1: "hsi_fn h1 = Some (reader_file subdir h1)" using reader_ready_fn [OF h1(1,4)] by simp
    note nx = hs_open_next [OF o fn1]
    show ?thesis
    proof (cases b)
      case False
      then have "queue_drained scan cfg subdir fs h1"
        using assms(6) m(5,6) [OF n0] assms(5) h1 fn n0 nx(1) by (simp add: queue_drained_def)
      then show ?thesis using e False n0 h1 work nx(2) by simp
    next
      case True
      let ?i = "cp_id (hsi_cp h1)"
      obtain sz where h: "hsi' = h1\<lparr>hsi_fh := Some (log_name (queue_dir subdir h1) (?i + 1), 0), hsi_cp := \<lparr>cp_id = ?i + 1, cp_offset = 0\<rparr>,
          hsi_fn := Some (log_name (queue_dir subdir h1) (?i + 1)), hsi_fn_size := sz\<rparr>" using nx(3) [OF True] by blast
      have d: "queue_dir subdir hsi' = queue_dir subdir h1" by (simp add: h queue_dir_def)
      have "fopen_re fs (log_name (queue_dir subdir h1) ?i) \<noteq> None" using fn h1(3,2) by (metis reader_file_def)
      then have "later_files fs subdir hsi' < later_files fs subdir h1"
        using later_files_next [where P = "\<lambda>i. fopen_re fs (log_name (queue_dir subdir h1) i) \<noteq> None" and i = ?i] nx(1) True q(3) h1(2) d
        by (simp add: later_files_def h)
      then have "reader_work fs subdir hsi' < reader_work fs subdir h1"
        unfolding reader_work_def using h1(4) by (intro work_step) (auto simp: h unread_le)
      moreover have "reader_ready fs subdir hsi'"
        using h1(1) nx(1) True d by (simp add: reader_ready_def h reader_file_def queue_dir_def)
      ultimately show ?thesis using e True d h1(2) work by simp
    qed
  qed
qed

text \<open>A poll that does not report the end leaves less to read.\<close>

lemma cli_poll_step:
  assumes "quiet_queue scan expand fs (queue_dir subdir hsi)" and "reader_ready fs subdir hsi" and "unchanged fs env"
    and "cli_poll scan expand cfg subdir env n0 hsi = Inr (at_end, m, n, hsi')"
  shows "reader_ready fs subdir hsi' \<and> queue_dir subdir hsi' = queue_dir subdir hsi \<and>
    (if at_end then reader_work fs subdir hsi' \<le> reader_work fs subdir hsi \<and> m = None \<and> queue_drained scan cfg subdir fs hsi'
     else reader_work fs subdir hsi' < reader_work fs subdir hsi)"
proof (cases "hsi_fh hsi")
  case None
  then have fn: "hsi_fn hsi = None" using assms(2) by (simp add: reader_ready_def)
  obtain b where o: "hs_open_file (pe_seek_ok env) fs hsi subdir (cp_id (hsi_cp hsi)) = Inr (b, hsi')"
    and r: "at_end = (\<not> b)" "m = None"
    using assms(3,4) None by (auto simp: cli_poll_def unchanged_def split: sum.splits)
  note op = hs_open_first [OF o fn]
  show ?thesis
  proof (cases b)
    case False
    then have "hsi' = hsi" "fopen_re fs (reader_file subdir hsi) = None" using op by auto
    with r False None assms(2) show ?thesis by (simp add: queue_drained_def)
  next
    case True
    obtain pos sz where h: "hsi' = hsi\<lparr>hsi_fh := Some (reader_file subdir hsi, pos), hsi_fn := Some (reader_file subdir hsi), hsi_fn_size := sz\<rparr>"
      using op(3,4) [OF True] by metis
    have w: "reader_work fs subdir hsi' < reader_work fs subdir hsi"
      unfolding reader_work_def by (intro work_step) (simp_all add: h None unread_le later_files_def queue_dir_def)
    have "reader_ready fs subdir hsi'" "queue_dir subdir hsi' = queue_dir subdir hsi"
      using assms(2) op(1) True by (simp_all add: reader_ready_def h reader_file_def queue_dir_def split: option.splits)
    with w True r(1) show ?thesis by simp
  qed
next
  case (Some pp)
  obtain p pos where fh: "hsi_fh hsi = Some (p, pos)" using Some by (cases pp) auto
  obtain m0 ib where sc: "scan (hsi_ib hsi) = (m0, ib)" by fastforce
  have ok: "ib_ok (hsi_ib hsi)" using assms(2) by (simp add: reader_ready_def)
  have "scanner_ok scan" using assms(1) by (simp add: quiet_queue_def)
  note s = scanner_okD [OF this ok sc]
  let ?h = "hsi\<lparr>hsi_ib := ib\<rparr>"
  have rr: "reader_ready fs subdir ?h" by (rule reader_ready_ib [OF assms(2) s(1)])
  show ?thesis
  proof (cases m0)
    case (Some x)
    then have "at_end = False" "hsi' = ?h" using assms(4) fh sc by (auto simp: cli_poll_def)
    then show ?thesis using rr s(3) Some by (simp add: reader_work_def)
  next
    case None
    then obtain r: "m = None" and c: "cli_read expand cfg subdir env ?h = Inr (at_end, n, hsi')"
      using assms(4) fh sc by (auto simp: cli_poll_def split: sum.splits)
    have st: "queue_dir subdir hsi' = queue_dir subdir hsi \<and> reader_ready fs subdir hsi' \<and>
        (if at_end then reader_work fs subdir hsi' = reader_work fs subdir ?h \<and> queue_drained scan cfg subdir fs hsi'
         else reader_work fs subdir hsi' < reader_work fs subdir ?h)"
      using cli_read_step [of scan expand fs subdir ?h env p pos cfg at_end n hsi'] assms(1,3) rr fh s(4,5) None c
      by (auto split: if_splits)
    have "reader_work fs subdir ?h \<le> reader_work fs subdir hsi" using s(2) by (simp add: reader_work_def)
    with st r show ?thesis by (auto split: if_splits)
  qed
qed

text \<open>A reader at the end stays there.\<close>

lemma cli_poll_drained:
  assumes "quiet_queue scan expand fs (queue_dir subdir hsi)" and "reader_ready fs subdir hsi" and "unchanged fs env"
    and "cli_poll scan expand cfg subdir env n0 hsi = Inr (at_end, m, n, hsi')" and "queue_drained scan cfg subdir fs hsi"
  shows at_end
proof (cases "hsi_fh hsi")
  case None
  then have fn: "hsi_fn hsi = None" using assms(2) by (simp add: reader_ready_def)
  obtain b where o: "hs_open_file (pe_seek_ok env) fs hsi subdir (cp_id (hsi_cp hsi)) = Inr (b, hsi')" and r: "at_end = (\<not> b)"
    using assms(3,4) None by (auto simp: cli_poll_def unchanged_def split: sum.splits)
  show ?thesis using hs_open_first(1) [OF o fn] assms(5) None r by (simp add: queue_drained_def)
next
  case (Some pp)
  obtain p pos where fh: "hsi_fh hsi = Some (p, pos)" using Some by (cases pp) auto
  have u: "pe_fs_read env = fs" "pe_fs_open env = fs" using assms(3) by (auto simp: unchanged_def)
  have q: "expand_ok expand" "int (fs_bytes fs) < 2 ^ 64" "scanner_ok scan" using assms(1) by (auto simp: quiet_queue_def)
  have ok: "ib_ok (hsi_ib hsi)" using assms(2) by (simp add: reader_ready_def)
  have d: "fst (scan (hsi_ib hsi)) = None" "length (file_bytes fs p) \<le> unat pos"
    "cp_offset (hsi_cp hsi) < ucast (cfg_output_size cfg) \<or>
     fopen_re fs (log_name (queue_dir subdir hsi) (cp_id (hsi_cp hsi) + 1)) = None"
    using assms(5) fh ok by (auto simp: queue_drained_def)
  obtain ib where sc: "scan (hsi_ib hsi) = (None, ib)" using d(1) by (metis prod.collapse)
  let ?h = "hsi\<lparr>hsi_ib := ib\<rparr>"
  have ok1: "ib_ok (hsi_ib ?h)" using scanner_okD(1) [OF q(3) ok sc] by simp
  obtain h1 where rd: "hs_read_file expand fs ?h = Inr (n, h1)" and c: "cli_read expand cfg subdir env ?h = Inr (at_end, n, hsi')"
    using assms(4) fh sc u by (auto simp: cli_poll_def cli_read_def split: sum.splits if_splits prod.splits)
  have fh1: "hsi_fh ?h = Some (p, pos)" using fh by simp
  note m = hs_read_file_moves [OF ok1 q(1,2) fh1 rd]
  have "unat n = 0" using m(3) d(2) fh by (simp add: unread_def)
  then have n0: "n = 0" by (simp add: unat_eq_0)
  have h1: "cp_id (hsi_cp h1) = cp_id (hsi_cp hsi)" "cp_offset (hsi_cp h1) = cp_offset (hsi_cp hsi)"
      "queue_dir subdir h1 = queue_dir subdir hsi" "hsi_fn h1 = Some (reader_file subdir h1)"
    by (subst m(2), use n0 reader_ready_fn [OF assms(2) fh] in \<open>simp add: queue_dir_def reader_file_def\<close>)+
  show ?thesis
  proof (cases "cp_offset (hsi_cp hsi) < ucast (cfg_output_size cfg)")
    case True
    then show ?thesis using c rd u n0 h1 by (auto simp: cli_read_def split: if_splits)
  next
    case False
    let ?o = "hs_open_file (pe_seek_ok env) fs h1 subdir (cp_id (hsi_cp h1) + 1)"
    have cc: "(case ?o of Inl e \<Rightarrow> Inl e | Inr (next_file, hsi2) \<Rightarrow> Inr (\<not> next_file, 0 :: u64, hsi2)) = Inr (at_end, 0, hsi')"
      using c leI [OF False] by (simp add: cli_read_def u rd n0 h1(2))
    then obtain b where o: "?o = Inr (b, hsi')" and r: "at_end = (\<not> b)"
      by (cases ?o) (simp_all split: prod.splits)
    show ?thesis using hs_open_next(1) [OF o h1(4)] d(3) False h1(1,3) r by simp
  qed
qed

end
