(* ===== verification/HS_Cli_Analysis.thy ===== *)
theory HS_Cli_Analysis
  imports HS_Cli_Reader HS_Analysis_Shutdown
begin

text \<open>
  The analysis threads of the command line variant (the \<open>HINDSIGHT_CLI\<close> branches of
  \<open>src/hs_analysis_plugins.c\<close>): a thread that was told to stop goes on until it has found the end of
  the input queue, its clock is the greatest time stamp seen, and it remembers that one of its
  plugins was terminated.
\<close>

section \<open>The thread\<close>

text \<open>The locals of \<open>input_thread\<close> (\<open>cli_ns\<close> in nanoseconds) and \<open>at->terminated\<close>.\<close>

record cli_local =
  cx_bytes :: u64
  cx_ns :: int
  cx_stop :: bool
  cx_input_stop :: bool
  cx_terminated :: bool

definition cli_init_local :: cli_local where
  "cli_init_local = \<lparr>cx_bytes = 0, cx_ns = 0, cx_stop = False, cx_input_stop = False, cx_terminated = False\<rparr>"

text \<open>While a message is analyzed a slot empties only by \<open>terminate_sandbox\<close>, which sets the flag.\<close>

definition plugin_lost :: "hs_analysis_thread \<Rightarrow> hs_analysis_thread \<Rightarrow> bool" where
  "plugin_lost th th' \<longleftrightarrow>
     list_ex (\<lambda>i. at_list th ! i \<noteq> None \<and> at_list th' ! i = None) [0 ..< length (at_list th)]"

definition cli_mark :: "an_state \<Rightarrow> an_state \<Rightarrow> cli_local \<Rightarrow> cli_local" where
  "cli_mark s s' l = l\<lparr>cx_terminated := cx_terminated l \<or> plugin_lost (as_at s) (as_at s')\<rparr>"

definition cli_seconds :: "int \<Rightarrow> int" where
  "cli_seconds ns = ns div 1000000000"

text \<open>The clock moves with a message that is later than every one before it.\<close>

definition cli_analyze ::
    "(nat \<Rightarrow> string) \<Rightarrow> hs_config \<Rightarrow> at_env \<Rightarrow> bool \<Rightarrow> int \<Rightarrow> an_state \<times> cli_local \<Rightarrow> hs_exit + (an_state \<times> cli_local)" where
  "cli_analyze varint cfg env sample t sl =
     (let (s, l) = sl;
          l1 = l\<lparr>cx_ns := max (cx_ns l) t\<rparr>;
          now = (if t > cx_ns l then cli_seconds t else at_current_t (as_at s))
      in case at_deliver varint cfg (env\<lparr>ae_time := now\<rparr>) sample s of
           Inl e \<Rightarrow> Inl e
         | Inr s' \<Rightarrow> Inr (s', cli_mark s s' l1))"

definition cli_idle ::
    "(nat \<Rightarrow> string) \<Rightarrow> hs_config \<Rightarrow> at_env \<Rightarrow> bool \<Rightarrow> an_state \<times> cli_local \<Rightarrow> hs_exit + (an_state \<times> cli_local)" where
  "cli_idle varint cfg env sample sl =
     (let (s, l) = sl in
      case at_idle varint cfg (env\<lparr>ae_time := cli_seconds (cx_ns l)\<rparr>) sample s of
        Inl e \<Rightarrow> Inl e
      | Inr s' \<Rightarrow> Inr (s', cli_mark s s' l))"

definition cli_at_turn ::
    "(lsb_input_buffer \<Rightarrow> 'm option \<times> lsb_input_buffer) \<Rightarrow>
     (lsb_input_buffer \<Rightarrow> u64 \<Rightarrow> lsb_input_buffer option) \<Rightarrow> ('m \<Rightarrow> int) \<Rightarrow> (nat \<Rightarrow> string) \<Rightarrow> hs_config \<Rightarrow>
     at_env \<Rightarrow> an_state \<times> cli_local \<Rightarrow> hs_exit + (an_state \<times> cli_local)" where
  "cli_at_turn scan expand ts varint cfg env sl =
     (let (s, l) = sl; th = as_at s; stop = at_stop th; sample = at_sample th in
      case cli_poll scan expand cfg hs_input_dir (ae_poll env) (cx_bytes l) (at_input th) of
        Inl e \<Rightarrow> Inl e
      | Inr (at_end, m, n, hsi) \<Rightarrow>
          let s1 = s\<lparr>as_at := th\<lparr>at_input := hsi\<rparr>\<rparr>;
              l1 = l\<lparr>cx_bytes := n, cx_stop := stop, cx_input_stop := cx_input_stop l \<or> at_end \<and> stop\<rparr>
          in (case m of
                Some x \<Rightarrow> cli_analyze varint cfg env sample (ts x) (s1, l1)
              | None \<Rightarrow> if n \<noteq> 0 then Inr (s1, l1) else cli_idle varint cfg env sample (s1, l1)))"

text \<open>The loop with its test, then the last timer events; \<open>None\<close> while it has not returned.\<close>

definition cli_at_done :: "cli_local \<Rightarrow> bool" where
  "cli_at_done l \<longleftrightarrow> cx_stop l \<and> cx_input_stop l"

definition cli_at_finish ::
    "(nat \<Rightarrow> string) \<Rightarrow> hs_config \<Rightarrow> (nat \<Rightarrow> analysis_env) \<Rightarrow> an_state \<times> cli_local \<Rightarrow> hs_exit + (an_state \<times> cli_local) option" where
  "cli_at_finish varint cfg fin sl =
     (case shutdown_timer_event varint cfg fin (fst sl) of
        Inl e \<Rightarrow> Inl e
      | Inr s' \<Rightarrow> Inr (Some (s', cli_mark (fst sl) s' (snd sl))))"

fun cli_at_run ::
    "(lsb_input_buffer \<Rightarrow> 'm option \<times> lsb_input_buffer) \<Rightarrow>
     (lsb_input_buffer \<Rightarrow> u64 \<Rightarrow> lsb_input_buffer option) \<Rightarrow> ('m \<Rightarrow> int) \<Rightarrow> (nat \<Rightarrow> string) \<Rightarrow> hs_config \<Rightarrow>
     (nat \<Rightarrow> analysis_env) \<Rightarrow> at_env list \<Rightarrow> an_state \<times> cli_local \<Rightarrow> hs_exit + (an_state \<times> cli_local) option" where
  "cli_at_run scan expand ts varint cfg fin [] sl =
     (if cli_at_done (snd sl) then cli_at_finish varint cfg fin sl else Inr None)"
| "cli_at_run scan expand ts varint cfg fin (e # es) sl =
     (if cli_at_done (snd sl) then cli_at_finish varint cfg fin sl
      else (case cli_at_turn scan expand ts varint cfg e sl of
              Inl x \<Rightarrow> Inl x
            | Inr sl' \<Rightarrow> cli_at_run scan expand ts varint cfg fin es sl'))"

section \<open>The end of the queue\<close>

lemma cli_analyze_keeps:
  "cli_analyze varint cfg env sample t (s, l) = Inr (s', l') \<Longrightarrow>
   at_input (as_at s') = at_input (as_at s) \<and> at_stop (as_at s') = at_stop (as_at s) \<and>
   cx_stop l' = cx_stop l \<and> cx_input_stop l' = cx_input_stop l"
  by (auto simp: cli_analyze_def cli_mark_def Let_def split: sum.splits elim!: at_deliver_cases)

lemma cli_idle_keeps:
  "cli_idle varint cfg env sample (s, l) = Inr (s', l') \<Longrightarrow>
   at_input (as_at s') = at_input (as_at s) \<and> at_stop (as_at s') = at_stop (as_at s) \<and>
   cx_stop l' = cx_stop l \<and> cx_input_stop l' = cx_input_stop l"
  by (auto simp: cli_idle_def cli_mark_def split: sum.splits dest: at_idle_cp at_idle_input)

lemma cli_at_turn_poll:
  assumes "cli_at_turn scan expand ts varint cfg env (s, l) = Inr (s', l')"
  obtains at_end m n where
    "cli_poll scan expand cfg hs_input_dir (ae_poll env) (cx_bytes l) (at_input (as_at s)) = Inr (at_end, m, n, at_input (as_at s'))"
    and "at_stop (as_at s') = at_stop (as_at s)" and "cx_stop l' = at_stop (as_at s)"
    and "cx_input_stop l' \<longleftrightarrow> cx_input_stop l \<or> at_end \<and> at_stop (as_at s)"
proof -
  obtain at_end m n hsi where
    p: "cli_poll scan expand cfg hs_input_dir (ae_poll env) (cx_bytes l) (at_input (as_at s)) = Inr (at_end, m, n, hsi)"
    using assms by (auto simp: cli_at_turn_def Let_def split: sum.splits)
  show ?thesis
    by (rule that [of at_end m n])
      (use assms p in \<open>auto simp: cli_at_turn_def Let_def split: option.splits if_splits
         dest!: cli_analyze_keeps cli_idle_keeps\<close>)
qed

text \<open>The turns of a stopped thread over a queue nobody writes to.\<close>

definition draining :: "(lsb_input_buffer \<Rightarrow> 'm option \<times> lsb_input_buffer) \<Rightarrow> hs_config \<Rightarrow> fsys \<Rightarrow> an_state \<times> cli_local \<Rightarrow> bool" where
  "draining scan cfg fs sl \<longleftrightarrow>
     (let (s, l) = sl in
      at_stop (as_at s) \<and> reader_ready fs hs_input_dir (at_input (as_at s)) \<and>
      (cx_input_stop l \<longrightarrow> cx_stop l \<and> queue_drained scan cfg hs_input_dir fs (at_input (as_at s))))"

lemma cli_at_turn_step:
  assumes "quiet_queue scan expand fs (queue_dir hs_input_dir (at_input (as_at s)))" and "draining scan cfg fs (s, l)"
    and "unchanged fs (ae_poll env)" and "cli_at_turn scan expand ts varint cfg env (s, l) = Inr (s', l')"
  shows "draining scan cfg fs (s', l') \<and>
    queue_dir hs_input_dir (at_input (as_at s')) = queue_dir hs_input_dir (at_input (as_at s)) \<and>
    (cli_at_done l' \<or> reader_work fs hs_input_dir (at_input (as_at s')) < reader_work fs hs_input_dir (at_input (as_at s)))"
proof -
  obtain at_end m n where
    p: "cli_poll scan expand cfg hs_input_dir (ae_poll env) (cx_bytes l) (at_input (as_at s)) = Inr (at_end, m, n, at_input (as_at s'))"
    and st: "at_stop (as_at s') = at_stop (as_at s)" "cx_stop l' = at_stop (as_at s)"
    "cx_input_stop l' \<longleftrightarrow> cx_input_stop l \<or> at_end \<and> at_stop (as_at s)"
    by (rule cli_at_turn_poll [OF assms(4)])
  have d: "at_stop (as_at s)" "reader_ready fs hs_input_dir (at_input (as_at s))"
    "cx_input_stop l \<Longrightarrow> queue_drained scan cfg hs_input_dir fs (at_input (as_at s))"
    using assms(2) by (auto simp: draining_def)
  note c = cli_poll_step [OF assms(1) d(2) assms(3) p]
  have "cx_input_stop l \<Longrightarrow> at_end" using cli_poll_drained [OF assms(1) d(2) assms(3) p d(3)] by simp
  then show ?thesis using c d(1) st by (auto simp: draining_def cli_at_done_def split: if_splits)
qed

lemma cli_at_run_drains:
  assumes "quiet_queue scan expand fs (queue_dir hs_input_dir (at_input (as_at s)))" and "draining scan cfg fs (s, l)"
    and "\<forall>e \<in> set es. unchanged fs (ae_poll e)" and "cli_at_done l \<or> reader_work fs hs_input_dir (at_input (as_at s)) < length es"
  shows "case cli_at_run scan expand ts varint cfg fin es (s, l) of
      Inl e \<Rightarrow> True | Inr None \<Rightarrow> False
    | Inr (Some (s', l')) \<Rightarrow> queue_drained scan cfg hs_input_dir fs (at_input (as_at s'))"
  using assms
proof (induction es arbitrary: s l)
  case Nil
  then show ?case
    by (auto simp: cli_at_finish_def draining_def cli_at_done_def split: sum.split dest!: shutdown_timer_input)
next
  case (Cons e es)
  show ?case
  proof (cases "cli_at_done l")
    case True
    with Cons.prems(2) show ?thesis
      by (auto simp: cli_at_finish_def draining_def cli_at_done_def split: sum.split dest!: shutdown_timer_input)
  next
    case False
    show ?thesis
    proof (cases "cli_at_turn scan expand ts varint cfg e (s, l)")
      case (Inr sl')
      obtain s' l' where t: "cli_at_turn scan expand ts varint cfg e (s, l) = Inr (s', l')" using Inr by (cases sl') auto
      have u: "unchanged fs (ae_poll e)" using Cons.prems(3) by simp
      note st = cli_at_turn_step [OF Cons.prems(1,2) u t]
      have "case cli_at_run scan expand ts varint cfg fin es (s', l') of
          Inl e \<Rightarrow> True | Inr None \<Rightarrow> False
        | Inr (Some (s', l')) \<Rightarrow> queue_drained scan cfg hs_input_dir fs (at_input (as_at s'))"
        by (rule Cons.IH) (use st Cons.prems False in auto)
      then show ?thesis using False t by simp
    qed (simp add: False)
  qed
qed

section \<open>Waiting for the threads\<close>

record cli_at_join =
  cj_local :: cli_local
  cj_turns :: "at_env list"
  cj_fin :: "nat \<Rightarrow> analysis_env"

text \<open>The two flags: the process was asked to stop, and \<open>plugins->terminated\<close>.\<close>

fun cli_wait_threads ::
    "'m at_lib \<Rightarrow> ('m \<Rightarrow> int) \<Rightarrow> hs_config \<Rightarrow> cli_at_join list \<Rightarrow> hs_analysis_thread list \<Rightarrow>
     queue \<times> bool \<times> bool \<Rightarrow> hs_exit + (hs_analysis_thread list \<times> queue \<times> bool \<times> bool) option" where
  "cli_wait_threads lib ts cfg jes [] s = Inr (Some ([], s))"
| "cli_wait_threads lib ts cfg [] (th # ths) s = Inr None"
| "cli_wait_threads lib ts cfg (je # jes) (th # ths) (q, sigterm, terminated) =
     (case cli_at_run (atl_scan lib) (atl_expand lib) ts (atl_varint lib) cfg (cj_fin je) (cj_turns je)
             (\<lparr>as_at = th, as_queue = q, as_sigterm = sigterm\<rparr>, cj_local je) of
        Inl e \<Rightarrow> Inl e
      | Inr None \<Rightarrow> Inr None
      | Inr (Some (s, l)) \<Rightarrow>
          (case cli_wait_threads lib ts cfg jes ths (as_queue s, as_sigterm s, terminated \<or> cx_terminated l) of
             Inl e \<Rightarrow> Inl e
           | Inr None \<Rightarrow> Inr None
           | Inr (Some (ths', r)) \<Rightarrow> Inr (Some (as_at s # ths', r))))"

definition cli_wait_analysis ::
    "'m at_lib \<Rightarrow> ('m \<Rightarrow> int) \<Rightarrow> hs_config \<Rightarrow> cli_at_join list \<Rightarrow> fsys \<Rightarrow> bp_state \<Rightarrow> bool \<Rightarrow> hs_analysis_plugins \<Rightarrow>
     hs_exit + (hs_analysis_plugins \<times> fsys \<times> bp_state \<times> bool \<times> bool) option" where
  "cli_wait_analysis lib ts cfg jes fs bp terminated aps =
     (case cli_wait_threads lib ts cfg jes (aps_list aps) ((fs, aps_output aps, bp), False, terminated) of
        Inl e \<Rightarrow> Inl e
      | Inr None \<Rightarrow> Inr None
      | Inr (Some (ths, (fs', ob, bp'), flags)) \<Rightarrow>
          Inr (Some (aps\<lparr>aps_list := ths, aps_output := ob\<rparr>, fs', bp', flags)))"

section \<open>Properties\<close>

text \<open>What a thread needs to drain: a queue that stays as it is and a turn for each step of the work.\<close>

definition can_drain :: "'m at_lib \<Rightarrow> fsys \<Rightarrow> hs_analysis_thread \<Rightarrow> cli_at_join \<Rightarrow> bool" where
  "can_drain lib fs th je \<longleftrightarrow>
     quiet_queue (atl_scan lib) (atl_expand lib) fs (queue_dir hs_input_dir (at_input th)) \<and>
     reader_ready fs hs_input_dir (at_input th) \<and> \<not> cx_input_stop (cj_local je) \<and>
     (\<forall>e \<in> set (cj_turns je). unchanged fs (ae_poll e)) \<and>
     reader_work fs hs_input_dir (at_input th) < length (cj_turns je)"

lemma cli_wait_threads_drains:
  "list_all2 (can_drain lib fs) ths jes \<Longrightarrow> \<forall>th \<in> set ths. at_stop th \<Longrightarrow>
   case cli_wait_threads lib ts cfg jes ths s of
     Inl e \<Rightarrow> True | Inr None \<Rightarrow> False
   | Inr (Some (ths', r)) \<Rightarrow>
       length ths' = length ths \<and> (\<forall>th \<in> set ths'. queue_drained (atl_scan lib) cfg hs_input_dir fs (at_input th))"
proof (induction lib ts cfg jes ths s rule: cli_wait_threads.induct)
  case (3 lib ts cfg je jes th ths q sigterm terminated)
  let ?s = "\<lparr>as_at = th, as_queue = q, as_sigterm = sigterm\<rparr>"
  let ?r = "cli_at_run (atl_scan lib) (atl_expand lib) ts (atl_varint lib) cfg (cj_fin je) (cj_turns je) (?s, cj_local je)"
  have d: "can_drain lib fs th je" "at_stop th" using "3.prems" by simp_all
  have run: "case ?r of Inl e \<Rightarrow> True | Inr None \<Rightarrow> False
      | Inr (Some (s', l')) \<Rightarrow> queue_drained (atl_scan lib) cfg hs_input_dir fs (at_input (as_at s'))"
    by (rule cli_at_run_drains) (use d in \<open>auto simp: can_drain_def draining_def\<close>)
  show ?case
  proof (cases ?r)
    case (Inr o')
    then obtain s l where r: "?r = Inr (Some (s, l))" using run by (cases o') auto
    have "case cli_wait_threads lib ts cfg jes ths (as_queue s, as_sigterm s, terminated \<or> cx_terminated l) of
        Inl e \<Rightarrow> True | Inr None \<Rightarrow> False
      | Inr (Some (ths', r)) \<Rightarrow>
          length ths' = length ths \<and> (\<forall>th \<in> set ths'. queue_drained (atl_scan lib) cfg hs_input_dir fs (at_input th))"
      using "3.IH" r "3.prems" by simp
    with r run show ?thesis by (auto split: sum.splits option.splits)
  qed simp
qed simp_all


text \<open>A scanner for messages of one character.\<close>

definition scan_char :: "lsb_input_buffer \<Rightarrow> string option \<times> lsb_input_buffer" where
  "scan_char ib =
     (if window ib = [] then None else Some (window ib),
      \<lparr>ib_buf = ''_'', ib_size = 1, ib_msglen = 0, ib_scanpos = 0, ib_readpos = 0\<rparr>)"

lemma scanner_ok_scan_char: "scanner_ok scan_char"
proof -
  let ?e = "\<lparr>ib_buf = ''_'', ib_size = 1, ib_msglen = 0, ib_scanpos = 0, ib_readpos = 0\<rparr> :: lsb_input_buffer"
  have e: "ib_ok ?e" "window ?e = []" "read_need ?e \<noteq> 0" by code_simp+
  have "scan_step ib (snd (scan_char ib)) (length (window ib))" for ib
    using e by (simp add: scan_step_def scan_char_def)
  then show ?thesis using e by (auto simp: scanner_ok_def scan_ok_def scan_char_def)
qed

definition two_files :: fsys where
  "two_files = queue_files [(''o/input/1.log'', ''abc''), (''o/input/2.log'', ''de'')]"

lemma two_files_ids: "fopen_re two_files (log_name ''o/input'' i) \<noteq> None \<Longrightarrow> i = 1 \<or> i = 2"
proof -
  have "''o/input/1.log'' = log_name ''o/input'' 1" "''o/input/2.log'' = log_name ''o/input'' 2" by code_simp+
  then show "fopen_re two_files (log_name ''o/input'' i) \<noteq> None \<Longrightarrow> i = 1 \<or> i = 2"
    by (auto simp: fopen_re_def fs_get_def two_files_def queue_files_def split: if_splits)
qed

lemma two_files_quiet: "quiet_queue scan_char roomy two_files ''o/input''"
proof -
  have "int (fs_bytes two_files) < 2 ^ 64" by code_simp
  moreover have "fopen_re two_files (log_name ''o/input'' ULLONG_MAX) = None"
    using two_files_ids [of ULLONG_MAX] by (cases "fopen_re two_files (log_name ''o/input'' ULLONG_MAX)") auto
  ultimately show ?thesis
    by (simp add: quiet_queue_def scanner_ok_scan_char expand_ok_roomy)
qed

definition waiting_reader :: hs_input where
  "waiting_reader = idle_reader\<lparr>hsi_cp := \<lparr>cp_id = 1, cp_offset = 0\<rparr>\<rparr>"

lemma waiting_reader_work: "reader_work two_files hs_input_dir waiting_reader \<le> 22"
proof -
  have d: "queue_dir hs_input_dir waiting_reader = ''o/input''" by code_simp
  have "later_files two_files hs_input_dir waiting_reader \<le> card {2 :: u64}"
    unfolding later_files_def d
    by (intro card_mono) (auto dest!: two_files_ids [OF not_None_eq [THEN iffD2]] simp: waiting_reader_def)
  moreover have "fs_bytes two_files = 5" "unread two_files waiting_reader = 0" "window (hsi_ib waiting_reader) = []"
    by code_simp+
  ultimately show ?thesis by (simp add: reader_work_def waiting_reader_def idle_reader_def)
qed

definition cli_sample_env :: at_env where
  "cli_sample_env =
     \<lparr>ae_time = 0, ae_poll = \<lparr>pe_seek_ok = True, pe_fs_read = two_files, pe_fs_open = two_files\<rparr>,
      ae_plugins = (\<lambda>_. sample_an_env)\<rparr>"

definition cli_sample_lib :: "string at_lib" where
  "cli_sample_lib = \<lparr>atl_scan = scan_char, atl_expand = roomy, atl_varint = \<lambda>n. [char_of n]\<rparr>"

definition cli_sample_join :: cli_at_join where
  "cli_sample_join = \<lparr>cj_local = cli_init_local, cj_turns = replicate 23 cli_sample_env, cj_fin = \<lambda>_. sample_an_env\<rparr>"

definition cli_sample_threads :: hs_analysis_plugins where
  "cli_sample_threads =
     \<lparr>aps_list = [sample_thread\<lparr>at_input := waiting_reader\<rparr>, sample_thread\<lparr>at_list := [], at_input := waiting_reader\<rparr>],
      aps_cpr = \<lparr>cpr_values = []\<rparr>, aps_output = fst (snd sample_queue)\<rparr>"


text \<open>C29: after \<open>output_size\<close> was increased, a stopped thread of the command line variant gives up at the end of
  a queue file written under the old size, although the next file is there: its files are never
  analyzed. The daemon's thread, which opened a file before, moves on to it.\<close>

theorem cli_larger_size_strands:
  assumes "at_stop (as_at s)" and "hsi_fh (at_input (as_at s)) \<noteq> None"
    and "scan (hsi_ib (at_input (as_at s))) = (None, ib)"
    and "hs_read_file expand (pe_fs_read (ae_poll e)) ((at_input (as_at s))\<lparr>hsi_ib := ib\<rparr>) = Inr (0, h)"
    and "cp_offset (hsi_cp h) < ucast (cfg_output_size cfg)"
    and "hs_open_file (pe_seek_ok (ae_poll e)) (pe_fs_open (ae_poll e)) h hs_input_dir (cp_id (hsi_cp h) + 1) = Inr (True, h2)"
    and "cli_at_turn scan expand ts varint cfg e (s, l) = Inr (s', l')" and "al_next d"
  shows "cli_at_done l' \<and> at_input (as_at s') = h \<and>
    at_read expand cfg (ae_poll e) ((at_input (as_at s))\<lparr>hsi_ib := ib\<rparr>, d) = Inr (h2, d\<lparr>al_bytes := 0, al_next := True\<rparr>)"
proof -
  let ?hsi = "at_input (as_at s)"
  have p: "cli_poll scan expand cfg hs_input_dir (ae_poll e) (cx_bytes l) ?hsi = Inr (True, None, 0, h)"
    using assms(2-5) by (auto simp: cli_poll_def cli_read_def)
  obtain at_end m n where
    "cli_poll scan expand cfg hs_input_dir (ae_poll e) (cx_bytes l) ?hsi = Inr (at_end, m, n, at_input (as_at s'))"
    and "cx_stop l' = at_stop (as_at s)" "cx_input_stop l' \<longleftrightarrow> cx_input_stop l \<or> at_end \<and> at_stop (as_at s)"
    by (rule cli_at_turn_poll [OF assms(7)])
  with p assms(1) have "cli_at_done l' \<and> at_input (as_at s') = h" by (simp add: cli_at_done_def)
  then show ?thesis using assms(4,6,8) by (simp add: at_read_def)
qed

definition stranded_state :: an_state where
  "stranded_state = \<lparr>as_at = sample_thread, as_queue = sample_queue, as_sigterm = False\<rparr>"

theorem cli_larger_size_strands_witness:
  "\<exists>s' l'. cli_at_turn scan_nothing roomy (\<lambda>_. 0) (\<lambda>n. [char_of n]) (small_cfg\<lparr>cfg_output_size := 4\<rparr>) cli_sample_env
        (stranded_state, cli_init_local) = Inr (s', l') \<and>
     cli_at_done l' \<and> cp_id (hsi_cp (at_input (as_at s'))) = 1 \<and> file_bytes two_files ''o/input/2.log'' = ''de''"
proof -
  let ?cfg = "small_cfg\<lparr>cfg_output_size := 4\<rparr>"
  let ?r = "cli_at_turn scan_nothing roomy (\<lambda>_. 0) (\<lambda>n. [char_of n]) ?cfg cli_sample_env (stranded_state, cli_init_local)"
  let ?h2 = "reader_at_3\<lparr>hsi_fh := Some (''o/input/2.log'', 0), hsi_fn := Some ''o/input/2.log'', hsi_cp := \<lparr>cp_id = 2, cp_offset = 0\<rparr>\<rparr>"
  have i: "at_input (as_at stranded_state) = reader_at_3" by (simp add: stranded_state_def sample_thread_def)
  have "case ?r of Inr _ \<Rightarrow> True | Inl _ \<Rightarrow> False" by code_simp
  then obtain s' l' where r: "?r = Inr (s', l')" by (cases ?r) auto
  have st: "at_stop (as_at stranded_state)" by code_simp
  have fh: "hsi_fh (at_input (as_at stranded_state)) \<noteq> None" by code_simp
  have sc: "scan_nothing (hsi_ib (at_input (as_at stranded_state))) = (None, hsi_ib reader_at_3)"
    unfolding i by (simp add: scan_nothing_def)
  have rd: "hs_read_file roomy (pe_fs_read (ae_poll cli_sample_env)) ((at_input (as_at stranded_state))\<lparr>hsi_ib := hsi_ib reader_at_3\<rparr>) =
      Inr (0, reader_at_3)" by code_simp
  have small: "cp_offset (hsi_cp reader_at_3) < ucast (cfg_output_size ?cfg)" by code_simp
  have op: "hs_open_file (pe_seek_ok (ae_poll cli_sample_env)) (pe_fs_open (ae_poll cli_sample_env)) reader_at_3 hs_input_dir
      (cp_id (hsi_cp reader_at_3) + 1) = Inr (True, ?h2)" by code_simp
  have nx: "al_next (at_init_local\<lparr>al_next := True\<rparr>)" by simp
  note t = cli_larger_size_strands [OF st fh sc rd small op r nx]
  have "cp_id (hsi_cp reader_at_3) = 1" "file_bytes two_files ''o/input/2.log'' = ''de''" by code_simp+
  with t r show ?thesis by auto
qed

end
