(* ===== verification/HS_Cli_Output.thy ===== *)
theory HS_Cli_Output
  imports HS_Cli_Analysis HS_Output_Plugins
begin

text \<open>
  The output threads of the command line variant (the \<open>HINDSIGHT_CLI\<close> branches of
  \<open>src/hs_output_plugins.c\<close>): a thread that was told to stop goes on until it has found the end of
  the input queue and, after that, the end of the analysis queue. Its clock starts at the time of
  day and then is the greatest time stamp seen.
\<close>

section \<open>The thread\<close>

text \<open>The thread with the locals of \<open>input_thread\<close> this variant has.\<close>

record 'm cli_thread =
  ct_th :: "'m op_thread"
  ct_ns :: int
  ct_time :: int
  ct_input_stop :: bool
  ct_analysis_stop :: bool

definition cli_start_thread :: "int \<Rightarrow> 'm op_thread \<Rightarrow> 'm cli_thread" where
  "cli_start_thread now th =
     (let q = op_read_queue (th_plugin th)
      in \<lparr>ct_th = th, ct_ns = 0, ct_time = now, ct_input_stop = (q = CHR ''a''), ct_analysis_stop = (q = CHR ''i'')\<rparr>)"

text \<open>A queue is looked at while no message of it is held; the flag reports its end.\<close>

definition cli_op_poll ::
    "(lsb_input_buffer \<Rightarrow> 'm option \<times> lsb_input_buffer) \<Rightarrow>
     (lsb_input_buffer \<Rightarrow> u64 \<Rightarrow> lsb_input_buffer option) \<Rightarrow> hs_config \<Rightarrow> string \<Rightarrow> poll_env \<Rightarrow>
     hs_input \<times> 'm op_poll \<Rightarrow> hs_exit + (bool \<times> hs_input \<times> 'm op_poll)" where
  "cli_op_poll scan expand cfg subdir env s =
     (let (hsi, pl) = s in
      if hsi_fh hsi \<noteq> None \<and> pl_msg pl \<noteq> None then Inr (False, hsi, pl)
      else (case cli_poll scan expand cfg subdir env (pl_bytes pl) hsi of
              Inl e \<Rightarrow> Inl e
            | Inr (at_end, m, n, hsi') \<Rightarrow>
                Inr (at_end, hsi', pl\<lparr>pl_msg := (case m of None \<Rightarrow> pl_msg pl | Some x \<Rightarrow> Some x), pl_bytes := n\<rparr>)))"

definition cli_poll_input :: "'m thread_lib \<Rightarrow> hs_config \<Rightarrow> turn_env \<Rightarrow> 'm cli_thread \<Rightarrow> hs_exit + 'm cli_thread" where
  "cli_poll_input lib cfg env c =
     (let th = ct_th c; p = th_plugin th in
      if reads_input (op_read_queue p) then
        (case cli_op_poll (tl_scan lib) (tl_expand lib) cfg hs_input_dir (te_input env) (op_input p, th_im th) of
           Inl e \<Rightarrow> Inl e
         | Inr (at_end, hsi, pl) \<Rightarrow>
             Inr (c\<lparr>ct_th := th\<lparr>th_plugin := p\<lparr>op_input := hsi\<rparr>, th_im := pl\<rparr>,
                    ct_input_stop := ct_input_stop c \<or> at_end \<and> th_stop th\<rparr>))
      else Inr c)"

definition cli_poll_analysis :: "'m thread_lib \<Rightarrow> hs_config \<Rightarrow> turn_env \<Rightarrow> 'm cli_thread \<Rightarrow> hs_exit + 'm cli_thread" where
  "cli_poll_analysis lib cfg env c =
     (let th = ct_th c; p = th_plugin th in
      if reads_analysis (op_read_queue p) then
        (case cli_op_poll (tl_scan lib) (tl_expand lib) cfg hs_analysis_dir (te_analysis env) (op_analysis p, th_am th) of
           Inl e \<Rightarrow> Inl e
         | Inr (at_end, hsi, pl) \<Rightarrow>
             Inr (c\<lparr>ct_th := th\<lparr>th_plugin := p\<lparr>op_analysis := hsi\<rparr>, th_am := pl\<rparr>,
                    ct_analysis_stop := ct_analysis_stop c \<or> at_end \<and> ct_input_stop c \<and> th_stop th\<rparr>))
      else Inr c)"

definition cli_held :: "('m \<Rightarrow> int) \<Rightarrow> 'm op_thread \<Rightarrow> (bool \<times> 'm) option" where
  "cli_held ts th =
     (case op_pick ts (pl_msg (th_im th)) (pl_msg (th_am th)) of
        None \<Rightarrow> None
      | Some inp \<Rightarrow> map_option (Pair inp) (if inp then pl_msg (th_im th) else pl_msg (th_am th)))"

definition cli_advance :: "int \<Rightarrow> 'm cli_thread \<Rightarrow> 'm cli_thread" where
  "cli_advance t c = (if t > ct_ns c then c\<lparr>ct_ns := t, ct_time := cli_seconds t\<rparr> else c)"

text \<open>The clock of a turn: retries do not move it.\<close>

definition cli_env :: "int \<Rightarrow> turn_env \<Rightarrow> turn_env" where
  "cli_env t env = env\<lparr>te_time := t, te_retries := map (\<lambda>(_, e, b). (t, e, b)) (te_retries env)\<rparr>"

definition cli_op_deliver :: "('m \<Rightarrow> int) \<Rightarrow> turn_env \<Rightarrow> bool \<Rightarrow> 'm \<Rightarrow> 'm cli_thread \<Rightarrow> turn_end \<times> 'm cli_thread" where
  "cli_op_deliver ts env inp m c =
     (let c1 = cli_advance (ts m) c;
          (r, th) = op_deliver (cli_env (ct_time c1) env) (op_take inp (ct_th c1))
      in (r, c1\<lparr>ct_th := th\<rparr>))"

definition cli_op_idle :: "turn_env \<Rightarrow> 'm cli_thread \<Rightarrow> 'm cli_thread" where
  "cli_op_idle env c =
     (let th = ct_th c in
      if pl_bytes (th_im th) = 0 \<and> pl_bytes (th_am th) = 0 then
        c\<lparr>ct_th := th\<lparr>th_plugin :=
            snd (output_message (th_plugin th) False (th_sample th) (ct_time c) (te_message env))\<rparr>\<rparr>
      else c)"

definition cli_op_turn ::
    "'m thread_lib \<Rightarrow> hs_config \<Rightarrow> turn_env \<Rightarrow> 'm cli_thread \<Rightarrow> hs_exit + (turn_end \<times> 'm cli_thread)" where
  "cli_op_turn lib cfg env c =
     (let th = ct_th c;
          c0 = c\<lparr>ct_th := th\<lparr>th_stop := op_stop (th_plugin th), th_sample := op_sample (th_plugin th)\<rparr>\<rparr>
      in case cli_poll_input lib cfg env c0 of
           Inl e \<Rightarrow> Inl e
         | Inr c1 \<Rightarrow>
             (case cli_poll_analysis lib cfg env c1 of
                Inl e \<Rightarrow> Inl e
              | Inr c2 \<Rightarrow>
                  (case cli_held (tl_ts lib) (ct_th c2) of
                     Some (inp, m) \<Rightarrow> Inr (cli_op_deliver (tl_ts lib) env inp m c2)
                   | None \<Rightarrow> Inr (Turn_done, cli_op_idle env c2))))"

text \<open>The loop; the flag is set when a fatal error ended it, the result is \<open>None\<close> while it has not ended.\<close>

definition cli_op_done :: "'m cli_thread \<Rightarrow> bool" where
  "cli_op_done c \<longleftrightarrow> th_stop (ct_th c) \<and> ct_input_stop c \<and> ct_analysis_stop c"

fun cli_op_run ::
    "'m thread_lib \<Rightarrow> hs_config \<Rightarrow> turn_env list \<Rightarrow> 'm cli_thread \<Rightarrow> hs_exit + (bool \<times> 'm cli_thread) option" where
  "cli_op_run lib cfg [] c = Inr (if cli_op_done c then Some (False, c) else None)"
| "cli_op_run lib cfg (e # es) c =
     (if cli_op_done c then Inr (Some (False, c))
      else (case cli_op_turn lib cfg e c of
              Inl x \<Rightarrow> Inl x
            | Inr (Turn_fatal, c') \<Rightarrow> Inr (Some (True, c'))
            | Inr (Turn_retrying, c') \<Rightarrow> Inr None
            | Inr (Turn_done, c') \<Rightarrow> cli_op_run lib cfg es c'))"

section \<open>A delivery leaves the readers alone\<close>

definition op_readers :: "hs_output_plugin \<Rightarrow> hs_input \<times> hs_input" where
  "op_readers p = (op_input p, op_analysis p)"

text \<open>What only the timer changes beside them.\<close>

definition op_kept :: "hs_output_plugin \<Rightarrow> (hs_input \<times> hs_input) \<times> int \<times> int" where
  "op_kept p = (op_readers p, op_ticker_interval p, op_ticker_expires p)"

lemma op_kept_upd [simp]:
  "op_kept (p\<lparr>op_sample := b\<rparr>) = op_kept p" "op_kept (p\<lparr>op_pm_sample := b\<rparr>) = op_kept p"
  "op_kept (p\<lparr>op_cp := c\<rparr>) = op_kept p" "op_kept (p\<lparr>op_cur := c\<rparr>) = op_kept p"
  "op_kept (p\<lparr>op_batching := b\<rparr>) = op_kept p" "op_kept (p\<lparr>op_running := b\<rparr>) = op_kept p"
  "op_kept (p\<lparr>op_async_cp := a\<rparr>) = op_kept p" "op_kept (p\<lparr>op_pm_delta_cnt := i\<rparr>) = op_kept p"
  "op_kept (p\<lparr>op_sequence_id := i'\<rparr>) = op_kept p" "op_kept (p\<lparr>op_ack_sequence_id := i'\<rparr>) = op_kept p"
  "op_kept (p\<lparr>op_mm_delta_cnt := i\<rparr>) = op_kept p"
  by (simp_all add: op_kept_def op_readers_def)

lemma callback_kept [simp]: "op_kept (update_checkpoint_callback p s) = op_kept p"
  by (simp add: update_checkpoint_callback_def op_update_checkpoint_def Let_def split: bool.split option.split)

lemma run_acks_kept [simp]: "op_kept (run_acks acks p) = op_kept p"
  by (induction acks arbitrary: p) (simp_all add: run_acks_def)

lemma process_matched_kept [simp]: "op_kept (snd (process_matched env p)) = op_kept p"
proof -
  have "op_kept (store_async p) = op_kept p" by (simp add: store_async_def)
  then show ?thesis by (simp add: process_matched_def Let_def split: pm_ret.split)
qed

lemma message_part_kept [simp]: "op_kept (snd (message_part p has_raw sample env)) = op_kept p"
proof -
  have a: "op_kept (advance_checkpoint r q) = op_kept q" for r q
    by (simp add: advance_checkpoint_def op_update_checkpoint_def Let_def)
  show ?thesis by (simp add: message_part_def Let_def a case_prod_beta)
qed

lemma output_message_kept:
  assumes "output_message p has_raw sample t env = (r, p')"
  shows "op_readers p' = op_readers p" and "t < op_ticker_expires p \<Longrightarrow> op_kept p' = op_kept p"
proof -
  obtain r1 p1 where m: "message_part p has_raw sample env = (r1, p1)"
    and p': "p' = timer_part p1 r1 t env \<or> p' = (timer_part p1 r1 t env)\<lparr>op_sample := False\<rparr>"
    by (rule output_message_parts [OF assms])
  have p1: "op_kept p1 = op_kept p" using message_part_kept [of p has_raw sample env] m by simp
  then have e: "op_readers p1 = op_readers p" "op_ticker_expires p1 = op_ticker_expires p" by (simp_all add: op_kept_def)
  have k: "op_kept p' = op_kept (timer_part p1 r1 t env)" using p' by auto
  have "op_readers (timer_part p1 r1 t env) = op_readers p1"
    using run_acks_kept [of "om_te_acks env" p1] by (simp add: timer_part_def op_readers_def op_kept_def)
  with k e show "op_readers p' = op_readers p" by (simp add: op_kept_def)
  show "op_kept p' = op_kept p" if "t < op_ticker_expires p"
    using that e p1 k by (simp add: timer_part_def timer_fires_def)
qed

text \<open>A stopped thread delivers without the retry loop.\<close>

lemma op_deliver_stopped:
  assumes "th_stop th" and "op_deliver env th = (r, th')"
  shows "op_readers (th_plugin th') = op_readers (th_plugin th) \<and> op_fixed (th_plugin th') = op_fixed (th_plugin th) \<and>
    th_im th' = th_im th \<and> th_am th' = th_am th \<and> th_stop th' \<and> r \<noteq> Turn_retrying"
proof -
  obtain ret p where o: "output_message (th_plugin th) True (th_sample th) (te_time env) (te_message env) = (ret, p)"
    by fastforce
  have "th' = th\<lparr>th_plugin := p\<rparr>" "r = (if ret = PM_Fatal then Turn_fatal else Turn_done)"
    using assms o by (auto simp: op_deliver_def)
  then show ?thesis using assms(1) output_message_kept(1) [OF o] output_message_fixed [OF o] by simp
qed

section \<open>The end of the queues\<close>

text \<open>One of the two queues, with the message held of it and its stop flag.\<close>

definition side_ok ::
    "(lsb_input_buffer \<Rightarrow> 'm option \<times> lsb_input_buffer) \<Rightarrow> hs_config \<Rightarrow> fsys \<Rightarrow> string \<Rightarrow> hs_input \<Rightarrow> 'm op_poll \<Rightarrow> bool \<Rightarrow> bool" where
  "side_ok scan cfg fs subdir hsi pl stop \<longleftrightarrow>
     reader_ready fs subdir hsi \<and> (pl_msg pl \<noteq> None \<longrightarrow> hsi_fh hsi \<noteq> None) \<and>
     (stop \<longrightarrow> pl_msg pl = None \<and> queue_drained scan cfg subdir fs hsi)"

definition side_work :: "fsys \<Rightarrow> string \<Rightarrow> hs_input \<Rightarrow> 'm op_poll \<Rightarrow> nat" where
  "side_work fs subdir hsi pl = reader_work fs subdir hsi + (if pl_msg pl = None then 0 else 1)"

lemma cli_poll_message:
  "cli_poll scan expand cfg subdir env n0 hsi = Inr (at_end, Some x, n, hsi') \<Longrightarrow> hsi_fh hsi' \<noteq> None"
  by (auto simp: cli_poll_def split: if_splits sum.splits option.splits prod.splits)

lemma cli_op_poll_step:
  assumes "quiet_queue scan expand fs (queue_dir subdir hsi)" and "side_ok scan cfg fs subdir hsi pl stop" and "unchanged fs env"
    and "cli_op_poll scan expand cfg subdir env (hsi, pl) = Inr (at_end, hsi', pl')"
  shows "side_ok scan cfg fs subdir hsi' pl' (stop \<or> at_end) \<and> queue_dir subdir hsi' = queue_dir subdir hsi \<and>
    side_work fs subdir hsi' pl' \<le> side_work fs subdir hsi pl \<and>
    (pl_msg pl' = None \<and> \<not> at_end \<longrightarrow> side_work fs subdir hsi' pl' < side_work fs subdir hsi pl)"
proof (cases "hsi_fh hsi \<noteq> None \<and> pl_msg pl \<noteq> None")
  case True
  then show ?thesis using assms(2,4) by (auto simp: cli_op_poll_def side_ok_def)
next
  case False
  obtain m n where p: "cli_poll scan expand cfg subdir env (pl_bytes pl) hsi = Inr (at_end, m, n, hsi')"
    and pl': "pl' = pl\<lparr>pl_msg := (case m of None \<Rightarrow> pl_msg pl | Some x \<Rightarrow> Some x), pl_bytes := n\<rparr>"
    using assms(4) False by (auto simp: cli_op_poll_def split: sum.splits)
  have s: "reader_ready fs subdir hsi" "pl_msg pl = None" "stop \<Longrightarrow> queue_drained scan cfg subdir fs hsi"
    using assms(2) False by (auto simp: side_ok_def)
  note c = cli_poll_step [OF assms(1) s(1) assms(3) p]
  have d: "stop \<Longrightarrow> at_end" using cli_poll_drained [OF assms(1) s(1) assms(3) p s(3)] by simp
  show ?thesis
  proof (cases m)
    case None
    then show ?thesis using c d s(2) pl' by (auto simp: side_ok_def side_work_def split: if_splits)
  next
    case (Some x)
    moreover from this have "hsi_fh hsi' \<noteq> None" "\<not> at_end" using cli_poll_message p c by (auto split: if_splits)
    ultimately show ?thesis using c d s(2) pl' by (auto simp: side_ok_def side_work_def split: if_splits)
  qed
qed

definition output_draining :: "'m thread_lib \<Rightarrow> hs_config \<Rightarrow> fsys \<Rightarrow> 'm cli_thread \<Rightarrow> bool" where
  "output_draining lib cfg fs c \<longleftrightarrow>
     (let th = ct_th c; p = th_plugin th in
      (if reads_input (op_read_queue p)
       then side_ok (tl_scan lib) cfg fs hs_input_dir (op_input p) (th_im th) (ct_input_stop c)
       else ct_input_stop c \<and> pl_msg (th_im th) = None) \<and>
      (if reads_analysis (op_read_queue p)
       then side_ok (tl_scan lib) cfg fs hs_analysis_dir (op_analysis p) (th_am th) (ct_analysis_stop c)
       else ct_analysis_stop c \<and> pl_msg (th_am th) = None))"

definition output_work :: "fsys \<Rightarrow> 'm cli_thread \<Rightarrow> nat" where
  "output_work fs c =
     (let th = ct_th c; p = th_plugin th in
      (if reads_input (op_read_queue p) then side_work fs hs_input_dir (op_input p) (th_im th) else 0) +
      (if reads_analysis (op_read_queue p) then side_work fs hs_analysis_dir (op_analysis p) (th_am th) else 0))"

definition quiet_queues :: "'m thread_lib \<Rightarrow> fsys \<Rightarrow> hs_output_plugin \<Rightarrow> bool" where
  "quiet_queues lib fs p \<longleftrightarrow>
     quiet_queue (tl_scan lib) (tl_expand lib) fs (queue_dir hs_input_dir (op_input p)) \<and>
     quiet_queue (tl_scan lib) (tl_expand lib) fs (queue_dir hs_analysis_dir (op_analysis p))"

lemma op_fixed_queue: "op_fixed p = op_fixed q \<Longrightarrow> op_read_queue p = op_read_queue q \<and> op_stop p = op_stop q"
  by (simp add: op_fixed_def)

lemma cli_poll_input_step:
  assumes "cli_poll_input lib cfg env c = Inr c'" and "quiet_queues lib fs (th_plugin (ct_th c))"
    and "output_draining lib cfg fs c" and "unchanged fs (te_input env)" and "th_stop (ct_th c)"
  shows "output_draining lib cfg fs c' \<and> quiet_queues lib fs (th_plugin (ct_th c')) \<and> th_stop (ct_th c') \<and>
    op_fixed (th_plugin (ct_th c')) = op_fixed (th_plugin (ct_th c)) \<and> output_work fs c' \<le> output_work fs c \<and>
    (pl_msg (th_im (ct_th c')) = None \<and> \<not> ct_input_stop c' \<longrightarrow> output_work fs c' < output_work fs c)"
proof (cases "reads_input (op_read_queue (th_plugin (ct_th c)))")
  case True
  let ?th = "ct_th c" and ?p = "th_plugin (ct_th c)"
  obtain at_end hsi pl where
    p: "cli_op_poll (tl_scan lib) (tl_expand lib) cfg hs_input_dir (te_input env) (op_input ?p, th_im ?th) = Inr (at_end, hsi, pl)"
    and c': "c' = c\<lparr>ct_th := ?th\<lparr>th_plugin := ?p\<lparr>op_input := hsi\<rparr>, th_im := pl\<rparr>,
                    ct_input_stop := ct_input_stop c \<or> at_end \<and> th_stop ?th\<rparr>"
    using assms(1) True by (auto simp: cli_poll_input_def Let_def split: sum.splits)
  have s: "side_ok (tl_scan lib) cfg fs hs_input_dir (op_input ?p) (th_im ?th) (ct_input_stop c)"
    using assms(3) True by (simp add: output_draining_def Let_def)
  have q: "quiet_queue (tl_scan lib) (tl_expand lib) fs (queue_dir hs_input_dir (op_input ?p))"
    using assms(2) by (simp add: quiet_queues_def)
  note st = cli_op_poll_step [OF q s assms(4) p]
  show ?thesis
    using st assms(2,3,5) True
    by (auto simp: c' output_draining_def output_work_def quiet_queues_def op_fixed_def Let_def split: if_splits)
next
  case False
  then show ?thesis using assms by (auto simp: cli_poll_input_def output_draining_def Let_def)
qed

lemma cli_poll_analysis_step:
  assumes "cli_poll_analysis lib cfg env c = Inr c'" and "quiet_queues lib fs (th_plugin (ct_th c))"
    and "output_draining lib cfg fs c" and "unchanged fs (te_analysis env)" and "th_stop (ct_th c)"
  shows "output_draining lib cfg fs c' \<and> quiet_queues lib fs (th_plugin (ct_th c')) \<and> th_stop (ct_th c') \<and>
    op_fixed (th_plugin (ct_th c')) = op_fixed (th_plugin (ct_th c)) \<and> output_work fs c' \<le> output_work fs c \<and>
    th_im (ct_th c') = th_im (ct_th c) \<and> ct_input_stop c' = ct_input_stop c \<and>
    (pl_msg (th_am (ct_th c')) = None \<and> ct_input_stop c \<and> \<not> ct_analysis_stop c' \<longrightarrow> output_work fs c' < output_work fs c)"
proof (cases "reads_analysis (op_read_queue (th_plugin (ct_th c)))")
  case True
  let ?th = "ct_th c" and ?p = "th_plugin (ct_th c)"
  obtain at_end hsi pl where
    p: "cli_op_poll (tl_scan lib) (tl_expand lib) cfg hs_analysis_dir (te_analysis env) (op_analysis ?p, th_am ?th) = Inr (at_end, hsi, pl)"
    and c': "c' = c\<lparr>ct_th := ?th\<lparr>th_plugin := ?p\<lparr>op_analysis := hsi\<rparr>, th_am := pl\<rparr>,
                    ct_analysis_stop := ct_analysis_stop c \<or> at_end \<and> ct_input_stop c \<and> th_stop ?th\<rparr>"
    using assms(1) True by (auto simp: cli_poll_analysis_def Let_def split: sum.splits)
  have s: "side_ok (tl_scan lib) cfg fs hs_analysis_dir (op_analysis ?p) (th_am ?th) (ct_analysis_stop c)"
    using assms(3) True by (simp add: output_draining_def Let_def)
  have q: "quiet_queue (tl_scan lib) (tl_expand lib) fs (queue_dir hs_analysis_dir (op_analysis ?p))"
    using assms(2) by (simp add: quiet_queues_def)
  note st = cli_op_poll_step [OF q s assms(4) p]
  have sd: "side_ok (tl_scan lib) cfg fs hs_analysis_dir hsi pl (ct_analysis_stop c \<or> at_end \<and> ct_input_stop c \<and> th_stop ?th)"
    using st by (auto simp: side_ok_def)
  show ?thesis
    using st sd assms(2,3,5) True
    by (auto simp: c' output_draining_def output_work_def quiet_queues_def op_fixed_def Let_def)
next
  case False
  then show ?thesis using assms by (auto simp: cli_poll_analysis_def output_draining_def Let_def)
qed

lemma cli_held_None: "cli_held ts th = None \<longleftrightarrow> pl_msg (th_im th) = None \<and> pl_msg (th_am th) = None"
  by (auto simp: cli_held_def op_pick_def split: option.split)

lemma cli_held_Some:
  "cli_held ts th = Some (inp, m) \<Longrightarrow> (if inp then pl_msg (th_im th) else pl_msg (th_am th)) = Some m"
  by (auto simp: cli_held_def split: option.splits if_splits)

lemma cli_op_deliver_step:
  assumes "cli_held ts (ct_th c) = Some (inp, m)" and "cli_op_deliver ts env inp m c = (r, c')" and "th_stop (ct_th c)"
    and "quiet_queues lib fs (th_plugin (ct_th c))" and "output_draining lib cfg fs c"
  shows "output_draining lib cfg fs c' \<and> quiet_queues lib fs (th_plugin (ct_th c')) \<and> th_stop (ct_th c') \<and>
    op_fixed (th_plugin (ct_th c')) = op_fixed (th_plugin (ct_th c)) \<and> output_work fs c' < output_work fs c \<and> r \<noteq> Turn_retrying"
proof -
  define c1 where "c1 = cli_advance (ts m) c"
  have c1: "ct_th c1 = ct_th c" "ct_input_stop c1 = ct_input_stop c" "ct_analysis_stop c1 = ct_analysis_stop c"
    by (simp_all add: c1_def cli_advance_def)
  obtain th where d: "op_deliver (cli_env (ct_time c1) env) (op_take inp (ct_th c)) = (r, th)" and c': "c' = c1\<lparr>ct_th := th\<rparr>"
    using assms(2) by (auto simp: cli_op_deliver_def Let_def c1_def [symmetric] c1(1) split: prod.splits)
  have t: "th_stop (op_take inp (ct_th c))" using assms(3) by (simp add: op_take_def Let_def)
  note k = op_deliver_stopped [OF t d]
  have r: "op_input (th_plugin th) = op_input (th_plugin (ct_th c))" "op_analysis (th_plugin th) = op_analysis (th_plugin (ct_th c))"
    and f: "op_fixed (th_plugin th) = op_fixed (th_plugin (ct_th c))"
    using k by (simp_all add: op_readers_def op_take_def Let_def op_fixed_def split: if_splits)
  have m: "th_im th = (if inp then (th_im (ct_th c))\<lparr>pl_msg := None\<rparr> else th_im (ct_th c))"
    "th_am th = (if inp then th_am (ct_th c) else (th_am (ct_th c))\<lparr>pl_msg := None\<rparr>)"
    using k by (simp_all add: op_take_def Let_def)
  note h = cli_held_Some [OF assms(1)]
  show ?thesis
    using h m r f k assms(4,5) op_fixed_queue [OF f]
    by (cases inp) (auto simp: c' c1 output_draining_def output_work_def side_ok_def side_work_def quiet_queues_def Let_def split: if_splits)
qed

lemma cli_op_idle_step:
  assumes "quiet_queues lib fs (th_plugin (ct_th c))" and "output_draining lib cfg fs c"
  shows "output_draining lib cfg fs (cli_op_idle env c) \<and> quiet_queues lib fs (th_plugin (ct_th (cli_op_idle env c))) \<and>
    op_fixed (th_plugin (ct_th (cli_op_idle env c))) = op_fixed (th_plugin (ct_th c)) \<and>
    output_work fs (cli_op_idle env c) = output_work fs c \<and> cli_op_done (cli_op_idle env c) = cli_op_done c"
proof -
  let ?th = "ct_th c"
  obtain r p where o: "output_message (th_plugin ?th) False (th_sample ?th) (ct_time c) (te_message env) = (r, p)" by fastforce
  note k = output_message_kept(1) [OF o] output_message_fixed [OF o]
  have i: "op_input p = op_input (th_plugin ?th)" "op_analysis p = op_analysis (th_plugin ?th)"
    "op_read_queue p = op_read_queue (th_plugin ?th)"
    using k by (simp_all add: op_readers_def op_fixed_def)
  have e: "cli_op_idle env c = c \<or> cli_op_idle env c = c\<lparr>ct_th := ?th\<lparr>th_plugin := p\<rparr>\<rparr>" by (simp add: cli_op_idle_def Let_def o)
  have "output_draining lib cfg fs (c\<lparr>ct_th := ?th\<lparr>th_plugin := p\<rparr>\<rparr>) = output_draining lib cfg fs c"
    "quiet_queues lib fs p = quiet_queues lib fs (th_plugin ?th)"
    "output_work fs (c\<lparr>ct_th := ?th\<lparr>th_plugin := p\<rparr>\<rparr>) = output_work fs c"
    by (simp_all add: output_draining_def output_work_def quiet_queues_def Let_def i)
  with e assms k(2) show ?thesis by (auto simp: cli_op_done_def)
qed

lemma cli_op_turn_step:
  assumes "cli_op_turn lib cfg env c = Inr (r, c')" and "quiet_queues lib fs (th_plugin (ct_th c))"
    and "output_draining lib cfg fs c" and "op_stop (th_plugin (ct_th c))"
    and "unchanged fs (te_input env)" and "unchanged fs (te_analysis env)"
  shows "quiet_queues lib fs (th_plugin (ct_th c')) \<and> output_draining lib cfg fs c' \<and> op_stop (th_plugin (ct_th c')) \<and>
    r \<noteq> Turn_retrying \<and> (cli_op_done c' \<or> output_work fs c' < output_work fs c)"
proof -
  let ?c0 = "c\<lparr>ct_th := (ct_th c)\<lparr>th_stop := op_stop (th_plugin (ct_th c)), th_sample := op_sample (th_plugin (ct_th c))\<rparr>\<rparr>"
  have c0: "quiet_queues lib fs (th_plugin (ct_th ?c0))" "output_draining lib cfg fs ?c0" "th_stop (ct_th ?c0)"
    "op_fixed (th_plugin (ct_th ?c0)) = op_fixed (th_plugin (ct_th c))" "output_work fs ?c0 = output_work fs c"
  proof -
    have "output_draining lib cfg fs ?c0 = output_draining lib cfg fs c" by (simp add: output_draining_def Let_def)
    then show "output_draining lib cfg fs ?c0" using assms(3) by simp
  qed (use assms(2,4) in \<open>simp_all add: output_work_def Let_def\<close>)
  obtain c1 where p1: "cli_poll_input lib cfg env ?c0 = Inr c1"
    using assms(1) by (auto simp: cli_op_turn_def Let_def split: sum.splits)
  note s1 = cli_poll_input_step [OF p1 c0(1,2) assms(5) c0(3)]
  obtain c2 where p2: "cli_poll_analysis lib cfg env c1 = Inr c2"
    using assms(1) p1 by (auto simp: cli_op_turn_def Let_def split: sum.splits)
  have t1: "th_stop (ct_th c1)" using s1 by simp
  note s2 = cli_poll_analysis_step [OF p2 _ _ assms(6) t1]
  have s2: "output_draining lib cfg fs c2" "quiet_queues lib fs (th_plugin (ct_th c2))" "th_stop (ct_th c2)"
    "op_fixed (th_plugin (ct_th c2)) = op_fixed (th_plugin (ct_th c))" "output_work fs c2 \<le> output_work fs c"
    "pl_msg (th_im (ct_th c2)) = None \<Longrightarrow> pl_msg (th_am (ct_th c2)) = None \<Longrightarrow>
       (ct_input_stop c2 \<and> ct_analysis_stop c2) \<or> output_work fs c2 < output_work fs c"
    using s2 s1 c0(4,5) by auto
  show ?thesis
  proof (cases "cli_held (tl_ts lib) (ct_th c2)")
    case None
    have r: "r = Turn_done" "c' = cli_op_idle env c2" using assms(1) p1 p2 None by (auto simp: cli_op_turn_def Let_def)
    have "(ct_input_stop c2 \<and> ct_analysis_stop c2) \<or> output_work fs c2 < output_work fs c"
      using s2(6) None by (auto simp: cli_held_None)
    then have "cli_op_done c2 \<or> output_work fs c2 < output_work fs c" using s2(3) by (auto simp: cli_op_done_def)
    note i = cli_op_idle_step [OF s2(2,1), of env]
    have "op_fixed (th_plugin (ct_th c')) = op_fixed (th_plugin (ct_th c))" using i s2(4) r(2) by simp
    from op_fixed_queue [OF this] assms(4) have "op_stop (th_plugin (ct_th c'))" by simp
    then show ?thesis using i r \<open>cli_op_done c2 \<or> _\<close> by simp
  next
    case (Some x)
    obtain inp m where h: "cli_held (tl_ts lib) (ct_th c2) = Some (inp, m)" using Some by (cases x) auto
    have d: "cli_op_deliver (tl_ts lib) env inp m c2 = (r, c')" using assms(1) p1 p2 h by (auto simp: cli_op_turn_def Let_def)
    note k = cli_op_deliver_step [OF h d s2(3,2,1)]
    have "op_fixed (th_plugin (ct_th c')) = op_fixed (th_plugin (ct_th c))" using k s2(4) by simp
    from op_fixed_queue [OF this] assms(4) have "op_stop (th_plugin (ct_th c'))" by simp
    then show ?thesis using k s2(5) by simp
  qed
qed

text \<open>The end of both queues: nothing held, and what is read is read to its end.\<close>

definition output_drained :: "'m thread_lib \<Rightarrow> hs_config \<Rightarrow> fsys \<Rightarrow> 'm op_thread \<Rightarrow> bool" where
  "output_drained lib cfg fs th \<longleftrightarrow>
     pl_msg (th_im th) = None \<and> pl_msg (th_am th) = None \<and>
     (reads_input (op_read_queue (th_plugin th)) \<longrightarrow>
        queue_drained (tl_scan lib) cfg hs_input_dir fs (op_input (th_plugin th))) \<and>
     (reads_analysis (op_read_queue (th_plugin th)) \<longrightarrow>
        queue_drained (tl_scan lib) cfg hs_analysis_dir fs (op_analysis (th_plugin th)))"

lemma draining_done: "output_draining lib cfg fs c \<Longrightarrow> cli_op_done c \<Longrightarrow> output_drained lib cfg fs (ct_th c)"
  by (auto simp: output_draining_def cli_op_done_def output_drained_def side_ok_def Let_def split: if_splits)

lemma cli_op_run_drains:
  assumes "quiet_queues lib fs (th_plugin (ct_th c))" and "output_draining lib cfg fs c" and "op_stop (th_plugin (ct_th c))"
    and "\<forall>e \<in> set es. unchanged fs (te_input e) \<and> unchanged fs (te_analysis e)"
    and "cli_op_done c \<or> output_work fs c < length es"
  shows "case cli_op_run lib cfg es c of
      Inl e \<Rightarrow> True | Inr None \<Rightarrow> False
    | Inr (Some (fatal, c')) \<Rightarrow> fatal \<or> output_drained lib cfg fs (ct_th c')"
  using assms
proof (induction es arbitrary: c)
  case Nil
  then show ?case by (simp add: draining_done)
next
  case (Cons e es)
  show ?case
  proof (cases "cli_op_done c")
    case True
    then show ?thesis using draining_done [OF Cons.prems(2)] by simp
  next
    case False
    show ?thesis
    proof (cases "cli_op_turn lib cfg e c")
      case (Inr rc)
      obtain r c' where t: "cli_op_turn lib cfg e c = Inr (r, c')" using Inr by (cases rc) auto
      have u: "unchanged fs (te_input e)" "unchanged fs (te_analysis e)" using Cons.prems(4) by auto
      note st = cli_op_turn_step [OF t Cons.prems(1-3) u]
      show ?thesis
      proof (cases r)
        case Turn_done
        have "case cli_op_run lib cfg es c' of Inl e \<Rightarrow> True | Inr None \<Rightarrow> False
            | Inr (Some (fatal, c')) \<Rightarrow> fatal \<or> output_drained lib cfg fs (ct_th c')"
          by (rule Cons.IH) (use st Cons.prems False in auto)
        then show ?thesis using False t Turn_done by simp
      qed (use False t st in auto)
    qed (simp add: False)
  qed
qed

section \<open>The clock\<close>

text \<open>While the clock is behind the next timer event no delivery triggers it.\<close>

lemma retry_loop_kept:
  "retry_loop p (map (\<lambda>(_, e, b). (t, e, b)) es) = Some (r, st, p') \<Longrightarrow> t < op_ticker_expires p \<Longrightarrow> op_kept p' = op_kept p"
proof (induction es arbitrary: p)
  case (Cons x es)
  obtain u e b where x: "x = (u, e, b)" by (cases x)
  obtain r1 q1 where o1: "output_message p True False t e = (r1, q1)" by fastforce
  have k: "op_kept q1 = op_kept p" by (rule output_message_kept(2) [OF o1 Cons.prems(2)])
  then have "t < op_ticker_expires q1" using Cons.prems(2) by (simp add: op_kept_def)
  then show ?case using Cons.prems(1) Cons.IH [of q1] k o1 x by (auto split: if_splits)
qed simp

lemma op_deliver_kept:
  assumes "op_deliver (cli_env t env) th = (r, th')" and "t < op_ticker_expires (th_plugin th)"
  shows "op_kept (th_plugin th') = op_kept (th_plugin th)"
proof -
  obtain ret p where o: "output_message (th_plugin th) True (th_sample th) t (te_message env) = (ret, p)" by fastforce
  have k: "op_kept p = op_kept (th_plugin th)" by (rule output_message_kept(2) [OF o assms(2)])
  then have "t < op_ticker_expires p" using assms(2) by (simp add: op_kept_def)
  then show ?thesis
    using assms(1) o k retry_loop_kept [of p t "te_retries env"]
    by (auto simp: op_deliver_def cli_env_def split: if_splits option.splits prod.splits)
qed

definition timer_pending :: "int \<Rightarrow> 'm cli_thread \<Rightarrow> bool" where
  "timer_pending x c \<longleftrightarrow> ct_time c < x \<and> op_ticker_expires (th_plugin (ct_th c)) = x"

lemma cli_poll_pending:
  "cli_poll_input lib cfg env c = Inr c' \<Longrightarrow> timer_pending x c' = timer_pending x c"
  "cli_poll_analysis lib cfg env c = Inr c' \<Longrightarrow> timer_pending x c' = timer_pending x c"
  by (auto simp: cli_poll_input_def cli_poll_analysis_def timer_pending_def Let_def split: if_splits sum.splits)

lemma cli_op_turn_pending:
  assumes "cli_op_turn lib cfg env c = Inr (r, c')" and "\<forall>m. tl_ts lib m < x * 1000000000" and "timer_pending x c"
  shows "timer_pending x c'"
proof -
  let ?c0 = "c\<lparr>ct_th := (ct_th c)\<lparr>th_stop := op_stop (th_plugin (ct_th c)), th_sample := op_sample (th_plugin (ct_th c))\<rparr>\<rparr>"
  have "timer_pending x ?c0" using assms(3) by (simp add: timer_pending_def)
  moreover obtain c1 c2 where p1: "cli_poll_input lib cfg env ?c0 = Inr c1" and p2: "cli_poll_analysis lib cfg env c1 = Inr c2"
    using assms(1) by (auto simp: cli_op_turn_def Let_def split: sum.splits)
  ultimately have c2: "timer_pending x c2" by (simp add: cli_poll_pending)
  show ?thesis
  proof (cases "cli_held (tl_ts lib) (ct_th c2)")
    case None
    then have c': "c' = cli_op_idle env c2" using assms(1) p1 p2 by (auto simp: cli_op_turn_def Let_def)
    obtain q p where o: "output_message (th_plugin (ct_th c2)) False (th_sample (ct_th c2)) (ct_time c2) (te_message env) = (q, p)"
      by fastforce
    show ?thesis
      using c2 output_message_kept(2) [OF o] o by (simp add: c' cli_op_idle_def timer_pending_def op_kept_def Let_def)
  next
    case (Some im)
    obtain inp m where h: "cli_held (tl_ts lib) (ct_th c2) = Some (inp, m)" using Some by (cases im) auto
    define c3 where "c3 = cli_advance (tl_ts lib m) c2"
    have "tl_ts lib m < x * 1000000000" using assms(2) by blast
    then have "cli_seconds (tl_ts lib m) < x" unfolding cli_seconds_def by presburger
    then have t3: "ct_time c3 < x" and th3: "ct_th c3 = ct_th c2" using c2 by (simp_all add: c3_def cli_advance_def timer_pending_def)
    obtain th where d: "op_deliver (cli_env (ct_time c3) env) (op_take inp (ct_th c2)) = (r, th)" and c': "c' = c3\<lparr>ct_th := th\<rparr>"
      using assms(1) p1 p2 h th3
      by (auto simp: cli_op_turn_def cli_op_deliver_def Let_def c3_def [symmetric] split: prod.splits)
    have e: "op_ticker_expires (th_plugin (op_take inp (ct_th c2))) = x"
      using c2 by (simp add: op_take_def timer_pending_def Let_def)
    have "op_kept (th_plugin th) = op_kept (th_plugin (op_take inp (ct_th c2)))"
      by (rule op_deliver_kept [OF d]) (simp add: e t3)
    then show ?thesis using t3 e by (simp add: c' timer_pending_def op_kept_def)
  qed
qed

lemma cli_op_run_pending:
  "cli_op_run lib cfg es c = Inr (Some (f, c')) \<Longrightarrow> \<forall>m. tl_ts lib m < x * 1000000000 \<Longrightarrow> timer_pending x c \<Longrightarrow> timer_pending x c'"
proof (induction es arbitrary: c)
  case (Cons e es)
  show ?case
  proof (cases "cli_op_done c")
    case False
    obtain r c1 where t: "cli_op_turn lib cfg e c = Inr (r, c1)"
      using Cons.prems(1) False by (auto split: sum.splits)
    have "timer_pending x c1" by (rule cli_op_turn_pending [OF t Cons.prems(2,3)])
    then show ?thesis using Cons.prems(1,2) Cons.IH t False by (cases r) auto
  qed (use Cons.prems in simp)
qed (simp split: if_splits)

section \<open>Properties\<close>


text \<open>C30: the clock of an output thread is not driven by the data alone: it starts at the time of day. When
  the thread's first turn finds nothing to read, the timer event it triggers is the last one of the
  run, for data older than that: the next is due an interval after the time of day, which the
  time stamps do not reach.\<close>

theorem cli_timer_starved:
  assumes "op_ticker_interval (th_plugin th) > 0" and "op_ticker_expires (th_plugin th) \<le> now"
    and "pl_bytes (th_im th) = 0" and "pl_bytes (th_am th) = 0"
    and "\<forall>m. tl_ts lib m < (now + op_ticker_interval (th_plugin th)) * 1000000000"
    and "cli_op_run lib cfg es (cli_op_idle env (cli_start_thread now th)) = Inr (Some (fatal, c))"
  shows "ct_time c < now + op_ticker_interval (th_plugin th) \<and>
    op_ticker_expires (th_plugin (ct_th c)) = now + op_ticker_interval (th_plugin th)"
proof -
  let ?i = "op_ticker_interval (th_plugin th)"
  have "op_ticker_expires (snd (output_message (th_plugin th) False (th_sample th) now (te_message env))) = now + ?i"
  proof -
    have "op_ticker_interval (run_acks acks p) = op_ticker_interval p" for acks p
      using run_acks_kept [of acks p] by (simp add: op_kept_def)
    then show ?thesis
      using assms(1,2) by (simp add: output_message_def message_part_def timer_part_def timer_fires_def Let_def)
  qed
  then have "timer_pending (now + ?i) (cli_op_idle env (cli_start_thread now th))"
    using assms(1,3,4) by (simp add: timer_pending_def cli_op_idle_def cli_start_thread_def Let_def)
  from cli_op_run_pending [OF assms(6,5) this] show ?thesis by (simp add: timer_pending_def)
qed

definition cli_pair_lib :: "string thread_lib" where
  "cli_pair_lib = quiet_lib\<lparr>tl_scan := scan_char\<rparr>"

definition cli_turn_env :: "pm_ret \<Rightarrow> turn_env" where
  "cli_turn_env r =
     (let pe = \<lparr>pe_seek_ok = True, pe_fs_read = two_files, pe_fs_open = two_files\<rparr>
      in (quiet_env r)\<lparr>te_input := pe, te_analysis := pe\<rparr>)"

definition ticking_thread :: "string op_thread" where
  "ticking_thread =
     start_thread ((sample_plugin ''output.a'')\<lparr>op_stop := True, op_read_queue := CHR ''b'', op_ticker_interval := 60,
       op_input := waiting_reader, op_analysis := idle_reader\<rparr>)"

theorem cli_timer_starved_witness:
  "\<exists>c. cli_op_run cli_pair_lib small_cfg (replicate 34 (cli_turn_env PM_Sent))
        (cli_op_idle (cli_turn_env PM_Sent) (cli_start_thread 1700000000 ticking_thread)) = Inr (Some (False, c)) \<and>
     op_sequence_id (th_plugin (ct_th c)) = 5 \<and> op_ticker_expires (th_plugin (ct_th c)) = 1700000060"
proof -
  let ?r = "cli_op_run cli_pair_lib small_cfg (replicate 34 (cli_turn_env PM_Sent))
        (cli_op_idle (cli_turn_env PM_Sent) (cli_start_thread 1700000000 ticking_thread))"
  have "case ?r of Inr (Some (f, c)) \<Rightarrow> \<not> f \<and> op_sequence_id (th_plugin (ct_th c)) = 5 | _ \<Rightarrow> False" by code_simp
  then obtain c where r: "?r = Inr (Some (False, c))" and s: "op_sequence_id (th_plugin (ct_th c)) = 5"
    by (auto split: sum.splits option.splits)
  have h: "op_ticker_interval (th_plugin ticking_thread) > 0" "op_ticker_expires (th_plugin ticking_thread) \<le> 1700000000"
    "pl_bytes (th_im ticking_thread) = 0" "pl_bytes (th_am ticking_thread) = 0" "op_ticker_interval (th_plugin ticking_thread) = 60"
    by code_simp+
  have t: "\<forall>m. tl_ts cli_pair_lib m < (1700000000 + op_ticker_interval (th_plugin ticking_thread)) * 1000000000"
    by (simp add: cli_pair_lib_def quiet_lib_def h(5))
  from cli_timer_starved [OF h(1-4) t r] h(5) r s show ?thesis by auto
qed


section \<open>A retry while the queues are drained\<close>

lemma run_acks_idle: "op_async_cp p = None \<Longrightarrow> \<not> op_batching p \<Longrightarrow> run_acks acks p = p"
  by (induction acks) (simp_all add: run_acks_def update_checkpoint_callback_def split: bool.split)

text \<open>A synchronous plugin between messages.\<close>

definition op_sync_plain :: "hs_output_plugin \<Rightarrow> bool" where
  "op_sync_plain p \<longleftrightarrow> op_async_cp p = None \<and> op_async_len p = 0 \<and> \<not> op_batching p"

lemma output_message_sync:
  assumes "op_sync_plain p" and "om_matched env" and "\<not> om_te_fatal env" and "om_ret env = r" and "r = PM_Retry \<or> r = PM_Sent"
    and "output_message p True sample t env = (ret, p')"
  shows "ret = r \<and> op_sync_plain p' \<and>
    (r = PM_Retry \<longrightarrow> op_cp p' = op_cp p \<and> op_sequence_id p' = op_sequence_id p) \<and>
    (r = PM_Sent \<longrightarrow> op_cp p' = op_cur p \<and> op_sequence_id p' = op_sequence_id p + 1)"
proof -
  define p0 where "p0 = (if sample then p\<lparr>op_pm_sample := True\<rparr> else p)"
  have p0: "op_async_cp p0 = None" "op_async_len p0 = 0" "\<not> op_batching p0" "op_cp p0 = op_cp p" "op_cur p0 = op_cur p"
    "op_sequence_id p0 = op_sequence_id p"
    using assms(1) by (auto simp: p0_def op_sync_plain_def)
  have st: "store_async p0 = p0" by (simp add: store_async_def p0(2))
  obtain r1 p1 where m: "message_part p True sample env = (r1, p1)" by fastforce
  have m1: "r1 = r" "op_async_cp p1 = None" "op_async_len p1 = 0" "\<not> op_batching p1"
    "r = PM_Retry \<Longrightarrow> op_cp p1 = op_cp p \<and> op_sequence_id p1 = op_sequence_id p"
    "r = PM_Sent \<Longrightarrow> op_cp p1 = op_cur p \<and> op_sequence_id p1 = op_sequence_id p + 1"
    using m assms(2,4,5) p0 unfolding message_part_def Let_def p0_def [symmetric]
    by (auto simp: process_matched_def advance_checkpoint_def op_update_checkpoint_def st run_acks_idle Let_def)
  have tp: "op_cp (timer_part p1 r1 t env) = op_cp p1" "op_sequence_id (timer_part p1 r1 t env) = op_sequence_id p1"
    "op_sync_plain (timer_part p1 r1 t env)"
    using m1(2-4) by (simp_all add: timer_part_def run_acks_idle op_sync_plain_def)
  have "ret = r1" "p' = (if sample then (timer_part p1 r1 t env)\<lparr>op_sample := False\<rparr> else timer_part p1 r1 t env)"
    using assms(3,5,6) m m1(1) by (auto simp: output_message_def Let_def)
  then show ?thesis using tp m1 by (auto simp: op_sync_plain_def)
qed

text \<open>A turn of a stopped thread that delivers one message of the input queue.\<close>

lemma cli_op_turn_delivers:
  assumes "op_stop p" and "op_read_queue p = CHR ''i''" and "op_sync_plain p" and "th_plugin (ct_th c) = p"
    and "pl_msg (th_am (ct_th c)) = None"
    and "cli_op_poll (tl_scan lib) (tl_expand lib) cfg hs_input_dir (te_input env) (op_input p, th_im (ct_th c)) = Inr (False, hsi, pl)"
    and "pl_msg pl = Some m" and "om_matched (te_message env)" and "\<not> om_te_fatal (te_message env)"
    and "om_ret (te_message env) = r" and "r = PM_Retry \<or> r = PM_Sent"
  shows "\<exists>c'. cli_op_turn lib cfg env c = Inr (Turn_done, c') \<and> op_sync_plain (th_plugin (ct_th c')) \<and>
    op_fixed (th_plugin (ct_th c')) = op_fixed p \<and> op_input (th_plugin (ct_th c')) = hsi \<and>
    pl_msg (th_im (ct_th c')) = None \<and> pl_msg (th_am (ct_th c')) = None \<and> th_stop (ct_th c') \<and>
    ct_input_stop c' = ct_input_stop c \<and>
    (r = PM_Retry \<longrightarrow> op_cp (th_plugin (ct_th c')) = op_cp p \<and> op_sequence_id (th_plugin (ct_th c')) = op_sequence_id p) \<and>
    (r = PM_Sent \<longrightarrow> cpp_input (op_cp (th_plugin (ct_th c'))) = reader_position hsi \<and>
       op_sequence_id (th_plugin (ct_th c')) = op_sequence_id p + 1)"
proof -
  let ?th = "ct_th c"
  have rq: "reads_input (op_read_queue p)" "\<not> reads_analysis (op_read_queue p)"
    by (simp_all add: assms(2) reads_input_def reads_analysis_def)
  let ?q = "p\<lparr>op_input := hsi\<rparr>"
  let ?th0 = "?th\<lparr>th_stop := True, th_sample := op_sample p\<rparr>"
  let ?th1 = "?th0\<lparr>th_plugin := ?q, th_im := pl\<rparr>"
  define c1 where "c1 = c\<lparr>ct_th := ?th1, ct_input_stop := ct_input_stop c\<rparr>"
  have c1: "ct_th c1 = ?th1" "ct_input_stop c1 = ct_input_stop c" by (simp_all add: c1_def)
  have p1: "cli_poll_input lib cfg env (c\<lparr>ct_th := ?th\<lparr>th_stop := op_stop p, th_sample := op_sample p\<rparr>\<rparr>) = Inr c1"
    using assms(1,4,6) rq(1) by (simp add: cli_poll_input_def c1_def Let_def)
  have p2: "cli_poll_analysis lib cfg env c1 = Inr c1" using rq(2) by (simp add: cli_poll_analysis_def c1 Let_def)
  have h: "cli_held (tl_ts lib) (ct_th c1) = Some (True, m)" using assms(5,7) by (simp add: c1 cli_held_def op_pick_def)
  define c2 where "c2 = cli_advance (tl_ts lib m) c1"
  have c2: "ct_th c2 = ?th1" "ct_input_stop c2 = ct_input_stop c" by (simp_all add: c2_def cli_advance_def c1)
  let ?t = "op_take True ?th1"
  have t: "op_sync_plain (th_plugin ?t)" "op_cur (th_plugin ?t) = (op_cur p)\<lparr>cpp_input := reader_position hsi\<rparr>"
    "op_cp (th_plugin ?t) = op_cp p" "op_sequence_id (th_plugin ?t) = op_sequence_id p" "th_stop ?t"
    "op_fixed (th_plugin ?t) = op_fixed p" "op_input (th_plugin ?t) = hsi"
    "pl_msg (th_im ?t) = None" "th_am ?t = th_am ?th"
    using assms(3) by (simp_all add: op_take_def Let_def op_sync_plain_def op_fixed_def)
  obtain ret p' where o: "output_message (th_plugin ?t) True (th_sample ?t) (ct_time c2) (te_message env) = (ret, p')" by fastforce
  note om = output_message_sync [OF t(1) assms(8,9,10,11) o]
  have d: "op_deliver (cli_env (ct_time c2) env) ?t = (Turn_done, ?t\<lparr>th_plugin := p'\<rparr>)"
    using o om assms(11) t(5) by (auto simp: op_deliver_def cli_env_def)
  have del: "cli_op_deliver (tl_ts lib) env True m c1 = (Turn_done, c2\<lparr>ct_th := ?t\<lparr>th_plugin := p'\<rparr>\<rparr>)"
    unfolding cli_op_deliver_def Let_def c2_def [symmetric] by (simp only: c2(1) d prod.case)
  have run: "cli_op_turn lib cfg env c = Inr (Turn_done, c2\<lparr>ct_th := ?t\<lparr>th_plugin := p'\<rparr>\<rparr>)"
    using p1 p2 h del unfolding cli_op_turn_def Let_def assms(4) by simp
  have "op_readers p' = op_readers (th_plugin ?t)" "op_fixed p' = op_fixed (th_plugin ?t)"
    using output_message_kept(1) [OF o] output_message_fixed [OF o] by simp_all
  then show ?thesis
    using run om t assms(5) c2(2)
    by (intro exI [of _ "c2\<lparr>ct_th := ?t\<lparr>th_plugin := p'\<rparr>\<rparr>"]) (auto simp: op_readers_def)
qed

text \<open>C28: while a stopped output thread of the command line variant drains its queue, a message its sandbox
  asks to retry is not tried again: the thread goes on to the next one, and once that is sent the
  saved position is past both. The message is lost to the output, also for the next run.\<close>

theorem cli_retry_skipped:
  assumes "op_stop p" and "op_read_queue p = CHR ''i''" and "op_sync_plain p" and "th_plugin (ct_th c) = p"
    and "pl_msg (th_im (ct_th c)) = None" and "pl_msg (th_am (ct_th c)) = None" and "hsi_fh (op_input p) \<noteq> None"
    and "tl_scan lib (hsi_ib (op_input p)) = (Some m1, ib1)" and "tl_scan lib ib1 = (Some m2, ib2)"
    and "om_matched (te_message e1)" and "\<not> om_te_fatal (te_message e1)" and "om_ret (te_message e1) = PM_Retry"
    and "om_matched (te_message e2)" and "\<not> om_te_fatal (te_message e2)" and "om_ret (te_message e2) = PM_Sent"
  shows "\<exists>c1 c2. cli_op_turn lib cfg e1 c = Inr (Turn_done, c1) \<and> pl_msg (th_im (ct_th c1)) = None \<and>
    op_cp (th_plugin (ct_th c1)) = op_cp p \<and> cli_op_turn lib cfg e2 c1 = Inr (Turn_done, c2) \<and>
    cpp_input (op_cp (th_plugin (ct_th c2))) = reader_position ((op_input p)\<lparr>hsi_ib := ib2\<rparr>) \<and>
    op_sequence_id (th_plugin (ct_th c2)) = op_sequence_id p + 1"
proof -
  let ?h = "(op_input p)\<lparr>hsi_ib := ib1\<rparr>"
  have "\<exists>pl. cli_op_poll (tl_scan lib) (tl_expand lib) cfg hs_input_dir (te_input e1) (op_input p, th_im (ct_th c)) = Inr (False, ?h, pl) \<and>
      pl_msg pl = Some m1"
    using assms(5,7,8) by (auto simp: cli_op_poll_def cli_poll_def)
  then obtain pl1 where p1: "cli_op_poll (tl_scan lib) (tl_expand lib) cfg hs_input_dir (te_input e1) (op_input p, th_im (ct_th c)) = Inr (False, ?h, pl1)"
    and m1: "pl_msg pl1 = Some m1" by blast
  obtain c1 where c1: "cli_op_turn lib cfg e1 c = Inr (Turn_done, c1)" "op_sync_plain (th_plugin (ct_th c1))"
    "op_fixed (th_plugin (ct_th c1)) = op_fixed p" "op_input (th_plugin (ct_th c1)) = ?h"
    "pl_msg (th_im (ct_th c1)) = None" "pl_msg (th_am (ct_th c1)) = None"
    "op_cp (th_plugin (ct_th c1)) = op_cp p" "op_sequence_id (th_plugin (ct_th c1)) = op_sequence_id p"
    using cli_op_turn_delivers [OF assms(1-4,6) p1 m1 assms(10-12)] by auto
  let ?p1 = "th_plugin (ct_th c1)" and ?h2 = "(op_input p)\<lparr>hsi_ib := ib2\<rparr>"
  have f: "op_stop ?p1" "op_read_queue ?p1 = CHR ''i''" using c1(3) assms(1,2) by (simp_all add: op_fixed_def)
  have "\<exists>pl. cli_op_poll (tl_scan lib) (tl_expand lib) cfg hs_input_dir (te_input e2) (op_input ?p1, th_im (ct_th c1)) = Inr (False, ?h2, pl) \<and>
      pl_msg pl = Some m2"
    using c1(4,5) assms(7,9) by (auto simp: cli_op_poll_def cli_poll_def)
  then obtain pl2 where p2: "cli_op_poll (tl_scan lib) (tl_expand lib) cfg hs_input_dir (te_input e2) (op_input ?p1, th_im (ct_th c1)) = Inr (False, ?h2, pl2)"
    and m2: "pl_msg pl2 = Some m2" by blast
  obtain c2 where "cli_op_turn lib cfg e2 c1 = Inr (Turn_done, c2)"
    "cpp_input (op_cp (th_plugin (ct_th c2))) = reader_position ?h2" "op_sequence_id (th_plugin (ct_th c2)) = op_sequence_id ?p1 + 1"
    using cli_op_turn_delivers [OF f c1(2) refl c1(6) p2 m2 assms(13-15)] by auto
  with c1 show ?thesis by auto
qed

definition two_pending :: hs_input where
  "two_pending =
     reader_at_3\<lparr>hsi_ib := \<lparr>ib_buf = ''ab__'', ib_size = 4, ib_msglen = 0, ib_scanpos = 0, ib_readpos = 2\<rparr>\<rparr>"

text \<open>A scanner that takes one byte at a time.\<close>

definition scan_one :: "lsb_input_buffer \<Rightarrow> string option \<times> lsb_input_buffer" where
  "scan_one ib =
     (if window ib = [] then (None, ib) else (Some (take 1 (window ib)), ib\<lparr>ib_scanpos := ib_scanpos ib + 1\<rparr>))"

theorem cli_retry_skipped_witness:
  "let lib = quiet_lib\<lparr>tl_scan := scan_one\<rparr>;
       p = (sample_plugin ''output.a'')\<lparr>op_stop := True, op_read_queue := CHR ''i'', op_input := two_pending\<rparr>;
       c = cli_start_thread 0 (start_thread p)
   in \<exists>c1 c2. cli_op_turn lib small_cfg (cli_turn_env PM_Retry) c = Inr (Turn_done, c1) \<and>
        cli_op_turn lib small_cfg (cli_turn_env PM_Sent) c1 = Inr (Turn_done, c2) \<and>
        cpp_input (op_cp (th_plugin (ct_th c2))) = \<lparr>cp_id = 1, cp_offset = 3\<rparr> \<and> op_sequence_id (th_plugin (ct_th c2)) = 1"
proof -
  let ?lib = "quiet_lib\<lparr>tl_scan := scan_one\<rparr>"
  let ?p = "(sample_plugin ''output.a'')\<lparr>op_stop := True, op_read_queue := CHR ''i'', op_input := two_pending\<rparr>"
  let ?c = "cli_start_thread 0 (start_thread ?p) :: string cli_thread"
  let ?ib1 = "\<lparr>ib_buf = ''ab__'', ib_size = 4, ib_msglen = 0, ib_scanpos = 1, ib_readpos = 2\<rparr> :: lsb_input_buffer"
  let ?ib2 = "?ib1\<lparr>ib_scanpos := 2\<rparr>"
  have h: "op_stop ?p" "op_read_queue ?p = CHR ''i''" "op_sync_plain ?p" "hsi_fh (op_input ?p) \<noteq> None" by code_simp+
  have c: "th_plugin (ct_th ?c) = ?p" "pl_msg (th_im (ct_th ?c)) = None" "pl_msg (th_am (ct_th ?c)) = None"
    by (simp_all add: cli_start_thread_def start_thread_def op_init_poll_def)
  have s: "tl_scan ?lib (hsi_ib (op_input ?p)) = (Some ''a'', ?ib1)" "tl_scan ?lib ?ib1 = (Some ''b'', ?ib2)" by code_simp+
  have e: "om_matched (te_message (cli_turn_env r))" "\<not> om_te_fatal (te_message (cli_turn_env r))"
    "om_ret (te_message (cli_turn_env r)) = r" for r
    by (simp_all add: cli_turn_env_def quiet_env_def Let_def)
  have "reader_position ((op_input ?p)\<lparr>hsi_ib := ?ib2\<rparr>) = \<lparr>cp_id = 1, cp_offset = 3\<rparr>" "op_sequence_id ?p = 0" by code_simp+
  with cli_retry_skipped [OF h(1-3) c h(4) s e(1,2,3) e(1,2,3), where cfg = small_cfg] show ?thesis
    unfolding Let_def by auto
qed

section \<open>Waiting for the threads\<close>

text \<open>
  The end of a thread, and \<open>pthread_join\<close> by a caller that holds the list's lock: as in the daemon, a
  thread that ends by an error before it has seen the stop flag waits for that lock. \<open>co_ns\<close> and
  \<open>co_time\<close> are its clock when it is joined, \<open>co_mid\<close> is the turn under way then, \<open>co_running\<close> is
  \<open>lsb_heka_is_running\<close> after the join.
\<close>

record cli_op_join =
  co_ns :: int
  co_time :: int
  co_mid :: "turn_env option"
  co_turns :: "turn_env list"
  co_exit :: exit_env
  co_running :: bool

definition cli_with_stop :: "bool \<Rightarrow> 'm cli_thread \<Rightarrow> 'm cli_thread" where
  "cli_with_stop b c = c\<lparr>ct_th := with_stop b (ct_th c)\<rparr>"

definition cli_op_finish ::
    "'m thread_lib \<Rightarrow> hs_config \<Rightarrow> cli_op_join \<Rightarrow> 'm cli_thread \<Rightarrow> hs_checkpoint_reader \<Rightarrow>
     hs_exit + ('m op_thread \<times> hs_checkpoint_reader) option" where
  "cli_op_finish lib cfg je c cpr =
     (case cli_op_run lib cfg (co_turns je) c of
        Inl x \<Rightarrow> Inl x
      | Inr None \<Rightarrow> Inr None
      | Inr (Some (_, c')) \<Rightarrow>
          if th_stop (ct_th c') then
            (case op_leave (tl_fmt_f lib) (co_exit je) (ct_th c') cpr of
               (p, cpr') \<Rightarrow> Inr (Some ((ct_th c')\<lparr>th_plugin := p\<rparr>, cpr')))
          else Inr None)"

definition cli_join ::
    "'m thread_lib \<Rightarrow> hs_config \<Rightarrow> cli_op_join \<Rightarrow> bool \<Rightarrow> 'm op_thread \<Rightarrow> hs_checkpoint_reader \<Rightarrow>
     hs_exit + ('m op_thread \<times> hs_checkpoint_reader) option" where
  "cli_join lib cfg je stop th cpr =
     (let c = (cli_start_thread (co_time je) th)\<lparr>ct_ns := co_ns je\<rparr> in
      case (case co_mid je of
              None \<Rightarrow> Inr (Turn_done, c)
            | Some e \<Rightarrow> cli_op_turn lib cfg e (cli_with_stop False c)) of
        Inl x \<Rightarrow> Inl x
      | Inr (Turn_done, c1) \<Rightarrow> cli_op_finish lib cfg je (cli_with_stop stop c1) cpr
      | Inr (_, _) \<Rightarrow> Inr None)"

text \<open>Removing a plugin by its name, as \<open>remove_from_output_plugins\<close> does; and waiting for all of them,
  where a sandbox that does not run any more sets \<open>plugins->terminated\<close>.\<close>

definition cli_remove_output ::
    "'m thread_lib \<Rightarrow> hs_config \<Rightarrow> cli_op_join \<Rightarrow> string \<Rightarrow> 'm hs_output_plugins \<Rightarrow>
     hs_exit + (bool \<times> 'm hs_output_plugins) option" where
  "cli_remove_output lib cfg je name ops =
     (case find_plugin op_stem name (ops_list ops) of
        None \<Rightarrow> Inr (Some (False, ops))
      | Some i \<Rightarrow>
          (case ops_list ops ! i of
             None \<Rightarrow> Inl Undefined_behaviour
           | Some th \<Rightarrow>
               (case cli_join lib cfg je True th (ops_cpr ops) of
                  Inl x \<Rightarrow> Inl x
                | Inr None \<Rightarrow> Inr None
                | Inr (Some (_, cpr')) \<Rightarrow>
                    Inr (Some (True, ops\<lparr>ops_list := (ops_list ops)[i := None], ops_cpr := cpr',
                                         ops_list_cnt := ops_list_cnt ops - 1\<rparr>)))))"

fun cli_join_slots ::
    "'m thread_lib \<Rightarrow> hs_config \<Rightarrow> cli_op_join list \<Rightarrow> 'm op_thread option list \<Rightarrow> hs_checkpoint_reader \<times> bool \<Rightarrow>
     hs_exit + (int \<times> hs_checkpoint_reader \<times> bool) option" where
  "cli_join_slots lib cfg (je # jes) (Some th # xs) (cpr, terminated) =
     (case cli_join lib cfg je (op_stop (th_plugin th)) th cpr of
        Inl x \<Rightarrow> Inl x
      | Inr None \<Rightarrow> Inr None
      | Inr (Some (_, cpr')) \<Rightarrow>
          (case cli_join_slots lib cfg jes xs (cpr', terminated \<or> \<not> co_running je) of
             Inl x \<Rightarrow> Inl x
           | Inr None \<Rightarrow> Inr None
           | Inr (Some (n, r)) \<Rightarrow> Inr (Some (n + 1, r))))"
| "cli_join_slots lib cfg jes (None # xs) s = cli_join_slots lib cfg jes xs s"
| "cli_join_slots lib cfg jes [] s = Inr (Some (0, s))"
| "cli_join_slots lib cfg [] (Some th # xs) s = Inr None"

definition cli_wait_outputs ::
    "'m thread_lib \<Rightarrow> hs_config \<Rightarrow> cli_op_join list \<Rightarrow> bool \<Rightarrow> 'm hs_output_plugins \<Rightarrow>
     hs_exit + ('m hs_output_plugins \<times> bool) option" where
  "cli_wait_outputs lib cfg jes terminated ops =
     (case cli_join_slots lib cfg jes (ops_list ops) (ops_cpr ops, terminated) of
        Inl x \<Rightarrow> Inl x
      | Inr None \<Rightarrow> Inr None
      | Inr (Some (n, cpr, t)) \<Rightarrow>
          Inr (Some (ops\<lparr>ops_list := map (\<lambda>_. None) (ops_list ops), ops_cpr := cpr,
                         ops_list_cnt := ops_list_cnt ops - n\<rparr>, t)))"

end
