(* ===== verification/HS_Cli_Load.thy ===== *)
theory HS_Cli_Load
  imports HS_Main HS_Cli_Output
begin

text \<open>
  Loading plugins in the command line variant. It starts and stops them as the daemon does, except
  that timers are due at once (\<open>ticker_expires\<close> is 0, as if the time of day and the random number were
  0) and that a plugin that could not be created sets the flag \<open>terminated\<close> of its list, which the
  exit status reports. The flags are computed beside the daemon's own loading.
\<close>

definition cli_sandbox :: "sandbox_lib \<Rightarrow> sandbox_lib" where
  "cli_sandbox lib = lib\<lparr>sl_now := 0, sl_rnd := 0\<rparr>"

definition cli_lib :: "'m main_lib \<Rightarrow> 'm main_lib" where
  "cli_lib lib = lib\<lparr>ml_sandbox := cli_sandbox (ml_sandbox lib)\<rparr>"

section \<open>Plugins that could not be created\<close>

text \<open>A configuration that loads but whose plugin is not created; \<open>fix\<close> is what happens to it in between.\<close>

definition refused ::
    "sandbox_lib \<Rightarrow> char \<Rightarrow> string \<Rightarrow> hs_sandbox_config \<Rightarrow> (fsys \<Rightarrow> hs_sandbox_config \<Rightarrow> hs_sandbox_config) \<Rightarrow>
     hs_config \<Rightarrow> fsys \<Rightarrow> string \<Rightarrow> string \<Rightarrow> bool" where
  "refused lib type ptype dflt adjust cfg fs dir fn =
     (case hs_load_sandbox_config (sl_lua lib) fs dir fn dflt type of
        Inr (fs1, Some sbc) \<Rightarrow>
          (case prepare_sandbox lib type ptype fs1 cfg (adjust fs1 sbc) of Inr (None, _) \<Rightarrow> True | _ \<Rightarrow> False)
      | _ \<Rightarrow> False)"

definition input_refused :: "sandbox_lib \<Rightarrow> hs_config \<Rightarrow> fsys \<Rightarrow> string \<Rightarrow> string \<Rightarrow> bool" where
  "input_refused lib cfg = refused lib (CHR ''i'') hs_input_dir (cfg_ipd cfg) (\<lambda>_ sbc. sbc) cfg"

definition output_refused :: "sandbox_lib \<Rightarrow> hs_config \<Rightarrow> fsys \<Rightarrow> string \<Rightarrow> string \<Rightarrow> bool" where
  "output_refused lib cfg = refused lib (CHR ''o'') hs_output_dir (cfg_opd cfg) (\<lambda>_ sbc. sbc) cfg"

definition analysis_refused ::
    "sandbox_lib \<Rightarrow> (fsys \<Rightarrow> hs_sandbox_config \<Rightarrow> hs_sandbox_config) \<Rightarrow> hs_config \<Rightarrow> fsys \<Rightarrow> string \<Rightarrow> string \<Rightarrow> bool" where
  "analysis_refused lib adjust cfg = refused lib (CHR ''a'') hs_analysis_dir (cfg_apd cfg) adjust cfg"

text \<open>At startup: some entry of the run directory, each in the state the ones before it left.\<close>

fun inputs_refused :: "sandbox_lib \<Rightarrow> bool \<Rightarrow> hs_config \<Rightarrow> string \<Rightarrow> string list \<Rightarrow> hs_input_plugins \<Rightarrow> bool" where
  "inputs_refused lib malloc_ok cfg dir [] ips = False"
| "inputs_refused lib malloc_ok cfg dir (e # es) ips =
     (input_refused lib cfg (ips_fs ips) dir e \<or>
      (case load_input_plugin lib malloc_ok cfg dir e ips of
         Inl _ \<Rightarrow> False
       | Inr ips' \<Rightarrow> inputs_refused lib malloc_ok cfg dir es ips'))"

definition input_startup_failed :: "sandbox_lib \<Rightarrow> bool \<Rightarrow> hs_config \<Rightarrow> hs_input_plugins \<Rightarrow> bool" where
  "input_startup_failed lib malloc_ok cfg ips =
     (let dir = str_of (cfg_run_path_input cfg); fs = hs_prune_err (ips_fs ips) dir
      in case readdir fs dir of
           None \<Rightarrow> False
         | Some es \<Rightarrow> inputs_refused lib malloc_ok cfg dir es (set_ips_fs fs ips))"

fun all_analysis_refused ::
    "sandbox_lib \<Rightarrow> (lua_number \<Rightarrow> int) \<Rightarrow> hs_config \<Rightarrow> string \<Rightarrow> string list \<Rightarrow>
     fsys \<times> hs_analysis_plugins \<times> int list \<Rightarrow> bool" where
  "all_analysis_refused lib toint cfg dir [] s = False"
| "all_analysis_refused lib toint cfg dir (e # es) (fs, aps, counts) =
     (analysis_refused lib (\<lambda>fs1 sbc. fst (assign_thread (sl_lua lib) toint cfg fs1 e sbc counts)) cfg fs dir e \<or>
      (case load_analysis_entry lib toint cfg dir e (fs, aps, counts) of
         Inl _ \<Rightarrow> False
       | Inr s' \<Rightarrow> all_analysis_refused lib toint cfg dir es s'))"

definition analysis_startup_failed ::
    "sandbox_lib \<Rightarrow> (lua_number \<Rightarrow> int) \<Rightarrow> hs_config \<Rightarrow> fsys \<Rightarrow> hs_analysis_plugins \<Rightarrow> bool" where
  "analysis_startup_failed lib toint cfg fs aps =
     (let dir = str_of (cfg_run_path_analysis cfg); fs1 = hs_prune_err fs dir
      in case readdir fs1 dir of
           None \<Rightarrow> False
         | Some es \<Rightarrow>
             (case fold_exit (migrate_rtc cfg dir) es fs1 of
                Inl _ \<Rightarrow> False
              | Inr fs2 \<Rightarrow>
                  let es2 = (case readdir fs2 dir of None \<Rightarrow> [] | Some es2 \<Rightarrow> es2);
                      counts = fold (count_provisioned (sl_lua lib) toint cfg fs2 dir) es2
                                 (replicate (length (aps_list aps)) 0)
                  in all_analysis_refused lib toint cfg dir es2 (fs2, aps, counts)))"

fun outputs_refused ::
    "sandbox_lib \<Rightarrow> hs_config \<Rightarrow> string \<Rightarrow> string list \<Rightarrow> fsys \<Rightarrow> 'm hs_output_plugins \<Rightarrow> bool" where
  "outputs_refused lib cfg dir [] fs ops = False"
| "outputs_refused lib cfg dir (e # es) fs ops =
     (output_refused lib cfg fs dir e \<or>
      (case load_output_plugin lib fs cfg dir e False ops of
         Inl _ \<Rightarrow> False
       | Inr (fs', ops', _, _) \<Rightarrow> outputs_refused lib cfg dir es fs' ops'))"

definition output_startup_failed :: "sandbox_lib \<Rightarrow> hs_config \<Rightarrow> fsys \<Rightarrow> 'm hs_output_plugins \<Rightarrow> bool" where
  "output_startup_failed lib cfg fs ops =
     (let dir = str_of (cfg_run_path_output cfg); fs1 = hs_prune_err fs dir
      in case readdir fs1 dir of
           None \<Rightarrow> False
         | Some es \<Rightarrow> outputs_refused lib cfg dir es fs1 ops)"

section \<open>Loading at run time\<close>

text \<open>
  One file of a load directory. \<open>ended\<close> says that the sandbox of an input plugin the load stops is found
  terminated or in no known state (\<open>join_thread\<close>); an output plugin is joined by its own variant's loop.
\<close>

definition input_load_failed ::
    "sandbox_lib \<Rightarrow> (nat \<Rightarrow> string) \<Rightarrow> hs_config \<Rightarrow> ip_join_env \<Rightarrow> bool \<Rightarrow> string \<Rightarrow> hs_input_plugins \<Rightarrow> bool" where
  "input_load_failed lib varint cfg je ended name ips =
     (let lpath = str_of (cfg_load_path_input cfg); rpath = str_of (cfg_run_path_input cfg) in
      if hs_has_ext name hs_lua_ext then False
      else (case hs_process_load_cfg (ips_fs ips) lpath rpath name of
              Inl _ \<Rightarrow> False
            | Inr (code, fs1) \<Rightarrow>
                if code = 0 \<or> code = 1 then
                  (case remove_from_input_plugins varint cfg je name (set_ips_fs fs1 ips) of
                     Inr (True, ips1) \<Rightarrow>
                       ended \<and> find_plugin ip_stem name (ips_list ips) \<noteq> None \<or>
                       code = 1 \<and> input_refused lib cfg (ips_fs ips1) rpath name
                   | _ \<Rightarrow> False)
                else False))"

definition analysis_load_failed ::
    "sandbox_lib \<Rightarrow> (lua_number \<Rightarrow> int) \<Rightarrow> hs_config \<Rightarrow> string \<Rightarrow> fsys \<Rightarrow> hs_analysis_plugins \<Rightarrow> bool" where
  "analysis_load_failed lib toint cfg name fs aps =
     (let lpath = str_of (cfg_load_path_analysis cfg); rpath = str_of (cfg_run_path_analysis cfg) in
      if hs_has_ext name hs_lua_ext then False
      else (case get_thread_id (sl_lua lib) toint cfg fs name of
              Inr (True, tid0, fs1) \<Rightarrow>
                let tid = (if tid0 = UINT_MAX then least_used_thread_id cfg aps else tid0) in
                tid \<noteq> UINT_MAX \<and>
                (case hs_process_load_cfg fs1 lpath rpath name of
                   Inl _ \<Rightarrow> False
                 | Inr (code, fs2) \<Rightarrow>
                     code = 1 \<and>
                     analysis_refused lib (\<lambda>_ sbc. if sbc_thread sbc = UINT_MAX then sbc\<lparr>sbc_thread := tid\<rparr> else sbc)
                       cfg fs2 rpath name)
            | _ \<Rightarrow> False))"

text \<open>The output plugins' load with the flag; the rest is \<open>hs_load_output_dynamic\<close>.\<close>

definition cli_reload_output ::
    "sandbox_lib \<Rightarrow> 'm thread_lib \<Rightarrow> hs_config \<Rightarrow> cli_op_join \<Rightarrow> string \<Rightarrow> fsys \<Rightarrow> 'm hs_output_plugins \<Rightarrow>
     hs_exit + (bool \<times> fsys \<times> 'm hs_output_plugins) option" where
  "cli_reload_output lib tlib cfg je filename fs ops =
     (let rpath = str_of (cfg_run_path_output cfg) in
      case cli_remove_output tlib cfg je filename ops of
        Inl x \<Rightarrow> Inl x
      | Inr None \<Rightarrow> Inr None
      | Inr (Some (removed, ops1)) \<Rightarrow>
          (case load_output_plugin lib fs cfg rpath filename True ops1 of
             Inl x \<Rightarrow> Inl x
           | Inr (fs2, ops2, loaded, rm_cp) \<Rightarrow>
               Inr (Some (output_refused lib cfg fs rpath filename, fs2,
                          if removed \<and> \<not> loaded \<and> rm_cp then forget_checkpoints filename ops2 else ops2))))"

definition cli_load_output ::
    "sandbox_lib \<Rightarrow> 'm thread_lib \<Rightarrow> hs_config \<Rightarrow> cli_op_join \<Rightarrow> string \<Rightarrow> fsys \<Rightarrow> 'm hs_output_plugins \<Rightarrow>
     hs_exit + (bool \<times> fsys \<times> 'm hs_output_plugins) option" where
  "cli_load_output lib tlib cfg je filename fs ops =
     (let lpath = str_of (cfg_load_path_output cfg); rpath = str_of (cfg_run_path_output cfg) in
      if hs_has_ext filename hs_lua_ext then
        (case process_lua_files fs lpath rpath filename
                (map (\<lambda>th. (op_lua_file (th_plugin th), op_stem th)) (occupied (ops_list ops))) of
           Inl x \<Rightarrow> Inl x
         | Inr fs' \<Rightarrow> Inr (Some (False, fs', ops)))
      else
        (case hs_process_load_cfg fs lpath rpath filename of
           Inl x \<Rightarrow> Inl x
         | Inr (code, fs1) \<Rightarrow>
             if code = 0 then
               (case cli_remove_output tlib cfg je filename ops of
                  Inl x \<Rightarrow> Inl x
                | Inr None \<Rightarrow> Inr None
                | Inr (Some (removed, ops1)) \<Rightarrow>
                    Inr (Some (False, fs1, if removed then forget_checkpoints filename ops1 else ops1)))
             else if code = 1 then cli_reload_output lib tlib cfg je filename fs1 ops
             else Inr (Some (False, fs1, ops))))"

section \<open>A plugin is refused exactly when it is not created\<close>

text \<open>The flag of an entry that loads: set exactly when the configuration was accepted and the list did
  not change.\<close>

lemma input_refused_iff:
  assumes "hs_load_sandbox_config (sl_lua lib) (ips_fs ips) dir e (cfg_ipd cfg) (CHR ''i'') = Inr (fs1, Some sbc)"
    and "load_input_plugin lib malloc_ok cfg dir e ips = Inr ips'"
  shows "input_refused lib cfg (ips_fs ips) dir e \<longleftrightarrow> ips_list_cnt ips' = ips_list_cnt ips"
  using assms
  by (auto simp: input_refused_def refused_def load_input_plugin_def create_input_plugin_def add_to_input_plugins_def
      set_ips_fs_def Let_def split: sum.splits option.splits prod.splits)

lemma output_refused_iff:
  assumes "hs_load_sandbox_config (sl_lua lib) fs dir e (cfg_opd cfg) (CHR ''o'') = Inr (fs1, Some sbc)"
    and "load_output_plugin lib fs cfg dir e dynamic ops = Inr (fs2, ops', loaded, rm_cp)"
  shows "output_refused lib cfg fs dir e \<longleftrightarrow> \<not> loaded"
  using assms
  by (auto simp: output_refused_def refused_def load_output_plugin_def create_output_plugin_def split: sum.splits option.splits)

end
