(* ===== verification/HS_Cli.thy ===== *)
theory HS_Cli
  imports HS_Cli_Load
begin

text \<open>
  The process of the command line variant (\<open>src/hindsight.c\<close> built as \<open>HINDSIGHT_CLI\<close>): its signal
  handler, which keeps running and ends the process at the second signal, the cascade that starts
  the shutdown when the last input plugin is gone, the shutdown stage by stage with a checkpoint
  round after each, and the exit status.
\<close>

section \<open>Signals\<close>

text \<open>The signals its handler waits for: the third one only after the first, to end it. All others stay
  blocked.\<close>

datatype cli_signal = Cli_int | Cli_term | Cli_hup

datatype handler = Handler_first | Handler_second | Handler_ended

fun cli_signal_step :: "cli_signal \<Rightarrow> handler \<times> int \<Rightarrow> hs_exit + (handler \<times> int)" where
  "cli_signal_step Cli_hup (Handler_first, sem) = Inr (Handler_first, sem)"
| "cli_signal_step s (Handler_first, sem) = Inr (Handler_second, sem + 1)"
| "cli_signal_step Cli_hup (Handler_second, sem) = Inr (Handler_ended, sem)"
| "cli_signal_step s (Handler_second, sem) = Inl Forced_stop"
| "cli_signal_step s (Handler_ended, sem) = Inr (Handler_ended, sem)"

definition cli_signals :: "cli_signal list \<Rightarrow> handler \<times> int \<Rightarrow> hs_exit + (handler \<times> int)" where
  "cli_signals = fold_exit cli_signal_step"

section \<open>The process\<close>

text \<open>The flags are \<open>terminated\<close> of the three plugin lists.\<close>

record 'm cli_process =
  cm_pr :: "'m hs_process"
  cm_handler :: handler
  cm_in_terminated :: bool
  cm_an_terminated :: bool
  cm_out_terminated :: bool

definition cli_deliver :: "cli_signal list \<Rightarrow> 'm cli_process \<Rightarrow> hs_exit + 'm cli_process" where
  "cli_deliver sigs p =
     (case cli_signals sigs (cm_handler p, pr_shutdown (cm_pr p)) of
        Inl e \<Rightarrow> Inl e
      | Inr (h, sem) \<Rightarrow> Inr (p\<lparr>cm_handler := h, cm_pr := (cm_pr p)\<lparr>pr_shutdown := sem\<rparr>\<rparr>))"

text \<open>What the three startups leave in the flags, along \<open>hs_startup\<close>.\<close>

definition cli_startup_flags :: "'m main_lib \<Rightarrow> hs_config \<Rightarrow> fsys \<Rightarrow> bool \<times> bool \<times> bool" where
  "cli_startup_flags lib cfg fs =
     (case start_checkpoints lib cfg fs of
        Inl _ \<Rightarrow> (False, False, False)
      | Inr cpr \<Rightarrow>
     (case hs_init_output fs (str_of (cfg_output_path cfg)) hs_input_dir of
        Inl _ \<Rightarrow> (False, False, False)
      | Inr (fs1, ob) \<Rightarrow>
          let ips0 = hs_init_input_plugins cpr (fs1, ob, \<lparr>bp_last_check = 0, bp_on = False\<rparr>);
              in_failed = input_startup_failed (ml_sandbox lib) (ml_malloc_ok lib) cfg ips0
          in
     (case start_inputs lib cfg fs cpr of
        Inl _ \<Rightarrow> (in_failed, False, False)
      | Inr ips \<Rightarrow>
     (case hs_init_analysis_plugins (sl_init_ib (ml_sandbox lib)) cfg (ips_cpr ips) (ips_fs ips) of
        Inl _ \<Rightarrow> (in_failed, False, False)
      | Inr (fs2, aps0) \<Rightarrow>
          let an_failed = analysis_startup_failed (ml_sandbox lib) (ml_toint lib) cfg fs2 aps0 in
     (case start_analysis lib cfg (ips_fs ips) (ips_cpr ips) of
        Inl _ \<Rightarrow> (in_failed, an_failed, False)
      | Inr (fs3, aps) \<Rightarrow>
          (in_failed, an_failed,
           output_startup_failed (ml_sandbox lib) cfg fs3 (hs_init_output_plugins (aps_cpr aps) :: 'm hs_output_plugins)))))))"

definition cli_startup :: "'m main_lib \<Rightarrow> hs_config \<Rightarrow> fsys \<Rightarrow> hs_exit + (hs_checkpoint_writer \<times> 'm cli_process)" where
  "cli_startup lib cfg fs =
     (case hs_startup (cli_lib lib) cfg fs of
        Inl e \<Rightarrow> Inl e
      | Inr (cpw, pr) \<Rightarrow>
          (case cli_startup_flags (cli_lib lib) cfg fs of
             (i, a, out) \<Rightarrow>
               Inr (cpw, \<lparr>cm_pr = pr, cm_handler = Handler_first, cm_in_terminated = i, cm_an_terminated = a,
                          cm_out_terminated = out\<rparr>)))"

section \<open>The loop\<close>

record cli_load_event =
  ce_watch :: watch
  ce_name :: string
  ce_input_join :: ip_join_env
  ce_input_ended :: bool
  ce_output_join :: cli_op_join

definition cli_load_event ::
    "'m main_lib \<Rightarrow> hs_config \<Rightarrow> cli_load_event \<Rightarrow> 'm cli_process \<Rightarrow> hs_exit + 'm cli_process option" where
  "cli_load_event lib cfg ev p =
     (let pr = cm_pr p; sb = ml_sandbox lib in
      case ce_watch ev of
        Watch_analysis \<Rightarrow>
          (case hs_load_analysis_dynamic sb (ml_toint lib) cfg (ce_name ev) (w_fs (pr_world pr)) (process_analysis pr) of
             Inl e \<Rightarrow> Inl e
           | Inr (fs, aps) \<Rightarrow>
               Inr (Some (p\<lparr>cm_pr := set_analysis fs (pr_analysis_bp pr) aps pr,
                            cm_an_terminated := cm_an_terminated p \<or>
                              analysis_load_failed sb (ml_toint lib) cfg (ce_name ev) (w_fs (pr_world pr)) (process_analysis pr)\<rparr>)))
      | Watch_input \<Rightarrow>
          (case hs_load_input_dynamic sb (ml_varint lib) (ml_malloc_ok lib) cfg (ce_input_join ev) (ce_name ev)
                  (process_inputs pr) of
             Inl e \<Rightarrow> Inl e
           | Inr ips \<Rightarrow>
               Inr (Some (p\<lparr>cm_pr := set_inputs ips pr,
                            cm_in_terminated := cm_in_terminated p \<or>
                              input_load_failed sb (ml_varint lib) cfg (ce_input_join ev) (ce_input_ended ev) (ce_name ev)
                                (process_inputs pr)\<rparr>)))
      | Watch_output \<Rightarrow>
          (case cli_load_output sb (ml_thread lib) cfg (ce_output_join ev) (ce_name ev)
                  (w_fs (pr_world pr)) (process_outputs pr) of
             Inl e \<Rightarrow> Inl e
           | Inr None \<Rightarrow> Inr None
           | Inr (Some (failed, fs, ops)) \<Rightarrow>
               Inr (Some (p\<lparr>cm_pr := set_outputs fs ops pr, cm_out_terminated := cm_out_terminated p \<or> failed\<rparr>))))"

fun cli_load_events ::
    "'m main_lib \<Rightarrow> hs_config \<Rightarrow> cli_load_event list \<Rightarrow> 'm cli_process \<Rightarrow> hs_exit + 'm cli_process option" where
  "cli_load_events lib cfg [] p = Inr (Some p)"
| "cli_load_events lib cfg (ev # evs) p =
     (case cli_load_event lib cfg ev p of
        Inl e \<Rightarrow> Inl e
      | Inr None \<Rightarrow> Inr None
      | Inr (Some p') \<Rightarrow> cli_load_events lib cfg evs p')"

text \<open>
  A turn: what the threads do while the main thread waits and the signals that arrive then; the round
  and the loads, and the signals that arrive during them.
\<close>

record 'm cli_main_env =
  ca_threads :: "'m cli_process \<Rightarrow> 'm cli_process"
  ca_signals :: "cli_signal list"
  ca_cpw :: cpw_env
  ca_events :: "cli_load_event list"
  ca_read_failed :: bool
  ca_late :: "cli_signal list"

definition cli_wait :: "'m cli_main_env \<Rightarrow> 'm cli_process \<Rightarrow> hs_exit + 'm cli_process" where
  "cli_wait env p = cli_deliver (ca_signals env) (ca_threads env p)"

text \<open>From the round to the end of the loads.\<close>

definition cli_work ::
    "'m main_lib \<Rightarrow> hs_config \<Rightarrow> hs_checkpoint_writer \<Rightarrow> 'm cli_main_env \<Rightarrow> 'm cli_process \<Rightarrow> hs_exit + 'm cli_process option" where
  "cli_work lib cfg cpw env p =
     (case hs_write_checkpoints cpw (ca_cpw env) (pr_world (cm_pr p)) of
        Inl e \<Rightarrow> Inl e
      | Inr w \<Rightarrow>
          let p1 = p\<lparr>cm_pr := (cm_pr p)\<lparr>pr_world := w\<rparr>\<rparr> in
          if str_of (cfg_load_path cfg) = [] then Inr (Some p1)
          else (case cli_load_events lib cfg (ca_events env) p1 of
                  Inl e \<Rightarrow> Inl e
                | Inr None \<Rightarrow> Inr None
                | Inr (Some p2) \<Rightarrow> Inr (Some (if ca_read_failed env then p2\<lparr>cm_pr := post_semaphore (cm_pr p2)\<rparr> else p2))))"

text \<open>The flag is set when the turn leaves the loop. Without input plugins the main thread sends itself
  the stop signal.\<close>

definition cli_main_turn ::
    "'m main_lib \<Rightarrow> hs_config \<Rightarrow> hs_checkpoint_writer \<Rightarrow> 'm cli_main_env \<Rightarrow> 'm cli_process \<Rightarrow>
     hs_exit + (bool \<times> 'm cli_process) option" where
  "cli_main_turn lib cfg cpw env p =
     (if pr_shutdown (cm_pr p) > 0 then Inr (Some (True, p))
      else (case cli_work lib cfg cpw env p of
              Inl e \<Rightarrow> Inl e
            | Inr None \<Rightarrow> Inr None
            | Inr (Some p1) \<Rightarrow>
                (case cli_deliver (ca_late env @ (if pr_input_cnt (cm_pr p1) = 0 then [Cli_int] else [])) p1 of
                   Inl e \<Rightarrow> Inl e
                 | Inr p2 \<Rightarrow> Inr (Some (False, p2)))))"

fun cli_main_loop ::
    "'m main_lib \<Rightarrow> hs_config \<Rightarrow> hs_checkpoint_writer \<Rightarrow> 'm cli_main_env list \<Rightarrow> 'm cli_process \<Rightarrow>
     hs_exit + 'm cli_process option" where
  "cli_main_loop lib cfg cpw [] p = Inr None"
| "cli_main_loop lib cfg cpw (e # es) p =
     (case cli_wait e p of
        Inl x \<Rightarrow> Inl x
      | Inr p1 \<Rightarrow>
          (case cli_main_turn lib cfg cpw e p1 of
             Inl x \<Rightarrow> Inl x
           | Inr None \<Rightarrow> Inr None
           | Inr (Some (True, p2)) \<Rightarrow> Inr (Some p2)
           | Inr (Some (False, p2)) \<Rightarrow> cli_main_loop lib cfg cpw es p2))"

section \<open>The shutdown\<close>

text \<open>
  What meets the three stages: the joins, what the threads that still run do meanwhile, the signals
  that arrive while the main thread waits, and the round. \<open>cs_ended\<close> is the state of an input plugin's
  sandbox after its join: terminated or unknown.
\<close>

record 'm cli_shutdown_env =
  cs_inputs :: "nat \<Rightarrow> ip_join_env"
  cs_ended :: "nat \<Rightarrow> bool"
  cs_during1 :: "'m hs_process \<Rightarrow> 'm hs_process"
  cs_signals1 :: "cli_signal list"
  cs_cpw1 :: cpw_env
  cs_analysis :: "cli_at_join list"
  cs_during2 :: "'m hs_process \<Rightarrow> 'm hs_process"
  cs_signals2 :: "cli_signal list"
  cs_cpw2 :: cpw_env
  cs_outputs :: "cli_op_join list"
  cs_injects :: "(im_env \<times> string) list"
  cs_signals3 :: "cli_signal list"
  cs_cpw3 :: cpw_env

text \<open>Some joined sandbox has ended; along \<open>wait_slots\<close>.\<close>

fun inputs_ended ::
    "(nat \<Rightarrow> string) \<Rightarrow> hs_config \<Rightarrow> (nat \<Rightarrow> ip_join_env) \<Rightarrow> (nat \<Rightarrow> bool) \<Rightarrow> nat \<Rightarrow> hs_input_plugin option list \<Rightarrow>
     queue \<Rightarrow> hs_checkpoint_reader \<Rightarrow> bool" where
  "inputs_ended varint cfg jes ended i [] q cpr = False"
| "inputs_ended varint cfg jes ended i (None # xs) q cpr = inputs_ended varint cfg jes ended (Suc i) xs q cpr"
| "inputs_ended varint cfg jes ended i (Some p # xs) q cpr =
     (case signal_and_join varint cfg (jes i) (before_signal p) q cpr of
        Inl _ \<Rightarrow> False
      | Inr (joined, _, q', cpr') \<Rightarrow> joined \<and> ended i \<or> inputs_ended varint cfg jes ended (Suc i) xs q' cpr')"

text \<open>A stage ends with the signals that arrived and a round.\<close>

definition cli_stage ::
    "hs_checkpoint_writer \<Rightarrow> cli_signal list \<Rightarrow> cpw_env \<Rightarrow> 'm cli_process \<Rightarrow> hs_exit + 'm cli_process" where
  "cli_stage cpw sigs env p =
     (case cli_deliver sigs p of
        Inl e \<Rightarrow> Inl e
      | Inr p1 \<Rightarrow>
          (case hs_write_checkpoints cpw env (pr_world (cm_pr p1)) of
             Inl e \<Rightarrow> Inl e
           | Inr w \<Rightarrow> Inr (p1\<lparr>cm_pr := (cm_pr p1)\<lparr>pr_world := w\<rparr>\<rparr>)))"

definition stop_inputs :: "'m hs_process \<Rightarrow> 'm hs_process" where
  "stop_inputs pr =
     pr\<lparr>pr_world := (pr_world pr)\<lparr>w_inputs := ips_list (hs_stop_input_plugins (process_inputs pr))\<rparr>\<rparr>"

definition stop_analysis :: "'m hs_process \<Rightarrow> 'm hs_process" where
  "stop_analysis pr =
     pr\<lparr>pr_world := (pr_world pr)\<lparr>w_threads := aps_list (hs_stop_analysis_plugins (process_analysis pr))\<rparr>\<rparr>"

definition stop_outputs :: "'m hs_process \<Rightarrow> 'm hs_process" where
  "stop_outputs pr =
     pr\<lparr>pr_world := (pr_world pr)\<lparr>w_outputs := ops_list (hs_stop_output_plugins (process_outputs pr))\<rparr>\<rparr>"

definition cli_end_inputs ::
    "'m main_lib \<Rightarrow> hs_config \<Rightarrow> hs_checkpoint_writer \<Rightarrow> 'm cli_shutdown_env \<Rightarrow> 'm cli_process \<Rightarrow>
     hs_exit + (hs_input_plugin list \<times> 'm cli_process)" where
  "cli_end_inputs lib cfg cpw env p =
     (let pr = stop_inputs (cm_pr p); ips0 = process_inputs pr in
      case hs_wait_input_plugins (ml_varint lib) cfg (cs_inputs env) ips0 of
        Inl e \<Rightarrow> Inl e
      | Inr (leaked, ips) \<Rightarrow>
          let ended = inputs_ended (ml_varint lib) cfg (cs_inputs env) (cs_ended env) 0 (ips_list ips0) (ips_output ips0) (ips_cpr ips0) in
          (case cli_stage cpw (cs_signals1 env) (cs_cpw1 env)
                  (p\<lparr>cm_pr := cs_during1 env (set_inputs ips pr), cm_in_terminated := cm_in_terminated p \<or> ended\<rparr>) of
             Inl e \<Rightarrow> Inl e
           | Inr p' \<Rightarrow> Inr (leaked, p')))"

text \<open>A terminated analysis plugin may have sent the process a stop signal of its own.\<close>

definition cli_end_analysis ::
    "'m main_lib \<Rightarrow> hs_config \<Rightarrow> hs_checkpoint_writer \<Rightarrow> 'm cli_shutdown_env \<Rightarrow> 'm cli_process \<Rightarrow>
     hs_exit + 'm cli_process option" where
  "cli_end_analysis lib cfg cpw env p =
     (let pr = stop_analysis (cm_pr p) in
      case cli_wait_analysis (ml_at lib) (tl_ts (ml_thread lib)) cfg (cs_analysis env) (w_fs (pr_world pr)) (pr_analysis_bp pr)
             (cm_an_terminated p) (process_analysis pr) of
        Inl e \<Rightarrow> Inl e
      | Inr None \<Rightarrow> Inr None
      | Inr (Some (aps, fs, bp, sigterm, t)) \<Rightarrow>
          (case cli_stage cpw ((if sigterm then [Cli_term] else []) @ cs_signals2 env) (cs_cpw2 env)
                  (p\<lparr>cm_pr := cs_during2 env (set_analysis fs bp aps pr), cm_an_terminated := t\<rparr>) of
             Inl e \<Rightarrow> Inl e
           | Inr p' \<Rightarrow> Inr (Some p')))"

definition cli_end_outputs ::
    "'m main_lib \<Rightarrow> hs_config \<Rightarrow> hs_checkpoint_writer \<Rightarrow> 'm cli_shutdown_env \<Rightarrow> 'm cli_process \<Rightarrow>
     hs_exit + 'm cli_process option" where
  "cli_end_outputs lib cfg cpw env p =
     (let pr = stop_outputs (cm_pr p) in
      case cli_wait_outputs (ml_thread lib) cfg (cs_outputs env) (cm_out_terminated p) (process_outputs pr) of
        Inl e \<Rightarrow> Inl e
      | Inr None \<Rightarrow> Inr None
      | Inr (Some (ops, t)) \<Rightarrow>
          (case op_injects (ml_varint lib) cfg (cs_injects env) (w_fs (pr_world pr), w_input_ob (pr_world pr), pr_output_bp pr) of
             Inl e \<Rightarrow> Inl e
           | Inr q \<Rightarrow>
               (case cli_stage cpw (cs_signals3 env) (cs_cpw3 env)
                       (p\<lparr>cm_pr := set_output_queue q (set_outputs (w_fs (pr_world pr)) ops pr), cm_out_terminated := t\<rparr>) of
                  Inl e \<Rightarrow> Inl e
                | Inr p' \<Rightarrow> Inr (Some p'))))"

definition cli_status :: "'m cli_process \<Rightarrow> int" where
  "cli_status p =
     (if cm_in_terminated p then 2 else 0) + (if cm_an_terminated p then 4 else 0) + (if cm_out_terminated p then 8 else 0)"

text \<open>
  The stages, the last signal to the handler, and its join: a handler that never got the first signal
  does not take the last one, and the join does not return.
\<close>

definition cli_shutdown ::
    "'m main_lib \<Rightarrow> hs_config \<Rightarrow> hs_checkpoint_writer \<Rightarrow> 'm cli_shutdown_env \<Rightarrow> 'm cli_process \<Rightarrow>
     hs_exit + (hs_input_plugin list \<times> int \<times> 'm hs_process) option" where
  "cli_shutdown lib cfg cpw env p =
     (case cli_end_inputs lib cfg cpw env p of
        Inl e \<Rightarrow> Inl e
      | Inr (leaked, p1) \<Rightarrow>
     (case cli_end_analysis lib cfg cpw env p1 of
        Inl e \<Rightarrow> Inl e
      | Inr None \<Rightarrow> Inr None
      | Inr (Some p2) \<Rightarrow>
     (case cli_end_outputs lib cfg cpw env p2 of
        Inl e \<Rightarrow> Inl e
      | Inr None \<Rightarrow> Inr None
      | Inr (Some p3) \<Rightarrow>
     (case cli_deliver [Cli_hup] p3 of
        Inl e \<Rightarrow> Inl e
      | Inr p4 \<Rightarrow>
          if cm_handler p4 = Handler_ended then Inr (Some (leaked, cli_status p4, free_all (cm_pr p4))) else Inr None))))"

text \<open>\<open>main\<close>: the exit status and the files; 1 for what fails before anything has started.\<close>

definition cli_main ::
    "'m main_lib \<Rightarrow> string \<Rightarrow> int \<Rightarrow> string list \<Rightarrow> string \<Rightarrow> fsys \<Rightarrow> 'm cli_main_env list \<Rightarrow> 'm cli_shutdown_env \<Rightarrow>
     hs_exit + (int \<times> fsys) option" where
  "cli_main lib hostname pid args chunk fs envs env =
     (if arg_loglevel args = None then Inr (Some (1, fs))
      else (case hs_load_config (sl_lua (ml_sandbox lib)) hostname pid chunk of
              Inl e \<Rightarrow> Inl e
            | Inr (failed, cfg) \<Rightarrow>
                if failed \<or> \<not> watches_ok cfg fs then Inr (Some (1, fs))
                else (case cli_startup lib cfg fs of
                        Inl e \<Rightarrow> Inl e
                      | Inr (cpw, p) \<Rightarrow>
                          (case cli_main_loop (cli_lib lib) cfg cpw envs p of
                             Inl e \<Rightarrow> Inl e
                           | Inr None \<Rightarrow> Inr None
                           | Inr (Some p1) \<Rightarrow>
                               (case cli_shutdown (cli_lib lib) cfg cpw env p1 of
                                  Inl e \<Rightarrow> Inl e
                                | Inr None \<Rightarrow> Inr None
                                | Inr (Some (leaked, status, pr)) \<Rightarrow> Inr (Some (status, w_fs (pr_world pr))))))))"

section \<open>Signals in the loop\<close>

lemma set_shutdown [simp]:
  "pr_shutdown (set_inputs ips pr) = pr_shutdown pr" "pr_shutdown (set_analysis fs bp aps pr) = pr_shutdown pr"
  "pr_shutdown (set_outputs fs ops pr) = pr_shutdown pr"
  by (simp_all add: set_inputs_def set_analysis_def set_outputs_def split: prod.split)

lemma cli_load_event_keeps:
  "cli_load_event lib cfg ev p = Inr (Some p') \<Longrightarrow> cm_handler p' = cm_handler p \<and> pr_shutdown (cm_pr p') = pr_shutdown (cm_pr p)"
  by (auto simp: cli_load_event_def Let_def split: watch.splits sum.splits option.splits prod.splits)

lemma cli_load_events_keeps:
  "cli_load_events lib cfg evs p = Inr (Some p') \<Longrightarrow> cm_handler p' = cm_handler p \<and> pr_shutdown (cm_pr p') = pr_shutdown (cm_pr p)"
  by (induction lib cfg evs p rule: cli_load_events.induct)
    (auto split: sum.splits option.splits dest: cli_load_event_keeps)

lemma cli_work_keeps:
  "cli_work lib cfg cpw env p = Inr (Some p') \<Longrightarrow>
   cm_handler p' = cm_handler p \<and> pr_shutdown (cm_pr p) \<le> pr_shutdown (cm_pr p')"
  by (auto simp: cli_work_def post_semaphore_def Let_def split: sum.splits option.splits if_splits
      dest: cli_load_events_keeps)

lemma cli_deliver_Nil [simp]: "cli_deliver [] p = Inr p"
  by (simp add: cli_deliver_def cli_signals_def)

lemma cli_deliver_first:
  "cm_handler p = Handler_first \<Longrightarrow>
   cli_deliver [Cli_int] p = Inr (p\<lparr>cm_handler := Handler_second, cm_pr := (cm_pr p)\<lparr>pr_shutdown := pr_shutdown (cm_pr p) + 1\<rparr>\<rparr>)"
  by (simp add: cli_deliver_def cli_signals_def)

lemma cli_deliver_second:
  "cm_handler p = Handler_first \<Longrightarrow> s \<noteq> Cli_hup \<Longrightarrow> s' \<noteq> Cli_hup \<Longrightarrow> cli_deliver (s # s' # sigs) p = Inl Forced_stop"
  by (cases s; cases s') (simp_all add: cli_deliver_def cli_signals_def)

lemma cli_deliver_again:
  "cm_handler p = Handler_second \<Longrightarrow> s \<noteq> Cli_hup \<Longrightarrow> cli_deliver (s # sigs) p = Inl Forced_stop"
  by (cases s) (simp_all add: cli_deliver_def cli_signals_def)

section \<open>Properties\<close>

text \<open>C20: when its last input plugin has ended, the process stops by itself: the turn that finds no input
  plugin posts the semaphore, and the next wake-up leaves the loop for the shutdown.\<close>

theorem cli_cascade_stops:
  assumes "cli_wait e1 p = Inr p1" and "cm_handler p1 = Handler_first" and "pr_shutdown (cm_pr p1) = 0"
    and "cli_work lib cfg cpw e1 p1 = Inr (Some p2)" and "pr_input_cnt (cm_pr p2) = 0" and "ca_late e1 = []"
    and "\<forall>q. pr_shutdown (cm_pr (ca_threads e2 q)) = pr_shutdown (cm_pr q)" and "ca_signals e2 = []"
  shows "cli_main_loop lib cfg cpw (e1 # e2 # es) p =
    Inr (Some (ca_threads e2 (p2\<lparr>cm_handler := Handler_second,
                                 cm_pr := (cm_pr p2)\<lparr>pr_shutdown := pr_shutdown (cm_pr p2) + 1\<rparr>\<rparr>)))"
proof -
  note k = cli_work_keeps [OF assms(4)]
  have h: "cm_handler p2 = Handler_first" "0 \<le> pr_shutdown (cm_pr p2)" using k assms(2,3) by simp_all
  let ?p3 = "p2\<lparr>cm_handler := Handler_second, cm_pr := (cm_pr p2)\<lparr>pr_shutdown := pr_shutdown (cm_pr p2) + 1\<rparr>\<rparr>"
  have "cli_main_turn lib cfg cpw e1 p1 = Inr (Some (False, ?p3))"
    using assms(3-6) cli_deliver_first [OF h(1)] by (simp add: cli_main_turn_def)
  moreover have "cli_wait e2 ?p3 = Inr (ca_threads e2 ?p3)" by (simp add: cli_wait_def assms(8))
  moreover have "cli_main_turn lib cfg cpw e2 (ca_threads e2 ?p3) = Inr (Some (True, ca_threads e2 ?p3))"
    using assms(7) h(2) by (simp add: cli_main_turn_def)
  ultimately show ?thesis using assms(1) by simp
qed

text \<open>
  A sample process whose only input plugin is gone; its analysis plugin asks for a shutdown when it is
  terminated, which its last timer event does.
\<close>

definition cli_sample_plugin :: hs_analysis_plugin where
  "cli_sample_plugin = (sample_analysis ''analysis.a'')\<lparr>ap_shutdown_terminate := True\<rparr>"

definition cli_sample_world :: "string cp_world" where
  "cli_sample_world =
     sample_world\<lparr>w_inputs := [None], w_outputs := [None],
       w_threads := map (\<lambda>th. th\<lparr>at_list := [Some cli_sample_plugin],
           at_input := waiting_reader\<lparr>hsi_name := ''analysis0''\<rparr>\<rparr>) (w_threads sample_world)\<rparr>"

definition cli_sample_process :: "string cli_process" where
  "cli_sample_process =
     \<lparr>cm_pr = sample_process\<lparr>pr_world := cli_sample_world, pr_input_cnt := 0, pr_output_cnt := 0, pr_shutdown := 0\<rparr>,
      cm_handler = Handler_first, cm_in_terminated = False, cm_an_terminated = False, cm_out_terminated = False\<rparr>"

definition cli_sample_turn :: "string cli_main_env" where
  "cli_sample_turn =
     \<lparr>ca_threads = \<lambda>p. p, ca_signals = [], ca_cpw = sample_cpw_env, ca_events = [], ca_read_failed = False, ca_late = []\<rparr>"

theorem cli_cascade_stops_witness:
  "\<exists>p. cli_main_loop sample_main_lib (init_config 1) sample_cpw [cli_sample_turn, cli_sample_turn] cli_sample_process = Inr (Some p) \<and>
     cm_handler p = Handler_second"
proof -
  let ?w = "cli_work sample_main_lib (init_config 1) sample_cpw cli_sample_turn cli_sample_process"
  have "case ?w of Inr (Some p) \<Rightarrow> pr_input_cnt (cm_pr p) = 0 | _ \<Rightarrow> False" by code_simp
  then obtain p2 where w: "?w = Inr (Some p2)" "pr_input_cnt (cm_pr p2) = 0" by (auto split: sum.splits option.splits)
  have h: "cli_wait cli_sample_turn cli_sample_process = Inr cli_sample_process" "cm_handler cli_sample_process = Handler_first"
    "pr_shutdown (cm_pr cli_sample_process) = 0" "ca_late cli_sample_turn = []" "ca_signals cli_sample_turn = []"
    "\<forall>q. pr_shutdown (cm_pr (ca_threads cli_sample_turn q)) = pr_shutdown (cm_pr q)" "\<forall>q. ca_threads cli_sample_turn q = q"
    by (simp_all add: cli_wait_def cli_sample_turn_def cli_sample_process_def)
  from cli_cascade_stops [OF h(1-3) w h(4,6,5)] show ?thesis by (simp add: h(7))
qed

text \<open>One stop signal is enough to abort the process, without a drain and without a last round, when it
  arrives during a turn that finds no input plugin: the main thread sends the second one itself. The
  signal may be the one an input plugin sends as it terminates.\<close>

theorem cli_cascade_aborts:
  assumes "cli_wait e p = Inr p1" and "cm_handler p1 = Handler_first" and "pr_shutdown (cm_pr p1) = 0"
    and "cli_work lib cfg cpw e p1 = Inr (Some p2)" and "pr_input_cnt (cm_pr p2) = 0"
    and "ca_late e = [s]" and "s \<noteq> Cli_hup"
  shows "cli_main_loop lib cfg cpw (e # es) p = Inl Forced_stop"
proof -
  have "cm_handler p2 = Handler_first" using cli_work_keeps [OF assms(4)] assms(2) by simp
  then have "cli_deliver [s, Cli_int] p2 = Inl Forced_stop" using assms(7) by (intro cli_deliver_second) auto
  then show ?thesis using assms by (simp add: cli_main_turn_def)
qed

theorem cli_cascade_aborts_witness:
  "cli_main_loop sample_main_lib (init_config 1) sample_cpw [cli_sample_turn\<lparr>ca_late := [Cli_term]\<rparr>] cli_sample_process =
     Inl Forced_stop"
proof -
  let ?e = "cli_sample_turn\<lparr>ca_late := [Cli_term]\<rparr>"
  let ?w = "cli_work sample_main_lib (init_config 1) sample_cpw ?e cli_sample_process"
  have "case ?w of Inr (Some p) \<Rightarrow> pr_input_cnt (cm_pr p) = 0 | _ \<Rightarrow> False" by code_simp
  then obtain p2 where w: "?w = Inr (Some p2)" "pr_input_cnt (cm_pr p2) = 0" by (auto split: sum.splits option.splits)
  have h: "cli_wait ?e cli_sample_process = Inr cli_sample_process" "cm_handler cli_sample_process = Handler_first"
    "pr_shutdown (cm_pr cli_sample_process) = 0" "ca_late ?e = [Cli_term]" "Cli_term \<noteq> Cli_hup"
    by (simp_all add: cli_wait_def cli_sample_turn_def cli_sample_process_def)
  show ?thesis by (rule cli_cascade_aborts [OF h(1-3) w h(4,5)])
qed

text \<open>C31: an analysis plugin that is terminated while the queues are drained, and is configured to shut the
  process down then, aborts the process: its signal is the second one. The outputs are not drained,
  no further round is written, and the exit status is not that of a terminated analysis plugin.\<close>

theorem cli_drain_aborted:
  assumes "cli_end_inputs lib cfg cpw env p = Inr (leaked, p1)" and "cm_handler p1 = Handler_second"
    and "cli_wait_analysis (ml_at lib) (tl_ts (ml_thread lib)) cfg (cs_analysis env)
           (w_fs (pr_world (stop_analysis (cm_pr p1)))) (pr_analysis_bp (stop_analysis (cm_pr p1))) (cm_an_terminated p1)
           (process_analysis (stop_analysis (cm_pr p1))) = Inr (Some (aps, fs, bp, True, t))"
  shows "cli_shutdown lib cfg cpw env p = Inl Forced_stop"
proof -
  have "cli_end_analysis lib cfg cpw env p1 = Inl Forced_stop"
    using assms(2,3) by (simp add: cli_end_analysis_def Let_def cli_stage_def cli_deliver_again)
  then show ?thesis using assms(1) by (simp add: cli_shutdown_def)
qed

definition cli_sample_shutdown :: "string cli_shutdown_env" where
  "cli_sample_shutdown =
     \<lparr>cs_inputs = \<lambda>_. prompt_join, cs_ended = \<lambda>_. False, cs_during1 = \<lambda>pr. pr, cs_signals1 = [], cs_cpw1 = sample_cpw_env,
      cs_analysis = [\<lparr>cj_local = cli_init_local, cj_turns = replicate 2 sample_at_env,
                      cj_fin = \<lambda>_. sample_an_env\<lparr>an_te_injects := [], an_te_ret := 1\<rparr>\<rparr>],
      cs_during2 = \<lambda>pr. pr, cs_signals2 = [], cs_cpw2 = sample_cpw_env,
      cs_outputs = [], cs_injects = [], cs_signals3 = [], cs_cpw3 = sample_cpw_env\<rparr>"

theorem cli_drain_aborted_witness:
  "cli_shutdown sample_main_lib (init_config 1) sample_cpw cli_sample_shutdown (cli_sample_process\<lparr>cm_handler := Handler_second\<rparr>) =
     Inl Forced_stop"
proof -
  let ?p = "cli_sample_process\<lparr>cm_handler := Handler_second\<rparr>"
  let ?i = "cli_end_inputs sample_main_lib (init_config 1) sample_cpw cli_sample_shutdown ?p"
  let ?wait = "\<lambda>p1. cli_wait_analysis (ml_at sample_main_lib) (tl_ts (ml_thread sample_main_lib)) (init_config 1)
      (cs_analysis cli_sample_shutdown) (w_fs (pr_world (stop_analysis (cm_pr p1)))) (pr_analysis_bp (stop_analysis (cm_pr p1)))
      (cm_an_terminated p1) (process_analysis (stop_analysis (cm_pr p1)))"
  have "case ?i of Inl _ \<Rightarrow> False | Inr (_, p1) \<Rightarrow> cm_handler p1 = Handler_second \<and>
      (case ?wait p1 of Inr (Some (_, _, _, True, _)) \<Rightarrow> True | _ \<Rightarrow> False)" by code_simp
  then obtain leaked p1 where i: "?i = Inr (leaked, p1)" "cm_handler p1 = Handler_second"
    and "case ?wait p1 of Inr (Some (_, _, _, True, _)) \<Rightarrow> True | _ \<Rightarrow> False"
    by (elim case_InrE) auto
  then obtain aps fs bp t where "?wait p1 = Inr (Some (aps, fs, bp, True, t))"
    by (auto split: sum.splits option.splits prod.splits bool.splits)
  from cli_drain_aborted [OF i this] show ?thesis .
qed

end
