(* ===== verification/Spec2Isabelle.thy ===== *)
theory Spec2Isabelle
  imports HS_Startup HS_Cli
begin

text \<open>
  A verification development of Hindsight, a daemon that moves messages from input plugins
  through analysis plugins to output plugins. Source paths are relative to the repository.

  \<^bold>\<open>The program.\<close> Input plugins inject messages into one queue on disk, \<open>output_path/input\<close>.
  A fixed number of analysis threads read it and give each message to the plugins on them, which
  inject results into a second queue, \<open>output_path/analysis\<close>. Output plugins, a thread each, read one
  queue or both, deliver, acknowledge, and may inject into the input queue themselves. A queue is a
  directory of numbered files; a writer rolls to the next one at \<open>output_size\<close>, a reader follows.
  Each reader has a position (file id and offset) and each input plugin a checkpoint of its own
  making. Once a second the main thread saves them all in \<open>hindsight.cp\<close>, after flushing the queues,
  and tells the two writers how far their slowest readers are, by which the writers throttle
  themselves. Configurations that appear in the load directories start, replace and stop plugins.

  \<^bold>\<open>The theories\<close>, in the order they build on each other:

  \<^item> \<open>HS_Prelude\<close>: word types and constants of the C code, C strings, decimal numbers, folds that may
    end the process (\<open>fold_exit\<close>) and the ways it can end (\<open>hs_exit\<close>). \<open>HS_Store\<close>: the contract of a
    key-value table (locale \<open>kv_store\<close>). \<open>HS_Slots\<close>: plugin lists with free slots.
  \<^item> \<open>HS_Filesystem\<close>: the POSIX and stdio calls on an explicit file system.
  \<^item> \<open>HS_Config_Types\<close>, \<open>HS_Config\<close>, \<open>HS_Load_Cfg\<close> (\<open>src/hs_config.h\<close>, \<open>src/hs_config.c\<close>): the configuration
    records and defaults, the parsers over a Lua stack (\<open>hs_load_config\<close>, \<open>hs_load_sandbox_config\<close>),
    the moves of files between load and run directory (\<open>hs_process_load_cfg\<close>), the run-time
    configuration text. \<open>HS_Lua\<close>: the values read from Lua states.
  \<^item> \<open>HS_Util\<close> (\<open>src/hs_util.c\<close>) and \<open>HS_Logger\<close> (\<open>src/hs_logger.c\<close>): paths, escaping, error files, the filter
    of the log.
  \<^item> \<open>HS_Checkpoint_Reader\<close> (\<open>src/hs_checkpoint_reader.c\<close>): the table of checkpoints, its lookups, its text,
    the cleanup at startup, the searches for queue files.
  \<^item> \<open>HS_Output\<close> (\<open>src/hs_output.c\<close>) and \<open>HS_Inject\<close> (what the three \<open>inject_message\<close> share): writing a queue.
    \<open>HS_Input\<close> (\<open>src/hs_input.c\<close>): reading one.
  \<^item> \<open>HS_Sandbox\<close> (what the three \<open>create_*_plugin\<close> share), \<open>HS_Input_Thread\<close> and \<open>HS_Input_Plugins\<close>
    (\<open>src/hs_input_plugins.c\<close>), \<open>HS_Delivery\<close>, \<open>HS_Output_Thread\<close>, \<open>HS_Output_Plugins\<close> and \<open>HS_Output_Inject\<close>
    (\<open>src/hs_output_plugins.c\<close>), \<open>HS_Analysis_Thread\<close>, \<open>HS_Analysis_Plugins\<close> and \<open>HS_Analysis_Shutdown\<close>
    (\<open>src/hs_analysis_plugins.c\<close>): for each kind its record, its thread turn by turn, its list with
    loading, stopping and joining.
  \<^item> \<open>HS_Checkpoint_Writer\<close>, \<open>HS_Checkpoint_Round\<close>, \<open>HS_Restart\<close> (\<open>src/hs_checkpoint_writer.c\<close>): a round, what
    it establishes, and starting again from its file.
  \<^item> \<open>HS_Main\<close> (\<open>src/hindsight.c\<close>): start, loop, signals, shutdown. \<open>HS_Crash\<close>: the running process as a
    transition system. \<open>HS_Startup\<close>: what the start establishes for it.
  \<^item> The variant built as \<open>HINDSIGHT_CLI\<close>, in its own theories over the daemon's: \<open>HS_Cli_Reader\<close> (what its threads
    do at the end of a queue), \<open>HS_Cli_Analysis\<close> and \<open>HS_Cli_Output\<close> (the threads that drain before they stop
    and their joins), \<open>HS_Cli_Load\<close> (the plugins it reports as terminated), \<open>HS_Cli\<close> (signals, cascade, the shutdown in
    stages, the exit status).

  \<^bold>\<open>State and operations.\<close> A C structure is a record with its fields in the code's order and prefixed
  names (\<open>hs_output_plugin\<close> has \<open>op_cur\<close> for \<open>cur\<close>); a pointer into a list is an index, a pointer
  that may be null an option. A function of the code is a definition of the same name, where the name is
  static in several files with the prefix of its component (\<open>op_turn\<close>, \<open>at_turn\<close> and \<open>ip_turn\<close> are one turn
  of the three \<open>input_thread\<close>). Integers keep their width (\<open>8 word\<close>, \<open>32 word\<close>, \<open>64 word\<close>), also where they
  wrap; \<open>int\<close> is \<open>int\<close> with the range written out where a result leaves it. A result of type
  \<open>hs_exit + 'a\<close> is an \<open>exit\<close> or undefined behaviour on the left; \<open>option\<close> on the right of it is
  \<open>None\<close> while a loop or a join has not ended. Code that is not in the repository is a parameter:
  the Lua state a chunk leaves (\<open>lua_env\<close>), the sandbox library (\<open>sandbox_lib\<close>, and the injections,
  acknowledgements and codes of one sandbox call in the environments of the turns), the message
  scanner, the variable-length integer, the two number formats. Time, signals, free disk space, and what other
  threads did meanwhile come from the environments as well. A mutex is the atomicity of a step; where the code
  releases one in between, the steps are separate definitions (\<open>ip_inject_checkpoint\<close> and
  \<open>ip_inject_queue\<close>, \<open>Format_name\<close> and \<open>Fopen_name\<close>, the end of a read and the opening of the next file).

  \<^bold>\<open>What the lemmas show.\<close> \<open>HS_Inject\<close>, \<open>HS_Output_Inject\<close>: a queue grows by whole messages in order, across
  rolls and writers, through the contract \<open>append_log\<close>; how far writers get ahead. \<open>HS_Input\<close>,
  \<open>HS_Output_Thread\<close>: readers hand over exactly the bytes of a file and leave it only at its end.
  \<open>HS_Delivery\<close>, \<open>HS_Analysis_Thread\<close>, \<open>HS_Input_Thread\<close>: a saved position never passes what is not settled.
  \<open>HS_Checkpoint_Reader\<close>, \<open>HS_Config\<close>, \<open>HS_Load_Cfg\<close>: what the files mean and how they round-trip. The
  \<open>_Plugins\<close> theories: placement, reload and shutdown of plugins. \<open>HS_Restart\<close>, \<open>HS_Main\<close>, \<open>HS_Crash\<close>,
  \<open>HS_Startup\<close>: end to end, a process that was shut down or crashed in any reachable state continues every
  plugin where the last round or the shutdown found it. The \<open>HS_Cli\<close> theories: how far the queues are drained
  when the variant stops, and what aborts it. Where the code does not keep what its
  documentation promises, the property states what it does.

  \<^bold>\<open>Bounds and fuel.\<close> Loops over lists and directories are structural. The loops of the threads run over
  a list of environments, one per turn, so every finite prefix of a run is covered; that a stopped thread
  needs at most one more turn, and the main loop none, are properties. \<open>read_checkpoints\<close>, which
  stands for running \<open>hindsight.cp\<close>, has the length of the text as fuel, and every entry it reads is at least
  one character. A draining thread of the command line variant needs at most as many turns as
  \<open>reader_work\<close> of its queues counts (the bytes and files left), one of them to see the end; its theorems
  say so for any list of turns longer than that. Retries of a delivery are a list that ends with \<open>stop\<close> or with another result.

  \<^bold>\<open>Not modelled.\<close> \<open>src/hs_sslutil.c\<close>, which only registers the
  locking callbacks of OpenSSL; failed allocations and thread primitives that only log and exit; the
  running averages and the text of \<open>plugins.tsv\<close>, which are the sandbox library's, and the lines the main
  thread logs; errors stdio meets while it closes a queue file, which the code ignores; links and
  path normalisation in the file system. Loading at run time is modelled by itself and in the
  main loop, but is not a step of the transition system.
\<close>

end
